(* ===== verification/Prelude.thy ===== *)
theory Prelude
  imports Main "HOL-Library.Word"
begin

text \<open>
  What every component shares: the machine integers of the Rust code under their Rust
  names, the combinators the source uses on \<open>Result\<close> and \<open>Option\<close>, checked addition,
  the theorem collections of the development, and the runs of a labelled step relation
  with the invariant rule every state machine of the development is an instance of.
\<close>

section \<open>Theorem collections\<close>

named_theorems result_simps \<open>rewriting of results and options through the combinators\<close>
named_theorems guard_defs \<open>definitions of the validators, unfolded to prove what they accept\<close>
named_theorems step_defs \<open>definitions of the state-changing operations\<close>

section \<open>Machine integers and byte strings\<close>

type_synonym u8 = "8 word"
type_synonym u16 = "16 word"
type_synonym u32 = "32 word"
type_synonym u64 = "64 word"
type_synonym i32 = "32 word"
type_synonym i64 = "64 word"
type_synonym bytes = "8 word list"

text \<open>
  Signed integers are the same words read with \<^term>\<open>sint\<close>. A \<open>String\<close> is the list of
  its UTF-8 bytes, so \<^term>\<open>length\<close> is Rust's \<open>len\<close>.
\<close>

definition checked_add :: "'a::len word \<Rightarrow> 'a word \<Rightarrow> 'a word option" where
  "checked_add a b = (if unat a + unat b < 2 ^ LENGTH('a) then Some (a + b) else None)"

lemma checked_add_SomeD:
  "checked_add a b = Some c \<Longrightarrow> unat c = unat a + unat b"
  by (auto simp: checked_add_def unat_word_ariths split: if_splits)

lemma checked_add_Some_iff:
  fixes a b c :: "'a::len word"
  shows "checked_add a b = Some c \<longleftrightarrow> unat a + unat b < 2 ^ LENGTH('a) \<and> c = a + b"
  by (auto simp: checked_add_def)

lemma checked_add_None_iff:
  fixes a b :: "'a::len word"
  shows "checked_add a b = None \<longleftrightarrow> 2 ^ LENGTH('a) \<le> unat a + unat b"
  by (auto simp: checked_add_def)

lemma checked_add_one_less:
  fixes a c :: "'a::len word"
  assumes "checked_add a 1 = Some c"
  shows "a < c"
  using checked_add_SomeD [OF assms] by (simp add: word_less_nat_alt)

section \<open>Results\<close>

text \<open>
  \<open>Result<T, E>\<close> is \<open>'e + 't\<close>, with \<^const>\<open>Inl\<close> for \<open>Err\<close>. The \<open>?\<close> operator is
  \<open>and_then\<close>, and \<open>Option::ok_or_else\<close> is \<open>ok_or\<close>.
\<close>

definition and_then :: "'e + 'a \<Rightarrow> ('a \<Rightarrow> 'e + 'b) \<Rightarrow> 'e + 'b" where
  "and_then r f = (case r of Inl e \<Rightarrow> Inl e | Inr x \<Rightarrow> f x)"

definition ok_or :: "'e \<Rightarrow> 'a option \<Rightarrow> 'e + 'a" where
  "ok_or e x = (case x of None \<Rightarrow> Inl e | Some v \<Rightarrow> Inr v)"

definition is_ok :: "'e + 'a \<Rightarrow> bool" where
  "is_ok r = (case r of Inl _ \<Rightarrow> False | Inr _ \<Rightarrow> True)"

definition is_some_and :: "'a option \<Rightarrow> ('a \<Rightarrow> bool) \<Rightarrow> bool" where
  "is_some_and x p = (case x of None \<Rightarrow> False | Some v \<Rightarrow> p v)"

definition option_filter :: "('a \<Rightarrow> bool) \<Rightarrow> 'a option \<Rightarrow> 'a option" where
  "option_filter p x = (case x of None \<Rightarrow> None | Some v \<Rightarrow> if p v then Some v else None)"

lemma and_then_simps [simp, result_simps]:
  "and_then (Inl e) f = Inl e"
  "and_then (Inr x) f = f x"
  by (simp_all add: and_then_def)

lemma and_then_Inr_iff [result_simps]:
  "and_then r f = Inr y \<longleftrightarrow> (\<exists>x. r = Inr x \<and> f x = Inr y)"
  by (cases r) auto

lemma and_then_Inl_iff [result_simps]:
  "and_then r f = Inl e \<longleftrightarrow> r = Inl e \<or> (\<exists>x. r = Inr x \<and> f x = Inl e)"
  by (cases r) auto

lemma and_then_cong [fundef_cong]:
  "r = r' \<Longrightarrow> (\<And>x. r' = Inr x \<Longrightarrow> f x = g x) \<Longrightarrow> and_then r f = and_then r' g"
  by (cases r') auto

lemma ok_or_simps [simp, result_simps]:
  "ok_or e None = Inl e"
  "ok_or e (Some v) = Inr v"
  by (simp_all add: ok_or_def)

lemma ok_or_Inr_iff [result_simps]: "ok_or e x = Inr v \<longleftrightarrow> x = Some v"
  by (cases x) auto

lemma ok_or_Inl_iff [result_simps]: "ok_or e x = Inl e' \<longleftrightarrow> x = None \<and> e' = e"
  by (cases x) auto

lemma is_ok_simps [simp, result_simps]:
  "is_ok (Inr x)" "\<not> is_ok (Inl e)"
  by (simp_all add: is_ok_def)

lemma is_ok_Ex: "is_ok r \<longleftrightarrow> (\<exists>x. r = Inr x)"
  by (cases r) auto

lemma is_ok_unit_iff: "is_ok (r :: 'e + unit) \<longleftrightarrow> r = Inr ()"
  by (cases r) auto

lemma is_some_and_simps [simp, result_simps]:
  "\<not> is_some_and None p"
  "is_some_and (Some v) p \<longleftrightarrow> p v"
  by (simp_all add: is_some_and_def)

lemma is_some_and_iff [result_simps]: "is_some_and x p \<longleftrightarrow> (\<exists>v. x = Some v \<and> p v)"
  by (cases x) auto

lemma option_filter_simps [simp, result_simps]:
  "option_filter p None = None"
  "option_filter p (Some v) = (if p v then Some v else None)"
  by (simp_all add: option_filter_def)

lemma option_filter_Some_iff [result_simps]:
  "option_filter p x = Some v \<longleftrightarrow> x = Some v \<and> p v"
  by (cases x) auto

lemma option_filter_None_iff [result_simps]:
  "option_filter p x = None \<longleftrightarrow> (\<forall>v. x = Some v \<longrightarrow> \<not> p v)"
  by (cases x) auto

section \<open>Fallible operations on a state\<close>

text \<open>
  An \<open>async fn(&mut self) -> Result<T, E>\<close> is a function from the state to the result and
  the state it leaves behind, on every path. \<open>st_and_then\<close> is \<open>?\<close> for these, and
  \<open>try_each\<close> is \<open>for x in xs { f(x).await?; }\<close>.
\<close>

definition st_and_then ::
  "('e + 'a) \<times> 's \<Rightarrow> ('a \<Rightarrow> 's \<Rightarrow> ('e + 'b) \<times> 's) \<Rightarrow> ('e + 'b) \<times> 's" where
  "st_and_then rs f = (case rs of (Inl e, s) \<Rightarrow> (Inl e, s) | (Inr x, s) \<Rightarrow> f x s)"

fun try_each ::
  "('m \<Rightarrow> 's \<Rightarrow> ('e + 'a) \<times> 's) \<Rightarrow> 'm list \<Rightarrow> 's \<Rightarrow> ('e + unit) \<times> 's" where
  "try_each f [] s = (Inr (), s)"
| "try_each f (x # xs) s = st_and_then (f x s) (\<lambda>_ t. try_each f xs t)"

lemma st_and_then_simps [simp, result_simps]:
  "st_and_then (Inl e, s) f = (Inl e, s)"
  "st_and_then (Inr x, s) f = f x s"
  by (simp_all add: st_and_then_def)

lemma st_and_then_Inr_iff [result_simps]:
  "st_and_then rs f = (Inr y, t) \<longleftrightarrow> (\<exists>x s. rs = (Inr x, s) \<and> f x s = (Inr y, t))"
  by (cases rs; cases "fst rs") auto

lemma st_and_then_Inl_iff [result_simps]:
  "st_and_then rs f = (Inl e, t) \<longleftrightarrow>
     rs = (Inl e, t) \<or> (\<exists>x s. rs = (Inr x, s) \<and> f x s = (Inl e, t))"
  by (cases rs; cases "fst rs") auto

text \<open>A relation every call establishes, reflexive and transitive, holds of the loop.\<close>

lemma try_each_rel:
  assumes "\<And>s. R s s" and "\<And>s t u. R s t \<Longrightarrow> R t u \<Longrightarrow> R s u"
    and "\<And>x s. R s (snd (f x s))"
  shows "R s (snd (try_each f xs s))"
proof (induction xs arbitrary: s)
  case Nil
  show ?case by (simp add: assms(1))
next
  case (Cons x xs)
  obtain r t where "f x s = (r, t)" by (cases "f x s")
  with assms(3) [of s x] Cons.IH [of t] assms(2) show ?case by (cases r) auto
qed

section \<open>Runs of a step relation\<close>

text \<open>
  A component whose steps interleave with its environment is a relation
  \<open>step s label t\<close>. A run is the list of the labels of its steps.
\<close>

inductive run :: "('s \<Rightarrow> 'l \<Rightarrow> 's \<Rightarrow> bool) \<Rightarrow> 's \<Rightarrow> 'l list \<Rightarrow> 's \<Rightarrow> bool"
  for step and s where
  run_nil: "run step s [] s"
| run_snoc: "run step s ls t \<Longrightarrow> step t l u \<Longrightarrow> run step s (ls @ [l]) u"

lemma run_append:
  assumes "run step t ks u" and "run step s ls t"
  shows "run step s (ls @ ks) u"
  using assms
proof (induction rule: run.induct)
  case (run_nil)
  then show ?case by simp
next
  case (run_snoc ks u l v)
  then have "run step s ((ls @ ks) @ [l]) v" by (blast intro: run.run_snoc)
  then show ?case by simp
qed

lemma run_single: "step s l t \<Longrightarrow> run step s [l] t"
  using run_snoc [OF run_nil, of step s l t] by simp

lemma run_cons:
  assumes "step s l t" and "run step t ls u"
  shows "run step s (l # ls) u"
  using run_append [OF assms(2) run_single [where step = step, OF assms(1)]] by simp

lemma run_weaken:
  assumes "run step s ls t" and "\<And>s l t. step s l t \<Longrightarrow> step' s l t"
  shows "run step' s ls t"
  using assms by (induction rule: run.induct) (auto intro: run.intros)

locale invariant_system =
  fixes init :: "'s \<Rightarrow> bool"
    and step :: "'s \<Rightarrow> 'l \<Rightarrow> 's \<Rightarrow> bool"
    and inv :: "'s \<Rightarrow> bool"
  assumes init_inv: "init s \<Longrightarrow> inv s"
    and step_inv: "step s l t \<Longrightarrow> inv s \<Longrightarrow> inv t"
begin

lemma run_inv: "run step s ls t \<Longrightarrow> inv s \<Longrightarrow> inv t"
  by (induction rule: run.induct) (auto intro: step_inv)

lemma reachable_inv: "init s \<Longrightarrow> run step s ls t \<Longrightarrow> inv t"
  by (blast intro: init_inv run_inv)

text \<open>A measure every step keeps from decreasing only grows along a run.\<close>

lemma run_mono:
  fixes f :: "'s \<Rightarrow> 'm::preorder"
  assumes "run step s ls t" and "inv s"
    and mono: "\<And>s l t. step s l t \<Longrightarrow> inv s \<Longrightarrow> f s \<le> f t"
  shows "f s \<le> f t"
  using assms(1,2)
proof (induction rule: run.induct)
  case run_nil
  then show ?case by simp
next
  case (run_snoc ls t l u)
  then have "inv t" by (blast intro: run_inv)
  with run_snoc mono have "f t \<le> f u" by blast
  with run_snoc show ?case by (blast intro: order_trans)
qed

end

end
