(* ===== verification/Document_Protocol.thy ===== *)
theory Document_Protocol
  imports Prelude
begin

text \<open>
  The messages of \<open>proto/oll/document.proto\<close>, with the identifiers and revisions of
  \<open>common.proto\<close> they use, as the generated Rust types present them. The runtime hands them
  on unread; an action builds and reads them. A \<open>map\<close> is the list of its entries.
\<close>

type_synonym f64_bits = "64 word"

datatype document_id = DocumentId (document_id_value: string)
datatype catalog_node_id = CatalogNodeId (catalog_node_id_value: string)
datatype binary_id = BinaryId (binary_id_value: string)
datatype catalog_revision = CatalogRevision (catalog_revision_token: bytes)
datatype document_revision = DocumentRevision (document_revision_token: bytes)

datatype document_path = DocumentPath (document_path_value: string)

datatype node_kind = NodeUnspecified | NodeDocument | NodeDirectory | NodeBinary

fun node_kind_i32 :: "node_kind \<Rightarrow> i32" where
  "node_kind_i32 NodeUnspecified = 0"
| "node_kind_i32 NodeDocument = 1"
| "node_kind_i32 NodeDirectory = 2"
| "node_kind_i32 NodeBinary = 3"

record node_metadata =
  nm_path :: "document_path option"
  nm_kind :: i32
  nm_catalog_revision :: "catalog_revision option"
  nm_media_type :: "string option"
  nm_size_bytes :: u64
  nm_node_id :: "catalog_node_id option"
  nm_document_id :: "document_id option"
  nm_binary_id :: "binary_id option"
  nm_document_revision :: "document_revision option"
  nm_encoding :: "string option"
  nm_has_byte_order_mark :: bool

datatype crdt_scalar_kind =
  ScalarBoolValue bool
| ScalarIntegerValue i64
| ScalarNumberValue f64_bits
| ScalarStringValue string
| ScalarBytesValue bytes
| ScalarNullValue i32

datatype crdt_scalar = CrdtScalar (crdt_scalar_of: "crdt_scalar_kind option")

record crdt_text_mark =
  ctm_start_scalar :: u64
  ctm_end_scalar :: u64
  ctm_name :: string
  ctm_value :: "crdt_scalar option"

record crdt_text =
  ct_text :: string
  ct_marks :: "crdt_text_mark list"

record crdt_tree_node =
  ctn_node_id :: string
  ctn_parent_id :: "string option"
  ctn_index_in_parent :: "u64 option"
  ctn_metadata :: "(string \<times> crdt_scalar) list"

record crdt_tree =
  ctr_nodes :: "crdt_tree_node list"

text \<open>A list or a map holds values; the boxed messages are inlined.\<close>

datatype crdt_value = CrdtValue (crdt_value_kind: "crdt_value_kind option")
  and crdt_value_kind =
    CrdtScalarValue crdt_scalar
  | CrdtTextValue crdt_text
  | CrdtListValue "crdt_value list" bool
  | CrdtMapValue "(string \<times> crdt_value) list"
  | CrdtTreeValue crdt_tree
  | CrdtCounterValue f64_bits

datatype document_projection = ProjectionUnspecified | ProjectionContent | ProjectionCrdt

fun document_projection_i32 :: "document_projection \<Rightarrow> i32" where
  "document_projection_i32 ProjectionUnspecified = 0"
| "document_projection_i32 ProjectionContent = 1"
| "document_projection_i32 ProjectionCrdt = 2"

record read_document_request =
  rdq_path :: "document_path option"
  rdq_projection :: i32

datatype document_snapshot_representation =
  SnapshotContent string
| SnapshotCrdt crdt_value

record document_snapshot =
  ds_metadata :: "node_metadata option"
  ds_representation :: "document_snapshot_representation option"

record read_document_response =
  rds_document :: "document_snapshot option"

record list_directory_request =
  ldq_path :: "document_path option"
  ldq_recursive :: bool

record list_directory_response =
  lds_directory :: "node_metadata option"
  lds_entries :: "node_metadata list"

record get_directory_tree_request =
  gtq_root :: "document_path option"

datatype directory_tree_node =
  DirectoryTreeNode (dtn_metadata: "node_metadata option") (dtn_children: "directory_tree_node list")

record get_directory_tree_response =
  gts_root :: "directory_tree_node option"

datatype crdt_path_segment_kind =
  CrdtPathMapKey string
| CrdtPathListIndex u64
| CrdtPathTreeNodeId string

datatype crdt_path_segment = CrdtPathSegment (crdt_path_segment_of: "crdt_path_segment_kind option")

record crdt_object_path =
  cop_segments :: "crdt_path_segment list"

record read_crdt_request =
  rcq_document :: "document_path option"
  rcq_object :: "crdt_object_path option"

record read_crdt_response =
  rcs_revision :: "document_revision option"
  rcs_value :: "crdt_value option"

record map_set =
  ms_target :: "crdt_object_path option"
  ms_key :: string
  ms_value :: "crdt_value option"

record map_delete =
  md_target :: "crdt_object_path option"
  md_key :: string

record list_insert =
  li_target :: "crdt_object_path option"
  li_index :: u64
  li_values :: "crdt_value list"

record list_delete =
  ld_target :: "crdt_object_path option"
  ld_index :: u64
  ld_count :: u64

record list_move =
  lm_target :: "crdt_object_path option"
  lm_index :: u64
  lm_count :: u64
  lm_destination :: u64

record text_insert =
  ti_target :: "crdt_object_path option"
  ti_scalar_index :: u64
  ti_text :: string

record text_delete =
  td_target :: "crdt_object_path option"
  td_scalar_index :: u64
  td_scalar_count :: u64

record text_mark =
  tm_target :: "crdt_object_path option"
  tm_start_scalar :: u64
  tm_end_scalar :: u64
  tm_name :: string
  tm_value :: "crdt_scalar option"

record text_unmark =
  tu_target :: "crdt_object_path option"
  tu_start_scalar :: u64
  tu_end_scalar :: u64
  tu_name :: string

record counter_increment =
  ci_target :: "crdt_object_path option"
  ci_delta :: f64_bits

record tree_create_node =
  tcn_target :: "crdt_object_path option"
  tcn_node_id :: string
  tcn_parent_id :: "string option"
  tcn_index :: u64
  tcn_metadata :: "(string \<times> crdt_scalar) list"

record tree_delete_node =
  tdn_target :: "crdt_object_path option"
  tdn_node_id :: string

record tree_move_node =
  tmn_target :: "crdt_object_path option"
  tmn_node_id :: string
  tmn_parent_id :: "string option"
  tmn_index :: u64

record tree_set_metadata =
  tsm_target :: "crdt_object_path option"
  tsm_node_id :: string
  tsm_key :: string
  tsm_value :: "crdt_scalar option"

datatype crdt_operation_operation =
  OpMapSet map_set
| OpMapDelete map_delete
| OpListInsert list_insert
| OpListDelete list_delete
| OpListMove list_move
| OpTextInsert text_insert
| OpTextDelete text_delete
| OpTextMark text_mark
| OpTextUnmark text_unmark
| OpCounterIncrement counter_increment
| OpTreeCreateNode tree_create_node
| OpTreeDeleteNode tree_delete_node
| OpTreeMoveNode tree_move_node
| OpTreeSetMetadata tree_set_metadata

datatype crdt_operation = CrdtOperation (crdt_operation_of: "crdt_operation_operation option")

record catalog_revision_precondition =
  crp_catalog_node_id :: "catalog_node_id option"
  crp_unchanged_since :: "catalog_revision option"

record document_revision_precondition =
  drp_document_id :: "document_id option"
  drp_unchanged_since :: "document_revision option"

datatype commit_precondition_condition =
  ConditionCatalogUnchanged catalog_revision_precondition
| ConditionDocumentUnchanged document_revision_precondition
| ConditionMustExist document_path
| ConditionMustNotExist document_path

datatype commit_precondition = CommitPrecondition (commit_precondition_of: "commit_precondition_condition option")

record create_directory =
  cd_path :: "document_path option"

record create_document =
  cdoc_path :: "document_path option"
  cdoc_media_type :: string
  cdoc_content :: string

record replace_document =
  rpd_path :: "document_path option"
  rpd_content :: string
  rpd_media_type :: "string option"

record splice_document_text =
  sdt_path :: "document_path option"
  sdt_scalar_index :: u64
  sdt_delete_scalar_count :: u64
  sdt_insert_text :: string

record delete_node =
  dn_path :: "document_path option"
  dn_recursive :: bool

record move_node =
  mn_source :: "document_path option"
  mn_destination :: "document_path option"

record apply_crdt_operations =
  aco_document :: "document_path option"
  aco_operations :: "crdt_operation list"

datatype document_mutation_mutation =
  MutationCreateDirectory create_directory
| MutationCreateDocument create_document
| MutationReplaceDocument replace_document
| MutationSpliceDocumentText splice_document_text
| MutationDeleteNode delete_node
| MutationMoveNode move_node
| MutationApplyCrdtOperations apply_crdt_operations

datatype document_mutation = DocumentMutation (document_mutation_of: "document_mutation_mutation option")

record commit_documents_request =
  cmq_operation_id :: string
  cmq_preconditions :: "commit_precondition list"
  cmq_mutations :: "document_mutation list"

record updated_node =
  un_path :: "document_path option"
  un_catalog_node_id :: "catalog_node_id option"
  un_catalog_revision :: "catalog_revision option"
  un_document_id :: "document_id option"
  un_document_revision :: "document_revision option"
  un_binary_id :: "binary_id option"
  un_deleted :: bool

record commit_documents_response =
  cms_operation_id :: string
  cms_updated_nodes :: "updated_node list"

record catalog_revision_conflict =
  crc_catalog_node_id :: "catalog_node_id option"
  crc_expected :: "catalog_revision option"
  crc_actual :: "catalog_revision option"
  crc_exists :: bool

record document_revision_conflict =
  drc_document_id :: "document_id option"
  drc_expected :: "document_revision option"
  drc_actual :: "document_revision option"
  drc_exists :: bool

datatype revision_conflict_detail_conflict =
  ConflictCatalog catalog_revision_conflict
| ConflictDocument document_revision_conflict

datatype revision_conflict_detail = RevisionConflictDetail (revision_conflict_detail_of: "revision_conflict_detail_conflict option")

end
