(* ===== verification/Wire_Protocol.thy ===== *)
theory Wire_Protocol
  imports Document_Protocol
begin

text \<open>
  The messages of \<open>proto/oll/*.proto\<close> as the generated Rust types present them to the
  runtime: a message field is an option, an enum field is the open \<open>i32\<close> it travels as, a
  \<open>oneof\<close> is an option of a tagged union, \<open>map<string, V>\<close> is a map, or the list of its
  entries in iteration order where the code walks over it. The document and CRDT messages
  are in \<^theory_text>\<open>Document_Protocol\<close>.
\<close>

section \<open>Well-known types\<close>

record timestamp =
  ts_seconds :: i64
  ts_nanos :: i32

record duration =
  dur_seconds :: i64
  dur_nanos :: i32

record any_message =
  any_type_url :: string
  any_value :: bytes

section \<open>Common messages\<close>

datatype node_id = NodeId (node_id_value: string)
datatype node_name = NodeName (node_name_value: string)
datatype replica_id = ReplicaId (replica_id_value: string)
datatype plugin_id = PluginId (plugin_id_value: string)
datatype plugin_name = PluginName (plugin_name_value: string)
datatype plugin_job_id = PluginJobId (plugin_job_id_value: string)
datatype plugin_artifact_id = PluginArtifactId (plugin_artifact_id_value: string)

record node_identity =
  node_id :: "node_id option"
  node_name :: "node_name option"

datatype log_level =
  LogUnspecified | LogTrace | LogDebug | LogInfo | LogWarn | LogError

fun log_level_i32 :: "log_level \<Rightarrow> i32" where
  "log_level_i32 LogUnspecified = 0"
| "log_level_i32 LogTrace = 1"
| "log_level_i32 LogDebug = 2"
| "log_level_i32 LogInfo = 3"
| "log_level_i32 LogWarn = 4"
| "log_level_i32 LogError = 5"

record trace_context =
  correlation_id :: string
  parent_call_id :: "u64 option"
  call_depth :: u32
  causal_depth :: u32
  task_id :: "string option"
  task_group_id :: "string option"

datatype error_code =
  CodeUnspecified | CodeInvalidArgument | CodeNotFound | CodeAlreadyExists
| CodeRevisionConflict | CodeCallDepthExceeded | CodeCausalDepthExceeded
| CodeDeadlineExceeded | CodeCancelled | CodeUnavailable | CodeProtocolMismatch
| CodeFailedPrecondition | CodeInternal | CodePayloadTooLarge | CodeUnsupported

fun error_code_i32 :: "error_code \<Rightarrow> i32" where
  "error_code_i32 CodeUnspecified = 0"
| "error_code_i32 CodeInvalidArgument = 1"
| "error_code_i32 CodeNotFound = 2"
| "error_code_i32 CodeAlreadyExists = 3"
| "error_code_i32 CodeRevisionConflict = 4"
| "error_code_i32 CodeCallDepthExceeded = 5"
| "error_code_i32 CodeCausalDepthExceeded = 6"
| "error_code_i32 CodeDeadlineExceeded = 7"
| "error_code_i32 CodeCancelled = 8"
| "error_code_i32 CodeUnavailable = 9"
| "error_code_i32 CodeProtocolMismatch = 10"
| "error_code_i32 CodeFailedPrecondition = 11"
| "error_code_i32 CodeInternal = 12"
| "error_code_i32 CodePayloadTooLarge = 13"
| "error_code_i32 CodeUnsupported = 14"

record protocol_error =
  pe_code :: i32
  pe_message :: string
  pe_retryable :: bool
  pe_metadata :: "string \<rightharpoonup> string"
  pe_details :: "any_message list"

section \<open>Configuration values and calls\<close>

record config_function_ref =
  fn_session_id :: string
  fn_function_id :: string

datatype config_value = ConfigValue (cv_kind: "config_kind option")
  and config_kind =
    NullValue i32
  | BoolValue bool
  | IntegerValue i64
  | NumberValue f64_bits
  | StringValue string
  | BytesValue bytes
  | ListValue "config_value list"
  | MapValue "(string \<times> config_value) list"
  | FunctionValue config_function_ref
  | TimestampValue timestamp
  | DurationValue duration

datatype config_path_segment_kind = SegmentKey string | SegmentIndex u64

record config_path_segment =
  segment_kind :: "config_path_segment_kind option"

record config_path =
  path_segments :: "config_path_segment list"

record get_config_request =
  gc_path :: "config_path option"

record get_config_response =
  gc_value :: "config_value option"

record invoke_config_function_request =
  icf_function :: "config_function_ref option"
  icf_arguments :: "config_value list"

record invoke_config_function_response =
  icf_results :: "config_value list"

section \<open>Host calls\<close>

datatype host_call =
  Call_ReadDocument read_document_request
| Call_ListDirectory list_directory_request
| Call_GetDirectoryTree get_directory_tree_request
| Call_ReadCrdt read_crdt_request
| Call_CommitDocuments commit_documents_request
| Call_GetConfig get_config_request
| Call_InvokeConfigFunction invoke_config_function_request

record host_call_request =
  hcr_call :: "host_call option"

datatype host_call_result =
  Result_ReadDocument read_document_response
| Result_ListDirectory list_directory_response
| Result_GetDirectoryTree get_directory_tree_response
| Result_ReadCrdt read_crdt_response
| Result_CommitDocuments commit_documents_response
| Result_GetConfig get_config_response
| Result_InvokeConfigFunction invoke_config_function_response
| Result_Error protocol_error

record host_call_response =
  hcr_result :: "host_call_result option"

section \<open>Plugin messages\<close>

record host_hello =
  hh_node :: "node_identity option"
  hh_maximum_call_depth :: u32
  hh_maximum_causal_depth :: u32
  hh_maximum_artifact_chunk_bytes :: u64
  hh_plugin_id :: "plugin_id option"
  hh_plugin_name :: "plugin_name option"

record action_descriptor =
  ad_name :: string
  ad_description :: string

record plugin_hello =
  ph_plugin_id :: "plugin_id option"
  ph_plugin_name :: "plugin_name option"
  ph_actions :: "action_descriptor list"
  ph_plugin_version :: string

record action_invocation =
  inv_action :: string
  inv_arguments :: "string list"

datatype job_invocation = ActionInvocation action_invocation

record start_job_request =
  sj_job_id :: "plugin_job_id option"
  sj_deadline :: "timestamp option"
  sj_invocation :: "job_invocation option"

record job_accepted =
  ja_job_id :: "plugin_job_id option"

datatype job_state = StateUnspecified | StateRunning | StateSucceeded | StateFailed

fun job_state_i32 :: "job_state \<Rightarrow> i32" where
  "job_state_i32 StateUnspecified = 0"
| "job_state_i32 StateRunning = 1"
| "job_state_i32 StateSucceeded = 2"
| "job_state_i32 StateFailed = 3"

record artifact_descriptor =
  art_artifact_id :: "plugin_artifact_id option"
  art_file_name :: string
  art_media_type :: string
  art_size_bytes :: u64
  art_sha256 :: bytes

record job_update =
  ju_job_id :: "plugin_job_id option"
  ju_state :: i32
  ju_progress :: "f64_bits option"
  ju_status_message :: "string option"
  ju_result :: "config_value option"
  ju_error :: "protocol_error option"
  ju_artifacts :: "artifact_descriptor list"

record artifact_transfer_start =
  ats_job_id :: "plugin_job_id option"
  ats_artifact :: "artifact_descriptor option"
  ats_chunk_count :: u32

record artifact_transfer_accepted =
  ata_artifact_id :: "plugin_artifact_id option"

record artifact_transfer_chunk =
  atk_artifact_id :: "plugin_artifact_id option"
  atk_chunk_index :: u32
  atk_data :: bytes

record artifact_transfer_complete =
  atc_artifact_id :: "plugin_artifact_id option"

record artifact_stored =
  ast_artifact_id :: "plugin_artifact_id option"

datatype job_cancellation_reason =
  ReasonUnspecified | ReasonUserRequest | ReasonDeadline

fun job_cancellation_reason_i32 :: "job_cancellation_reason \<Rightarrow> i32" where
  "job_cancellation_reason_i32 ReasonUnspecified = 0"
| "job_cancellation_reason_i32 ReasonUserRequest = 1"
| "job_cancellation_reason_i32 ReasonDeadline = 2"

record cancel_job_request =
  cj_job_id :: "plugin_job_id option"
  cj_reason :: i32

record cancel_job_acknowledged =
  cja_job_id :: "plugin_job_id option"

record log_record =
  log_timestamp :: "timestamp option"
  log_level_field :: i32
  log_target :: string
  log_message :: string
  log_fields :: "(string \<times> config_value) list"

record heartbeat =
  hb_nonce :: u64

record shutdown_request =
  sd_reason :: string
  sd_grace_period_deadline :: "timestamp option"

datatype payload =
  PHostHello host_hello
| PPluginHello plugin_hello
| PReady
| PStartJob start_job_request
| PJobAccepted job_accepted
| PJobUpdate job_update
| PHostCall host_call_request
| PHostResult host_call_response
| PLog log_record
| PHeartbeat heartbeat
| PShutdown shutdown_request
| PShutdownAcknowledged
| PProtocolError protocol_error
| PArtifactStart artifact_transfer_start
| PArtifactAccepted artifact_transfer_accepted
| PArtifactChunk artifact_transfer_chunk
| PArtifactComplete artifact_transfer_complete
| PArtifactStored artifact_stored
| PCancelJob cancel_job_request
| PCancelJobAcknowledged cancel_job_acknowledged

record plugin_envelope =
  message_id :: u64
  reply_to :: "u64 option"
  env_session_id :: string
  env_plugin_instance_id :: string
  env_trace :: "trace_context option"
  env_payload :: "payload option"

section \<open>Enum numbering\<close>

text \<open>
  The runtime compares the open \<open>i32\<close> of an enum field with the number of one of its
  variants; the comparison means what it says because the numbering is injective.
\<close>

lemma error_code_i32_inject [simp]:
  "error_code_i32 a = error_code_i32 b \<longleftrightarrow> a = b"
  by (cases a; cases b; simp)

lemma job_state_i32_inject [simp]:
  "job_state_i32 a = job_state_i32 b \<longleftrightarrow> a = b"
  by (cases a; cases b; simp)

lemma error_code_i32_zero_iff: "error_code_i32 c = 0 \<longleftrightarrow> c = CodeUnspecified"
  by (cases c) simp_all

lemma reason_i32_zero_iff: "job_cancellation_reason_i32 r = 0 \<longleftrightarrow> r = ReasonUnspecified"
  by (cases r) simp_all

end
