(* ===== verification/Errors.thy ===== *)
theory Errors
  imports Wire_Protocol
begin

text \<open>
  \<open>src/runtime/error.rs\<close>: the errors of the SDK, their text, and the structured
  \<open>ProtocolError\<close> each of them becomes on the wire. The error source a \<open>Runtime\<close> error
  boxes comes from a library; the runtime only displays it, so it is its displayed text.
\<close>

type_synonym error_source = string

datatype sdk_error =
  Environment string
| InvalidArgument string
| Transport string
| Protocol string
| Host protocol_error
| Action string
| Cancelled
| Runtime string error_source

type_synonym 'a sdk_result = "sdk_error + 'a"

definition runtime :: "string \<Rightarrow> error_source \<Rightarrow> sdk_error" where
  "runtime operation source = Runtime operation source"

fun display :: "sdk_error \<Rightarrow> string" where
  "display (Environment message) = message"
| "display (InvalidArgument message) = message"
| "display (Transport message) = message"
| "display (Protocol message) = message"
| "display (Action message) = message"
| "display (Host error) = pe_message error"
| "display Cancelled = ''action was cancelled''"
| "display (Runtime operation source) = operation @ '': '' @ source"

fun sdk_error_source :: "sdk_error \<Rightarrow> error_source option" where
  "sdk_error_source (Runtime operation src) = Some src"
| "sdk_error_source _ = None"

text \<open>The \<open>match\<close> of \<open>protocol_error\<close>; its \<open>Host\<close> arm is unreachable there.\<close>

fun outbound_code :: "sdk_error \<Rightarrow> error_code option" where
  "outbound_code (InvalidArgument _) = Some CodeInvalidArgument"
| "outbound_code (Environment _) = Some CodeUnavailable"
| "outbound_code (Transport _) = Some CodeUnavailable"
| "outbound_code (Runtime _ _) = Some CodeUnavailable"
| "outbound_code (Protocol _) = Some CodeFailedPrecondition"
| "outbound_code (Action _) = Some CodeInternal"
| "outbound_code Cancelled = Some CodeCancelled"
| "outbound_code (Host _) = None"

fun retryable_error :: "sdk_error \<Rightarrow> bool" where
  "retryable_error (Environment _) = True"
| "retryable_error (Transport _) = True"
| "retryable_error (Runtime _ _) = True"
| "retryable_error _ = False"

text \<open>\<^const>\<open>None\<close> is the \<open>unreachable!\<close> panic of the \<open>Host\<close> arm.\<close>

definition to_protocol_error :: "sdk_error \<Rightarrow> protocol_error option" where
  "to_protocol_error e =
     (case e of
        Host error \<Rightarrow> Some error
      | _ \<Rightarrow>
          (case outbound_code e of
             None \<Rightarrow> None
           | Some code \<Rightarrow>
               Some \<lparr>pe_code = error_code_i32 code, pe_message = display e,
                     pe_retryable = retryable_error e, pe_metadata = Map.empty,
                     pe_details = []\<rparr>))"

section \<open>Properties\<close>

lemma to_protocol_error_Host [simp]: "to_protocol_error (Host error) = Some error"
  by (simp add: to_protocol_error_def)

lemma to_protocol_error_total: "\<exists>pe. to_protocol_error e = Some pe"
  by (cases e) (simp_all add: to_protocol_error_def)

lemma to_protocol_error_message:
  "to_protocol_error e = Some pe \<Longrightarrow> pe_message pe = display e"
  by (cases e) (auto simp: to_protocol_error_def)

lemma to_protocol_error_code:
  assumes "to_protocol_error e = Some pe" and "\<And>h. e \<noteq> Host h"
  shows "\<exists>c. outbound_code e = Some c \<and> c \<noteq> CodeUnspecified \<and> pe_code pe = error_code_i32 c"
  using assms by (cases e) (auto simp: to_protocol_error_def)

lemma to_protocol_error_retryable:
  assumes "to_protocol_error e = Some pe" and "\<And>h. e \<noteq> Host h"
  shows "pe_retryable pe \<longleftrightarrow> pe_code pe = error_code_i32 CodeUnavailable"
  using assms by (cases e) (auto simp: to_protocol_error_def)

end
