(* ===== verification/Sender.thy ===== *)
theory Sender
  imports Errors
begin

text \<open>
  \<open>src/runtime/sender.rs\<close>: the one ordered output of a session. An \<open>enqueue\<close> runs under
  the sender's lock from the ID allocation to the channel send, so for the component that
  calls it, it is one step on the sender's state; theory \<open>Outgoing\<close> justifies this
  against the interleaved execution. The wire is the list of everything handed to the
  channel, oldest first; a one-shot acknowledgement is named by a number.
\<close>

record session_identity =
  si_session_id :: string
  si_instance_id :: string

record outbound_envelope =
  oe_envelope :: plugin_envelope
  oe_consumed :: "nat option"

record session_sender =
  ss_identity :: session_identity
  ss_next_message_id :: u64
  ss_wire :: "outbound_envelope list"
  ss_closed :: bool

definition new_sender :: "session_identity \<Rightarrow> session_sender" where
  "new_sender identity =
     \<lparr>ss_identity = identity, ss_next_message_id = 1, ss_wire = [], ss_closed = False\<rparr>"

section \<open>Operations\<close>

text \<open>The envelope, and the acknowledgement that fires when the stream consumes it.\<close>

definition consume :: "outbound_envelope \<Rightarrow> plugin_envelope \<times> nat option" where
  "consume outbound = (oe_envelope outbound, oe_consumed outbound)"

definition seal_envelope ::
  "session_identity \<Rightarrow> u64 \<Rightarrow> u64 option \<Rightarrow> trace_context \<Rightarrow> payload \<Rightarrow> plugin_envelope" where
  "seal_envelope identity mid reply trace payload =
     \<lparr>message_id = mid, reply_to = reply,
      env_session_id = si_session_id identity,
      env_plugin_instance_id = si_instance_id identity,
      env_trace = Some trace, env_payload = Some payload\<rparr>"

text \<open>
  The first half of an \<open>enqueue\<close>, up to the channel send: allocate an ID and let the
  caller's closure register it. \<open>register\<close> may fail, and acts on the caller's own state
  \<open>'r\<close>; what it fails on, it leaves alone.
\<close>

definition reserve ::
  "(u64 \<Rightarrow> 'r \<Rightarrow> ('t \<times> 'r) sdk_result) \<Rightarrow>
   session_sender \<times> 'r \<Rightarrow> (u64 \<times> 't) sdk_result \<times> (session_sender \<times> 'r)" where
  "reserve register sr =
     (let (s, r) = sr; mid = ss_next_message_id s
      in case checked_add (ss_next_message_id s) 1 of
           None \<Rightarrow> (Inl (Protocol ''plugin exhausted message IDs''), (s, r))
         | Some next \<Rightarrow>
             (let s1 = s\<lparr>ss_next_message_id := next\<rparr>
              in case register mid r of
                   Inl e \<Rightarrow> (Inl e, (s1, r))
                 | Inr (registered, r1) \<Rightarrow> (Inr (mid, registered), (s1, r1))))"

text \<open>
  The whole \<open>enqueue\<close>. When the channel send fails, the registered value goes out of scope:
  \<open>release\<close> is its destructor.
\<close>

definition enqueue ::
  "u64 option \<Rightarrow> trace_context \<Rightarrow> payload \<Rightarrow> nat option \<Rightarrow>
   (u64 \<Rightarrow> 'r \<Rightarrow> ('t \<times> 'r) sdk_result) \<Rightarrow> ('t \<Rightarrow> 'r \<Rightarrow> 'r) \<Rightarrow>
   session_sender \<times> 'r \<Rightarrow> (u64 \<times> 't) sdk_result \<times> (session_sender \<times> 'r)" where
  "enqueue reply trace payload consumed register release sr =
     st_and_then (reserve register sr)
       (\<lambda>(mid, registered) (s1, r1).
          if ss_closed s1
          then (Inl (Transport ''plugin output stream closed''), (s1, release registered r1))
          else (Inr (mid, registered),
                (s1\<lparr>ss_wire := ss_wire s1 @
                   [\<lparr>oe_envelope = seal_envelope (ss_identity s1) mid reply trace payload,
                     oe_consumed = consumed\<rparr>]\<rparr>, r1)))"

text \<open>
  The \<open>enqueue\<close> future dropped while it awaits room in the channel. A future that has
  failed before it came to that has returned its error; otherwise nobody sees a result.
\<close>

definition abandon_enqueue ::
  "(u64 \<Rightarrow> 'r \<Rightarrow> ('t \<times> 'r) sdk_result) \<Rightarrow> ('t \<Rightarrow> 'r \<Rightarrow> 'r) \<Rightarrow>
   session_sender \<times> 'r \<Rightarrow> unit sdk_result \<times> (session_sender \<times> 'r)" where
  "abandon_enqueue register release sr =
     st_and_then (reserve register sr)
       (\<lambda>(mid, registered) (s1, r1).
          (if ss_closed s1 then Inl (Transport ''plugin output stream closed'') else Inr (),
           (s1, release registered r1)))"

definition send_with ::
  "nat option \<Rightarrow> u64 option \<Rightarrow> trace_context \<Rightarrow> payload \<Rightarrow> session_sender \<Rightarrow>
   u64 sdk_result \<times> session_sender" where
  "send_with consumed reply trace payload s =
     (let (result, (s1, _)) = enqueue reply trace payload consumed (\<lambda>_ r. Inr ((), r)) (\<lambda>_ r. r) (s, ())
      in (and_then result (\<lambda>(mid, _). Inr mid), s1))"

definition send ::
  "u64 option \<Rightarrow> trace_context \<Rightarrow> payload \<Rightarrow> session_sender \<Rightarrow>
   u64 sdk_result \<times> session_sender" where
  "send reply trace payload s = send_with None reply trace payload s"

text \<open>
  \<open>acknowledgment\<close> is what awaiting the one-shot receiver yields: a unit when the request
  stream has consumed the envelope, an error when the stream was dropped.
\<close>

definition send_and_wait_for_consumption ::
  "nat \<Rightarrow> error_source + unit \<Rightarrow> u64 option \<Rightarrow> trace_context \<Rightarrow> payload \<Rightarrow>
   session_sender \<Rightarrow> u64 sdk_result \<times> session_sender" where
  "send_and_wait_for_consumption consumed acknowledgment reply trace payload s =
     st_and_then (send_with (Some consumed) reply trace payload s)
       (\<lambda>mid s1. case acknowledgment of
          Inl error \<Rightarrow> (Inl (runtime ''wait for plugin output stream consumption'' error), s1)
        | Inr _ \<Rightarrow> (Inr mid, s1))"

definition send_registered ::
  "u64 option \<Rightarrow> trace_context \<Rightarrow> payload \<Rightarrow> (u64 \<Rightarrow> 'r \<Rightarrow> ('t \<times> 'r) sdk_result) \<Rightarrow>
   ('t \<Rightarrow> 'r \<Rightarrow> 'r) \<Rightarrow>
   session_sender \<times> 'r \<Rightarrow> (u64 \<times> 't) sdk_result \<times> (session_sender \<times> 'r)" where
  "send_registered reply trace payload register release sr =
     enqueue reply trace payload None register release sr"

section \<open>One step of the output\<close>

definition wire_envelopes :: "session_sender \<Rightarrow> plugin_envelope list" where
  "wire_envelopes s = map oe_envelope (ss_wire s)"

definition sent_ids :: "session_sender \<Rightarrow> u64 list" where
  "sent_ids s = map message_id (wire_envelopes s)"

definition exhausted :: "session_sender \<Rightarrow> bool" where
  "exhausted s \<longleftrightarrow> checked_add (ss_next_message_id s) 1 = None"

lemma not_exhausted_next:
  "\<not> exhausted s \<longleftrightarrow> checked_add (ss_next_message_id s) 1 = Some (ss_next_message_id s + 1)"
  by (auto simp: exhausted_def checked_add_def)

lemma send_with_eq:
  "send_with consumed reply trace payload s =
     (if exhausted s then (Inl (Protocol ''plugin exhausted message IDs''), s)
      else if ss_closed s
      then (Inl (Transport ''plugin output stream closed''),
            s\<lparr>ss_next_message_id := ss_next_message_id s + 1\<rparr>)
      else (Inr (ss_next_message_id s),
            s\<lparr>ss_next_message_id := ss_next_message_id s + 1,
              ss_wire := ss_wire s @
                [\<lparr>oe_envelope = seal_envelope (ss_identity s) (ss_next_message_id s) reply trace payload,
                  oe_consumed = consumed\<rparr>]\<rparr>))"
  by (auto simp: send_with_def enqueue_def reserve_def Let_def exhausted_def checked_add_def)

lemmas send_eq = send_def send_with_eq

text \<open>What one call of the sender may do to it.\<close>

definition extends :: "session_sender \<Rightarrow> session_sender \<Rightarrow> bool" where
  "extends s t \<longleftrightarrow>
     ss_identity t = ss_identity s \<and> ss_closed t = ss_closed s \<and>
     ss_next_message_id s \<le> ss_next_message_id t \<and>
     (\<exists>es. ss_wire t = ss_wire s @ es)"

lemma extends_refl [simp, intro]: "extends s s"
  by (simp add: extends_def)

lemma extends_trans: "extends s t \<Longrightarrow> extends t u \<Longrightarrow> extends s u"
  by (auto simp: extends_def)

definition sender_inv :: "session_sender \<Rightarrow> bool" where
  "sender_inv s \<longleftrightarrow>
     0 < ss_next_message_id s \<and>
     sorted_wrt (<) (sent_ids s) \<and>
     (\<forall>i \<in> set (sent_ids s). 0 < i \<and> i < ss_next_message_id s) \<and>
     (\<forall>e \<in> set (wire_envelopes s).
        env_session_id e = si_session_id (ss_identity s) \<and>
        env_plugin_instance_id e = si_instance_id (ss_identity s) \<and>
        env_trace e \<noteq> None \<and> env_payload e \<noteq> None)"

lemma new_sender_inv: "sender_inv (new_sender identity)"
  by (simp add: sender_inv_def new_sender_def sent_ids_def wire_envelopes_def)

lemma not_exhausted_less: "\<not> exhausted s \<Longrightarrow> ss_next_message_id s < ss_next_message_id s + 1"
  by (simp add: not_exhausted_next checked_add_one_less)

lemma reserve_cases:
  assumes "reserve register (s, r) = (result, (s', r'))"
  obtains (no_ids) "result = Inl (Protocol ''plugin exhausted message IDs'')" "s' = s" "r' = r"
      "exhausted s"
    | (unregistered) e where "result = Inl e" "\<not> exhausted s"
      "register (ss_next_message_id s) r = Inl e" "r' = r"
      "s' = s\<lparr>ss_next_message_id := ss_next_message_id s + 1\<rparr>"
    | (reserved) t where "result = Inr (ss_next_message_id s, t)" "\<not> exhausted s"
      "register (ss_next_message_id s) r = Inr (t, r')"
      "s' = s\<lparr>ss_next_message_id := ss_next_message_id s + 1\<rparr>"
proof (cases "exhausted s")
  case True
  with assms no_ids show ?thesis by (auto simp: reserve_def exhausted_def)
next
  case False
  note next_id = this [unfolded not_exhausted_next]
  show ?thesis
  proof (cases "register (ss_next_message_id s) r")
    case (Inl e)
    with assms next_id False show ?thesis by (intro unregistered) (auto simp: reserve_def Let_def)
  next
    case (Inr tr)
    then show ?thesis
      using assms next_id False reserved by (cases tr) (auto simp: reserve_def Let_def)
  qed
qed

lemma enqueue_cases:
  assumes "enqueue reply trace payload consumed register release (s, r) = (result, (s', r'))"
  obtains (no_ids) "result = Inl (Protocol ''plugin exhausted message IDs'')" "s' = s" "r' = r"
      "exhausted s"
    | (unregistered) e where "result = Inl e" "\<not> exhausted s"
      "register (ss_next_message_id s) r = Inl e" "r' = r"
      "s' = s\<lparr>ss_next_message_id := ss_next_message_id s + 1\<rparr>"
    | (closed) t r1 where "result = Inl (Transport ''plugin output stream closed'')"
      "\<not> exhausted s" "ss_closed s" "register (ss_next_message_id s) r = Inr (t, r1)"
      "r' = release t r1" "s' = s\<lparr>ss_next_message_id := ss_next_message_id s + 1\<rparr>"
    | (queued) t where "result = Inr (ss_next_message_id s, t)"
      "\<not> exhausted s" "\<not> ss_closed s" "register (ss_next_message_id s) r = Inr (t, r')"
      "s' = s\<lparr>ss_next_message_id := ss_next_message_id s + 1,
              ss_wire := ss_wire s @
                [\<lparr>oe_envelope = seal_envelope (ss_identity s) (ss_next_message_id s) reply trace payload,
                  oe_consumed = consumed\<rparr>]\<rparr>"
proof -
  obtain result1 s1 r1 where res: "reserve register (s, r) = (result1, (s1, r1))"
    by (cases "reserve register (s, r)") auto
  note assms = assms [unfolded enqueue_def res]
  from res show ?thesis
  proof (cases rule: reserve_cases)
    case no_ids
    then show ?thesis by (intro that(1)) (use assms in simp_all)
  next
    case (unregistered e)
    then show ?thesis by (intro that(2)) (use assms in simp_all)
  next
    case (reserved t)
    note eq = assms [unfolded reserved(1) st_and_then_simps prod.case]
    show ?thesis
    proof (cases "ss_closed s")
      case True
      then show ?thesis by (intro that(3) [of t r1]) (use eq reserved in simp_all)
    next
      case False
      then show ?thesis by (intro that(4) [of t]) (use eq reserved in simp_all)
    qed
  qed
qed

lemma abandon_enqueue_cases:
  assumes "abandon_enqueue register release (s, r) = (result, (s', r'))"
  obtains (unchanged) "s' = s" "r' = r"
    | (unregistered) "s' = s\<lparr>ss_next_message_id := ss_next_message_id s + 1\<rparr>" "\<not> exhausted s"
        "r' = r"
    | (released) t r1 where "s' = s\<lparr>ss_next_message_id := ss_next_message_id s + 1\<rparr>"
        "\<not> exhausted s" "register (ss_next_message_id s) r = Inr (t, r1)" "r' = release t r1"
proof -
  obtain result1 s1 r1 where res: "reserve register (s, r) = (result1, (s1, r1))"
    by (cases "reserve register (s, r)") auto
  note assms = assms [unfolded abandon_enqueue_def res]
  from res show ?thesis
  proof (cases rule: reserve_cases)
    case no_ids
    then show ?thesis by (intro unchanged) (use assms in simp_all)
  next
    case (unregistered e)
    then show ?thesis by (intro that(2)) (use assms in simp_all)
  next
    case (reserved t)
    note eq = assms [unfolded reserved(1) st_and_then_simps prod.case]
    show ?thesis by (rule that(3) [of t r1]) (use eq reserved in simp_all)
  qed
qed

lemma skip_id_extends:
  "\<not> exhausted s \<Longrightarrow> extends s (s\<lparr>ss_next_message_id := ss_next_message_id s + 1\<rparr>)"
  by (auto simp: extends_def dest: not_exhausted_less intro: less_imp_le)

lemma enqueue_extends:
  assumes "enqueue reply trace payload consumed register release (s, r) = (result, (s', r'))"
  shows "extends s s'"
  using assms
  by (cases rule: enqueue_cases)
    (auto simp: extends_def dest: not_exhausted_less intro: less_imp_le)

lemma next_id_grows:
  assumes "\<not> exhausted s" and "sender_inv s"
  shows "0 < ss_next_message_id s + 1"
    and "i < ss_next_message_id s \<Longrightarrow> i < ss_next_message_id s + 1"
  using not_exhausted_less [OF assms(1)] assms(2)
  by (auto simp: sender_inv_def intro: le_less_trans)

lemma skip_id_inv:
  "\<not> exhausted s \<Longrightarrow> sender_inv s \<Longrightarrow>
     sender_inv (s\<lparr>ss_next_message_id := ss_next_message_id s + 1\<rparr>)"
  using next_id_grows [of s] by (auto simp: sender_inv_def sent_ids_def wire_envelopes_def)

lemma enqueue_inv:
  assumes "enqueue reply trace payload consumed register release (s, r) = (result, (s', r'))"
    and "sender_inv s"
  shows "sender_inv s'"
  using assms(1)
proof (cases rule: enqueue_cases)
  case queued
  with assms(2) next_id_grows [of s] not_exhausted_less [of s] show ?thesis
    by (auto simp: sender_inv_def sent_ids_def wire_envelopes_def seal_envelope_def
        sorted_wrt_append)
qed (use assms(2) skip_id_inv in auto)

lemma abandon_enqueue_keeps:
  assumes "abandon_enqueue register release (s, r) = (result, (s', r'))"
  shows "extends s s'" and "sender_inv s \<Longrightarrow> sender_inv s'" and "ss_wire s' = ss_wire s"
  using assms by (cases rule: abandon_enqueue_cases; simp add: skip_id_extends skip_id_inv)+

section \<open>The interface of an ordered output\<close>

text \<open>
  What the components that send rely on: a send that succeeds appends one message, with the
  ID it returns, at the end of the output; a send that fails appends nothing; the state
  invariant is kept either way.
\<close>

locale ordered_output =
  fixes post :: "'m \<Rightarrow> 's \<Rightarrow> u64 sdk_result \<times> 's"
    and emitted :: "'s \<Rightarrow> plugin_envelope list"
    and render :: "'s \<Rightarrow> u64 \<Rightarrow> 'm \<Rightarrow> plugin_envelope"
    and ok :: "'s \<Rightarrow> bool"
    and same_session :: "'s \<Rightarrow> 's \<Rightarrow> bool"
  assumes post_ok: "post m s = (Inr mid, t) \<Longrightarrow> emitted t = emitted s @ [render s mid m]"
    and post_error: "post m s = (Inl e, t) \<Longrightarrow> emitted t = emitted s"
    and post_keeps: "ok s \<Longrightarrow> ok (snd (post m s))"
    and post_session: "same_session s (snd (post m s))"
    and session_refl: "same_session s s"
    and session_trans: "same_session s t \<Longrightarrow> same_session t u \<Longrightarrow> same_session s u"
    and render_message: "message_id (render s mid m) = mid"
    and render_session: "same_session s t \<Longrightarrow> render t mid m = render s mid m"
    and ok_ids: "ok s \<Longrightarrow> sorted_wrt (<) (map message_id (emitted s))"
begin

lemma try_each_keeps: "ok s \<Longrightarrow> ok (snd (try_each post ms s))"
  by (rule try_each_rel [where R = "\<lambda>s t. ok s \<longrightarrow> ok t", rule_format])
    (auto intro: post_keeps)

lemma try_each_session: "same_session s (snd (try_each post ms s))"
  by (rule try_each_rel) (auto intro: post_session session_refl session_trans)

text \<open>The output of a loop of sends: all of the messages, in order, or a prefix of them.\<close>

lemma try_each_output:
  assumes "try_each post ms s = (r, t)"
  shows "\<exists>ids. length ids \<le> length ms \<and> (r = Inr () \<longrightarrow> length ids = length ms) \<and>
    emitted t = emitted s @ map2 (render s) ids (take (length ids) ms)"
  using assms
proof (induction ms arbitrary: s)
  case Nil
  then show ?case by simp
next
  case (Cons m ms)
  show ?case
  proof (cases "post m s")
    case (Pair q u)
    show ?thesis
    proof (cases q)
      case (Inl e)
      with Cons.prems Pair have "r = Inl e" "t = u" by auto
      with post_error Pair Inl show ?thesis by (intro exI [of _ "[]"]) auto
    next
      case (Inr mid)
      with Cons.prems Pair have "try_each post ms u = (r, t)" by simp
      from Cons.IH [OF this] obtain ids where ids: "length ids \<le> length ms"
        "r = Inr () \<longrightarrow> length ids = length ms"
        "emitted t = emitted u @ map2 (render u) ids (take (length ids) ms)" by blast
      have "same_session s u" using post_session [of s m] Pair by simp
      then have "render u = render s" using render_session by blast
      with ids post_ok [of m s mid u] Pair Inr show ?thesis
        by (intro exI [of _ "mid # ids"]) auto
    qed
  qed
qed

lemma try_each_ids: "ok s \<Longrightarrow> sorted_wrt (<) (map message_id (emitted (snd (try_each post ms s))))"
  by (intro ok_ids try_each_keeps)

end

text \<open>A message as its sender hands it over: whom it answers, its trace, its payload.\<close>

type_synonym outgoing = "u64 option \<times> trace_context \<times> payload"

definition post_outgoing :: "outgoing \<Rightarrow> session_sender \<Rightarrow> u64 sdk_result \<times> session_sender" where
  "post_outgoing m s = (case m of (reply, trace, payload) \<Rightarrow> send reply trace payload s)"

definition render_outgoing :: "session_sender \<Rightarrow> u64 \<Rightarrow> outgoing \<Rightarrow> plugin_envelope" where
  "render_outgoing s mid m =
     (case m of (reply, trace, payload) \<Rightarrow> seal_envelope (ss_identity s) mid reply trace payload)"

lemma send_as_enqueue:
  assumes "send reply trace payload s = (result, t)"
  shows "\<exists>res. enqueue reply trace payload None (\<lambda>_ r. Inr ((), r)) (\<lambda>_ r. r) (s, ()) = (res, (t, ()))"
  using assms
  by (cases "enqueue reply trace payload None (\<lambda>_ r. Inr ((), r)) (\<lambda>_ r. r) (s, ())")
    (auto simp: send_def send_with_def)

lemma send_inv: "sender_inv s \<Longrightarrow> sender_inv (snd (send reply trace payload s))"
  using send_as_enqueue enqueue_inv by (metis prod.collapse)

lemma send_extends: "extends s (snd (send reply trace payload s))"
  using send_as_enqueue enqueue_extends by (metis prod.collapse)

interpretation sender: ordered_output post_outgoing wire_envelopes render_outgoing sender_inv extends
proof unfold_locales
  fix m :: outgoing and s t u mid e
  show "post_outgoing m s = (Inr mid, t) \<Longrightarrow>
      wire_envelopes t = wire_envelopes s @ [render_outgoing s mid m]"
    by (cases m)
      (auto simp: post_outgoing_def send_eq wire_envelopes_def render_outgoing_def split: if_splits)
  show "post_outgoing m s = (Inl e, t) \<Longrightarrow> wire_envelopes t = wire_envelopes s"
    by (cases m) (auto simp: post_outgoing_def send_eq wire_envelopes_def split: if_splits)
  show "sender_inv s \<Longrightarrow> sender_inv (snd (post_outgoing m s))"
    by (cases m) (auto simp: post_outgoing_def intro: send_inv)
  show "extends s (snd (post_outgoing m s))"
    by (cases m) (auto simp: post_outgoing_def intro: send_extends)
  show "extends s s" by simp
  show "extends s t \<Longrightarrow> extends t u \<Longrightarrow> extends s u" by (rule extends_trans)
  show "message_id (render_outgoing s mid m) = mid"
    by (cases m) (simp add: render_outgoing_def seal_envelope_def)
  show "extends s t \<Longrightarrow> render_outgoing t mid m = render_outgoing s mid m"
    by (cases m) (simp add: render_outgoing_def extends_def)
  show "sender_inv s \<Longrightarrow> sorted_wrt (<) (map message_id (wire_envelopes s))"
    by (simp add: sender_inv_def sent_ids_def)
qed

end
