(* ===== verification/Hash_Map.thy ===== *)
theory Hash_Map
  imports Prelude "HOL-Library.AList" "HOL-Library.Multiset"
begin

text \<open>
  \<open>std::collections::HashMap\<close>. A map is the list of its entries, no key twice; the order
  of the list carries no meaning, because the iteration order of a \<open>HashMap\<close> is not
  specified. An operation that walks over a map takes the order as a parameter: a
  function \<open>iter\<close> with \<open>hash_order iter\<close>, which permutes the entries.
  The interface \<open>keyed_map\<close> is what the clients of a map rely on; their lemmas are proved
  against it and hold for the entry lists by interpretation.
\<close>

type_synonym ('k, 'v) hash_map = "('k \<times> 'v) list"

definition hm_empty :: "('k, 'v) hash_map" where
  "hm_empty = []"

definition hm_get :: "('k, 'v) hash_map \<Rightarrow> 'k \<Rightarrow> 'v option" where
  "hm_get m k = map_of m k"

definition hm_contains_key :: "('k, 'v) hash_map \<Rightarrow> 'k \<Rightarrow> bool" where
  "hm_contains_key m k \<longleftrightarrow> hm_get m k \<noteq> None"

definition hm_insert :: "'k \<Rightarrow> 'v \<Rightarrow> ('k, 'v) hash_map \<Rightarrow> ('k, 'v) hash_map" where
  "hm_insert k v m = AList.update k v m"

definition hm_remove :: "'k \<Rightarrow> ('k, 'v) hash_map \<Rightarrow> ('k, 'v) hash_map" where
  "hm_remove k m = AList.delete k m"

definition hm_len :: "('k, 'v) hash_map \<Rightarrow> nat" where
  "hm_len m = length m"

definition hm_wf :: "('k, 'v) hash_map \<Rightarrow> bool" where
  "hm_wf m \<longleftrightarrow> distinct (map fst m)"

definition hash_order :: "(('k, 'v) hash_map \<Rightarrow> ('k \<times> 'v) list) \<Rightarrow> bool" where
  "hash_order iter \<longleftrightarrow> (\<forall>m. mset (iter m) = mset m)"

section \<open>The interface\<close>

locale keyed_map =
  fixes get :: "'m \<Rightarrow> 'k \<Rightarrow> 'v option"
    and insert :: "'k \<Rightarrow> 'v \<Rightarrow> 'm \<Rightarrow> 'm"
    and remove :: "'k \<Rightarrow> 'm \<Rightarrow> 'm"
    and len :: "'m \<Rightarrow> nat"
    and empty :: 'm
    and wf :: "'m \<Rightarrow> bool"
  assumes get_empty: "get empty = Map.empty"
    and get_insert: "get (insert k v m) = (get m)(k \<mapsto> v)"
    and get_remove: "get (remove k m) = (get m)(k := None)"
    and wf_empty: "wf empty"
    and wf_insert: "wf m \<Longrightarrow> wf (insert k v m)"
    and wf_remove: "wf m \<Longrightarrow> wf (remove k m)"
    and len_card: "wf m \<Longrightarrow> len m = card (dom (get m))"
    and finite_dom: "finite (dom (get m))"
begin

lemma len_empty: "len empty = 0"
  using len_card [OF wf_empty] by (simp add: get_empty)

lemma len_insert_fresh: "wf m \<Longrightarrow> get m k = None \<Longrightarrow> len (insert k v m) = Suc (len m)"
  using finite_dom [of m] by (simp add: len_card wf_insert get_insert domIff)

lemma len_insert_present: "wf m \<Longrightarrow> get m k \<noteq> None \<Longrightarrow> len (insert k v m) = len m"
  by (simp add: len_card wf_insert get_insert insert_absorb domIff)

lemma len_remove_present: "wf m \<Longrightarrow> get m k \<noteq> None \<Longrightarrow> Suc (len (remove k m)) = len m"
proof -
  assume "wf m" and "get m k \<noteq> None"
  then have "k \<in> dom (get m)" and "0 < card (dom (get m))"
    using finite_dom [of m] by (auto simp: card_gt_0_iff)
  with \<open>wf m\<close> show ?thesis
    by (simp add: len_card wf_remove get_remove)
qed

lemma len_zero_iff: "wf m \<Longrightarrow> len m = 0 \<longleftrightarrow> get m = Map.empty"
  using finite_dom [of m] by (simp add: len_card)

text \<open>An entry whose key is fresh disappears without a trace when it is removed.\<close>

lemma get_remove_insert_fresh: "get m k = None \<Longrightarrow> get (remove k (insert k v m)) = get m"
  by (auto simp: get_insert get_remove)

lemmas map_laws = get_empty get_insert get_remove wf_empty wf_insert wf_remove

end

interpretation hm: keyed_map hm_get hm_insert hm_remove hm_len hm_empty hm_wf
proof unfold_locales
  fix m :: "('k, 'v) hash_map" and k :: 'k and v :: 'v
  show "hm_get hm_empty = (Map.empty :: 'k \<rightharpoonup> 'v)"
    by (simp add: hm_get_def [abs_def] hm_empty_def)
  show "hm_get (hm_insert k v m) = (hm_get m)(k \<mapsto> v)"
    by (simp add: hm_get_def [abs_def] hm_insert_def update_conv')
  show "hm_get (hm_remove k m) = (hm_get m)(k := None)"
    by (simp add: hm_get_def [abs_def] hm_remove_def delete_conv')
  show "hm_wf (hm_empty :: ('k, 'v) hash_map)"
    by (simp add: hm_wf_def hm_empty_def)
  show "hm_wf m \<Longrightarrow> hm_wf (hm_insert k v m)"
    by (simp add: hm_wf_def hm_insert_def distinct_update)
  show "hm_wf m \<Longrightarrow> hm_wf (hm_remove k m)"
    by (simp add: hm_wf_def hm_remove_def distinct_delete)
  show "hm_wf m \<Longrightarrow> hm_len m = card (dom (hm_get m))"
    by (simp add: hm_wf_def hm_len_def hm_get_def [abs_def] dom_map_of_conv_image_fst
        card_image distinct_map distinct_card flip: set_map)
  show "finite (dom (hm_get m))"
    by (simp add: hm_get_def [abs_def] finite_dom_map_of)
qed

section \<open>Entries\<close>

lemma hm_get_mem: "hm_wf m \<Longrightarrow> (k, v) \<in> set m \<longleftrightarrow> hm_get m k = Some v"
  by (auto simp: hm_wf_def hm_get_def map_of_is_SomeI dest: map_of_SomeD)

lemma hm_get_None_iff: "hm_get m k = None \<longleftrightarrow> k \<notin> fst ` set m"
  by (simp add: hm_get_def map_of_eq_None_iff)

lemma hm_contains_key_iff: "hm_contains_key m k \<longleftrightarrow> k \<in> dom (hm_get m)"
  by (auto simp: hm_contains_key_def)

lemma hash_order_set: "hash_order iter \<Longrightarrow> set (iter m) = set m"
  by (metis hash_order_def set_mset_mset)

lemma hash_order_mset: "hash_order iter \<Longrightarrow> mset (iter m) = mset m"
  by (simp add: hash_order_def)

lemma hash_order_id: "hash_order (\<lambda>m. m)" and hash_order_rev: "hash_order rev"
  by (simp_all add: hash_order_def)

end
