(* ===== verification/Values.thy ===== *)
theory Values
  imports Errors
begin

text \<open>
  \<open>src/runtime/value.rs\<close>: the recursive validator of \<open>ConfigValue\<close> trees, which every
  structured result, log field and configuration-function argument passes through.
  The specification is a table of nodes: \<open>nodes\<close> lists every node of a tree with its
  depth, and \<open>node_ok\<close> says what one node must satisfy on its own.
\<close>

section \<open>Limits\<close>

definition MAXIMUM_VALUE_DEPTH :: nat where
  "MAXIMUM_VALUE_DEPTH = 33"

definition PROTOBUF_TIMESTAMP_MIN_SECONDS :: int where
  "PROTOBUF_TIMESTAMP_MIN_SECONDS = - 62135596800"

definition PROTOBUF_TIMESTAMP_MAX_SECONDS :: int where
  "PROTOBUF_TIMESTAMP_MAX_SECONDS = 253402300799"

definition PROTOBUF_DURATION_MAX_SECONDS :: int where
  "PROTOBUF_DURATION_MAX_SECONDS = 315576000000"

definition PROTOBUF_MAX_NANOSECONDS :: int where
  "PROTOBUF_MAX_NANOSECONDS = 999999999"

lemmas value_limits = MAXIMUM_VALUE_DEPTH_def PROTOBUF_TIMESTAMP_MIN_SECONDS_def
  PROTOBUF_TIMESTAMP_MAX_SECONDS_def PROTOBUF_DURATION_MAX_SECONDS_def
  PROTOBUF_MAX_NANOSECONDS_def

section \<open>Well-known types\<close>

definition valid_timestamp :: "timestamp \<Rightarrow> bool" where
  "valid_timestamp value \<longleftrightarrow>
     (PROTOBUF_TIMESTAMP_MIN_SECONDS \<le> sint (ts_seconds value) \<and>
      sint (ts_seconds value) \<le> PROTOBUF_TIMESTAMP_MAX_SECONDS) \<and>
     (0 \<le> sint (ts_nanos value) \<and> sint (ts_nanos value) \<le> PROTOBUF_MAX_NANOSECONDS)"

definition valid_duration :: "duration \<Rightarrow> bool" where
  "valid_duration value \<longleftrightarrow>
     (- PROTOBUF_DURATION_MAX_SECONDS \<le> sint (dur_seconds value) \<and>
      sint (dur_seconds value) \<le> PROTOBUF_DURATION_MAX_SECONDS) \<and>
     (- PROTOBUF_MAX_NANOSECONDS \<le> sint (dur_nanos value) \<and>
      sint (dur_nanos value) \<le> PROTOBUF_MAX_NANOSECONDS) \<and>
     \<not> (sint (dur_seconds value) > 0 \<and> sint (dur_nanos value) < 0) \<and>
     \<not> (sint (dur_seconds value) < 0 \<and> sint (dur_nanos value) > 0)"

text \<open>
  \<open>f64::is_finite\<close> on the bits of an IEEE 754 double: the eleven exponent bits are not
  all ones.
\<close>

definition is_finite :: "f64_bits \<Rightarrow> bool" where
  "is_finite x \<longleftrightarrow> take_bit 11 (drop_bit 52 x) \<noteq> 2047"

section \<open>The validator\<close>

definition invalid :: "string \<Rightarrow> sdk_error" where
  "invalid message = InvalidArgument message"

definition validate_function ::
  "config_function_ref \<Rightarrow> string option \<Rightarrow> unit sdk_result" where
  "validate_function f function_session =
     (case function_session of
        Some session_id \<Rightarrow>
          if fn_session_id f = session_id \<and> fn_function_id f \<noteq> [] then Inr ()
          else if fn_session_id f \<noteq> session_id
          then Inl (Protocol ''configuration function belongs to another plugin session'')
          else Inl (invalid ''configuration function ID must not be empty'')
      | None \<Rightarrow>
          Inl (invalid ''session-scoped configuration functions cannot be stored or logged''))"

text \<open>The two loops over the children of a list and of a map are functions of their own.\<close>

fun validate :: "config_value \<Rightarrow> nat \<Rightarrow> string option \<Rightarrow> unit sdk_result"
  and validate_list :: "config_value list \<Rightarrow> nat \<Rightarrow> string option \<Rightarrow> unit sdk_result"
  and validate_entries ::
    "(string \<times> config_value) list \<Rightarrow> nat \<Rightarrow> string option \<Rightarrow> unit sdk_result"
where
  "validate (ConfigValue kind) depth fs =
     (if depth > MAXIMUM_VALUE_DEPTH
      then Inl (invalid ''ConfigValue nesting exceeds the supported limit'')
      else case kind of
        Some (NullValue n) \<Rightarrow>
          if n = 0 then Inr () else Inl (invalid ''ConfigValue contains an unknown null value'')
      | Some (BoolValue _) \<Rightarrow> Inr ()
      | Some (IntegerValue _) \<Rightarrow> Inr ()
      | Some (StringValue _) \<Rightarrow> Inr ()
      | Some (BytesValue _) \<Rightarrow> Inr ()
      | Some (NumberValue x) \<Rightarrow>
          if is_finite x then Inr () else Inl (invalid ''ConfigValue numbers must be finite'')
      | Some (ListValue values) \<Rightarrow> validate_list values (depth + 1) fs
      | Some (MapValue entries) \<Rightarrow> validate_entries entries (depth + 1) fs
      | Some (FunctionValue f) \<Rightarrow> validate_function f fs
      | Some (TimestampValue t) \<Rightarrow>
          if valid_timestamp t then Inr ()
          else Inl (invalid ''ConfigValue timestamp is outside the protobuf Timestamp domain'')
      | Some (DurationValue t) \<Rightarrow>
          if valid_duration t then Inr ()
          else Inl (invalid ''ConfigValue duration is outside the protobuf Duration domain'')
      | None \<Rightarrow> Inl (invalid ''ConfigValue kind is required''))"
| "validate_list [] depth fs = Inr ()"
| "validate_list (v # vs) depth fs =
     and_then (validate v depth fs) (\<lambda>_. validate_list vs depth fs)"
| "validate_entries [] depth fs = Inr ()"
| "validate_entries ((k, v) # es) depth fs =
     and_then (validate v depth fs) (\<lambda>_. validate_entries es depth fs)"

definition validate_serializable :: "config_value \<Rightarrow> unit sdk_result" where
  "validate_serializable value = validate value 0 None"

definition validate_session_values :: "config_value list \<Rightarrow> string \<Rightarrow> unit sdk_result" where
  "validate_session_values values session_id = validate_list values 0 (Some session_id)"

section \<open>Specification\<close>

fun nodes :: "nat \<Rightarrow> config_value \<Rightarrow> (nat \<times> config_value) list"
  and nodes_list :: "nat \<Rightarrow> config_value list \<Rightarrow> (nat \<times> config_value) list"
  and nodes_entries :: "nat \<Rightarrow> (string \<times> config_value) list \<Rightarrow> (nat \<times> config_value) list"
where
  "nodes d (ConfigValue kind) =
     (d, ConfigValue kind) #
     (case kind of
        Some (ListValue values) \<Rightarrow> nodes_list (Suc d) values
      | Some (MapValue entries) \<Rightarrow> nodes_entries (Suc d) entries
      | _ \<Rightarrow> [])"
| "nodes_list d [] = []"
| "nodes_list d (v # vs) = nodes d v @ nodes_list d vs"
| "nodes_entries d [] = []"
| "nodes_entries d ((k, v) # es) = nodes d v @ nodes_entries d es"

definition function_ok :: "string option \<Rightarrow> config_function_ref \<Rightarrow> bool" where
  "function_ok fs f \<longleftrightarrow> fs = Some (fn_session_id f) \<and> fn_function_id f \<noteq> []"

fun node_ok :: "string option \<Rightarrow> config_value \<Rightarrow> bool" where
  "node_ok fs (ConfigValue None) = False"
| "node_ok fs (ConfigValue (Some (NullValue n))) = (n = 0)"
| "node_ok fs (ConfigValue (Some (NumberValue x))) = is_finite x"
| "node_ok fs (ConfigValue (Some (FunctionValue f))) = function_ok fs f"
| "node_ok fs (ConfigValue (Some (TimestampValue t))) = valid_timestamp t"
| "node_ok fs (ConfigValue (Some (DurationValue t))) = valid_duration t"
| "node_ok fs (ConfigValue (Some _)) = True"

definition well_formed_value :: "string option \<Rightarrow> nat \<Rightarrow> config_value \<Rightarrow> bool" where
  "well_formed_value fs d v \<longleftrightarrow>
     (\<forall>(n, u) \<in> set (nodes d v). n \<le> MAXIMUM_VALUE_DEPTH \<and> node_ok fs u)"

text \<open>The height of a tree: a leaf has height zero.\<close>

fun height :: "config_value \<Rightarrow> nat"
  and height_list :: "config_value list \<Rightarrow> nat"
  and height_entries :: "(string \<times> config_value) list \<Rightarrow> nat"
where
  "height (ConfigValue kind) =
     (case kind of
        Some (ListValue values) \<Rightarrow> height_list values
      | Some (MapValue entries) \<Rightarrow> height_entries entries
      | _ \<Rightarrow> 0)"
| "height_list [] = 0"
| "height_list (v # vs) = max (Suc (height v)) (height_list vs)"
| "height_entries [] = 0"
| "height_entries ((k, v) # es) = max (Suc (height v)) (height_entries es)"

section \<open>The validator decides the specification\<close>

lemma validate_function_ok_iff: "validate_function f fs = Inr () \<longleftrightarrow> function_ok fs f"
  by (auto simp: validate_function_def function_ok_def split: option.splits)

lemma validate_nodes:
  "validate v d fs = Inr () \<longleftrightarrow>
     (\<forall>(n, u) \<in> set (nodes d v). n \<le> MAXIMUM_VALUE_DEPTH \<and> node_ok fs u)"
  "validate_list vs d fs = Inr () \<longleftrightarrow>
     (\<forall>(n, u) \<in> set (nodes_list d vs). n \<le> MAXIMUM_VALUE_DEPTH \<and> node_ok fs u)"
  "validate_entries es d fs = Inr () \<longleftrightarrow>
     (\<forall>(n, u) \<in> set (nodes_entries d es). n \<le> MAXIMUM_VALUE_DEPTH \<and> node_ok fs u)"
proof (induction v d fs and vs d fs and es d fs
    rule: validate_validate_list_validate_entries.induct)
  case (1 kind d fs)
  show ?case
  proof (cases kind)
    case None
    then show ?thesis by simp
  next
    case (Some k)
    with 1 show ?thesis
      by (cases k) (auto simp: validate_function_ok_iff)
  qed
qed (auto simp: and_then_Inr_iff ball_Un)

lemma validate_ok_iff: "validate v d fs = Inr () \<longleftrightarrow> well_formed_value fs d v"
  unfolding well_formed_value_def by (rule validate_nodes(1))

lemma validate_list_ok_iff:
  "validate_list vs d fs = Inr () \<longleftrightarrow> (\<forall>v \<in> set vs. validate v d fs = Inr ())"
  by (induction vs) (auto simp: and_then_Inr_iff)

lemma validate_entries_ok_iff:
  "validate_entries es d fs = Inr () \<longleftrightarrow> (\<forall>(k, v) \<in> set es. validate v d fs = Inr ())"
  by (induction es) (auto simp: and_then_Inr_iff)

lemma validate_session_values_ok_iff:
  "validate_session_values vs s = Inr () \<longleftrightarrow>
     (\<forall>v \<in> set vs. well_formed_value (Some s) 0 v)"
  by (simp add: validate_session_values_def validate_list_ok_iff validate_ok_iff)

section \<open>Consequences\<close>

lemma node_ok_None_imp: "node_ok None u \<Longrightarrow> node_ok fs u"
  by (cases "(fs, u)" rule: node_ok.cases) (auto simp: function_ok_def)

lemma nodes_root: "(d, v) \<in> set (nodes d v)"
  by (cases v) simp

text \<open>A node of a tree carries its whole subtree with it.\<close>

lemma nodes_trans:
  "(n, u) \<in> set (nodes d v) \<Longrightarrow> set (nodes n u) \<subseteq> set (nodes d v)"
  "(n, u) \<in> set (nodes_list d vs) \<Longrightarrow> set (nodes n u) \<subseteq> set (nodes_list d vs)"
  "(n, u) \<in> set (nodes_entries d es) \<Longrightarrow> set (nodes n u) \<subseteq> set (nodes_entries d es)"
proof (induction d v and d vs and d es rule: nodes_nodes_list_nodes_entries.induct)
  case (1 d kind)
  show ?case
  proof (cases "(n, u) = (d, ConfigValue kind)")
    case True
    then show ?thesis by simp
  next
    case False
    show ?thesis
    proof (cases kind)
      case None
      with False 1 show ?thesis by simp
    next
      case (Some k)
      have sub: "set (nodes d (ConfigValue kind)) =
          insert (d, ConfigValue kind)
            (case k of ListValue vs \<Rightarrow> set (nodes_list (Suc d) vs)
             | MapValue es \<Rightarrow> set (nodes_entries (Suc d) es) | _ \<Rightarrow> {})"
        using Some by (cases k) simp_all
      show ?thesis
        unfolding sub using False "1.prems" "1.IH" Some
        by (cases k) (simp_all, blast+)
    qed
  qed
next
  case (3 d v vs)
  then show ?case by (metis Un_iff le_supI1 le_supI2 nodes_list.simps(2) set_append)
next
  case (5 d k v es)
  then show ?case by (metis Un_iff le_supI1 le_supI2 nodes_entries.simps(2) set_append)
qed simp_all

lemma well_formed_subvalue:
  "well_formed_value fs d v \<Longrightarrow> (n, u) \<in> set (nodes d v) \<Longrightarrow> well_formed_value fs n u"
  using nodes_trans(1) unfolding well_formed_value_def by blast

lemma nodes_shift:
  "nodes (d + k) v = map (apfst (\<lambda>n. n + k)) (nodes d v)"
  "nodes_list (d + k) vs = map (apfst (\<lambda>n. n + k)) (nodes_list d vs)"
  "nodes_entries (d + k) es = map (apfst (\<lambda>n. n + k)) (nodes_entries d es)"
  by (induction d v and d vs and d es rule: nodes_nodes_list_nodes_entries.induct)
    (auto split: option.splits config_kind.splits)

lemma well_formed_shallower:
  assumes "well_formed_value fs (d + k) v"
  shows "well_formed_value fs d v"
  using assms by (force simp: well_formed_value_def nodes_shift(1))

text \<open>The depth bound on the nodes is the height bound of the tree.\<close>

lemma max_depth_height:
  "(\<forall>(n, u) \<in> set (nodes d v). n \<le> m) \<longleftrightarrow> d + height v \<le> m"
  "(\<forall>(n, u) \<in> set (nodes_list (Suc d) vs). n \<le> m) \<and> d \<le> m \<longleftrightarrow> d + height_list vs \<le> m"
  "(\<forall>(n, u) \<in> set (nodes_entries (Suc d) es). n \<le> m) \<and> d \<le> m \<longleftrightarrow> d + height_entries es \<le> m"
proof (induction v and vs and es arbitrary: d and d and d
    rule: height_height_list_height_entries.induct)
  case (1 kind)
  show ?case
  proof (cases kind)
    case None
    then show ?thesis by simp
  next
    case (Some k)
    show ?thesis
    proof (cases k)
      case (ListValue vs)
      with Some "1.IH"(1) [of k vs d] show ?thesis by (simp add: conj_commute)
    next
      case (MapValue es)
      with Some "1.IH"(2) [of k es d] show ?thesis by (simp add: conj_commute)
    qed (use Some in simp_all)
  qed
next
  case (3 v vs)
  show ?case using "3"(1) [of "Suc d"] "3"(2) [of d] by (auto simp: ball_Un)
next
  case (5 k v es)
  show ?case using "5"(1) [of "Suc d"] "5"(2) [of d] by (auto simp: ball_Un)
qed auto

lemma well_formed_value_height:
  "well_formed_value fs 0 v \<longleftrightarrow>
     height v \<le> MAXIMUM_VALUE_DEPTH \<and> (\<forall>(n, u) \<in> set (nodes 0 v). node_ok fs u)"
proof -
  have "height v \<le> MAXIMUM_VALUE_DEPTH \<longleftrightarrow>
      (\<forall>(n, u) \<in> set (nodes 0 v). n \<le> MAXIMUM_VALUE_DEPTH)"
    using max_depth_height(1) [of 0 v MAXIMUM_VALUE_DEPTH] by simp
  then show ?thesis unfolding well_formed_value_def by blast
qed

end
