(* ===== verification/Std_Net.thy ===== *)
theory Std_Net
  imports Prelude
begin

text \<open>
  The parts of Rust's standard library \<open>validation::endpoint\<close> relies on:
  \<open>IpAddr::from_str\<close> as \<open>core::net::parser\<close> implements it (a parser over the remaining
  input that restores the input when it fails), \<open>IpAddr::is_loopback\<close>,
  \<open>str::eq_ignore_ascii_case\<close>, \<open>strip_prefix\<close>/\<open>strip_suffix\<close>, and \<open>str::split\<close> on a
  character, which \<open>validation::plugin_id\<close> uses.
\<close>

section \<open>Strings\<close>

definition char_code :: "char \<Rightarrow> int" where
  "char_code c = of_char c"

definition ascii_lower :: "char \<Rightarrow> char" where
  "ascii_lower c = (if 65 \<le> char_code c \<and> char_code c \<le> 90 then char_of (nat (char_code c + 32)) else c)"

definition eq_ignore_ascii_case :: "string \<Rightarrow> string \<Rightarrow> bool" where
  "eq_ignore_ascii_case s t \<longleftrightarrow> map ascii_lower s = map ascii_lower t"

definition strip_prefix_char :: "char \<Rightarrow> string \<Rightarrow> string option" where
  "strip_prefix_char c s = (case s of [] \<Rightarrow> None | x # xs \<Rightarrow> if x = c then Some xs else None)"

definition strip_suffix_char :: "char \<Rightarrow> string \<Rightarrow> string option" where
  "strip_suffix_char c s = map_option rev (strip_prefix_char c (rev s))"

fun split_on :: "char \<Rightarrow> string \<Rightarrow> string list" where
  "split_on c [] = [[]]"
| "split_on c (x # xs) =
     (if x = c then [] # split_on c xs
      else case split_on c xs of [] \<Rightarrow> [[x]] | p # ps \<Rightarrow> (x # p) # ps)"

fun join_with :: "char \<Rightarrow> string list \<Rightarrow> string" where
  "join_with c [] = []"
| "join_with c [p] = p"
| "join_with c (p # q # ps) = p @ c # join_with c (q # ps)"

lemma split_on_nonempty [simp]: "split_on c s \<noteq> []"
  by (induction s) (auto split: list.splits)

lemma join_split: "join_with c (split_on c s) = s"
proof (induction s)
  case Nil
  then show ?case by simp
next
  case (Cons x xs)
  obtain p ps where "split_on c xs = p # ps" by (cases "split_on c xs") auto
  with Cons show ?case by (cases ps) auto
qed

lemma split_on_no_separator: "p \<in> set (split_on c s) \<Longrightarrow> c \<notin> set p"
  by (induction s arbitrary: p) (fastforce split: if_splits list.splits)+

lemma set_join_with: "set (join_with c ps) \<subseteq> insert c (\<Union>p \<in> set ps. set p)"
  by (induction c ps rule: join_with.induct) auto

section \<open>Addresses\<close>

datatype ip_addr = IpV4 "int list" | IpV6 "int list"

text \<open>\<open>char::to_digit\<close>, for a radix of at most 36.\<close>

definition to_digit :: "int \<Rightarrow> char \<Rightarrow> int option" where
  "to_digit radix c =
     (let n = char_code c;
          d = (if 48 \<le> n \<and> n \<le> 57 then n - 48
               else if 97 \<le> n \<and> n \<le> 122 then n - 87
               else if 65 \<le> n \<and> n \<le> 90 then n - 55 else radix)
      in if d < radix then Some d else None)"

fun span_digits :: "int \<Rightarrow> string \<Rightarrow> int list \<times> string" where
  "span_digits radix [] = ([], [])"
| "span_digits radix (c # cs) =
     (case to_digit radix c of
        None \<Rightarrow> ([], c # cs)
      | Some d \<Rightarrow> (let (ds, rest) = span_digits radix cs in (d # ds, rest)))"

text \<open>
  \<open>Parser::read_number\<close> with a digit limit: \<open>bound\<close> is the maximum of the integer type,
  \<open>u8\<close> for an octet and \<open>u16\<close> for a group.
\<close>

definition read_number ::
  "int \<Rightarrow> nat \<Rightarrow> bool \<Rightarrow> int \<Rightarrow> string \<Rightarrow> (int \<times> string) option" where
  "read_number radix max_digits allow_zero_prefix bound s =
     (let (ds, rest) = span_digits radix s;
          has_leading_zero = (case s of c # _ \<Rightarrow> c = CHR ''0'' | [] \<Rightarrow> False);
          result = foldl (\<lambda>r d. r * radix + d) 0 ds
      in if length ds > max_digits then None
         else if ds = [] then None
         else if \<not> allow_zero_prefix \<and> has_leading_zero \<and> length ds > 1 then None
         else if result \<le> bound then Some (result, rest) else None)"

definition read_given_char :: "char \<Rightarrow> string \<Rightarrow> string option" where
  "read_given_char c s = strip_prefix_char c s"

definition read_separator ::
  "char \<Rightarrow> nat \<Rightarrow> (string \<Rightarrow> ('a \<times> string) option) \<Rightarrow> string \<Rightarrow> ('a \<times> string) option" where
  "read_separator sep index inner s =
     (if index > 0 then (case read_given_char sep s of None \<Rightarrow> None | Some s' \<Rightarrow> inner s')
      else inner s)"

fun read_octets :: "nat \<Rightarrow> nat \<Rightarrow> string \<Rightarrow> (int list \<times> string) option" where
  "read_octets 0 index s = Some ([], s)"
| "read_octets (Suc n) index s =
     (case read_separator (CHR ''.'') index (read_number 10 3 False 255) s of
        None \<Rightarrow> None
      | Some (octet, s') \<Rightarrow>
          (case read_octets n (Suc index) s' of
             None \<Rightarrow> None
           | Some (octets, rest) \<Rightarrow> Some (octet # octets, rest)))"

definition read_ipv4_addr :: "string \<Rightarrow> (int list \<times> string) option" where
  "read_ipv4_addr s = read_octets 4 0 s"

function read_groups :: "nat \<Rightarrow> nat \<Rightarrow> string \<Rightarrow> int list \<times> bool \<times> string" where
  "read_groups limit i s =
     (if limit \<le> i then ([], False, s)
      else case (if i < limit - 1 then read_separator (CHR '':'') i read_ipv4_addr s else None) of
        Some (v4, s') \<Rightarrow> ([v4 ! 0 * 256 + v4 ! 1, v4 ! 2 * 256 + v4 ! 3], True, s')
      | None \<Rightarrow>
          (case read_separator (CHR '':'') i (read_number 16 4 True 65535) s of
             None \<Rightarrow> ([], False, s)
           | Some (g, s') \<Rightarrow>
               (let (gs, v4, rest) = read_groups limit (Suc i) s' in (g # gs, v4, rest))))"
  by pat_completeness auto
termination by (relation "measure (\<lambda>(limit, i, s). limit - i)") auto

declare read_groups.simps [simp del]

definition read_ipv6_addr :: "string \<Rightarrow> (int list \<times> string) option" where
  "read_ipv6_addr s =
     (let (head, head_ipv4, rest) = read_groups 8 0 s
      in if length head = 8 then Some (head, rest)
         else if head_ipv4 then None
         else case read_given_char (CHR '':'') rest of
           None \<Rightarrow> None
         | Some rest1 \<Rightarrow>
             (case read_given_char (CHR '':'') rest1 of
                None \<Rightarrow> None
              | Some rest2 \<Rightarrow>
                  (let (tail, _, rest3) = read_groups (8 - (length head + 1)) 0 rest2
                   in Some (head @ replicate (8 - length head - length tail) 0 @ tail, rest3))))"

text \<open>\<open>parse_with\<close> demands that the whole input is consumed.\<close>

definition parse_ip_addr :: "string \<Rightarrow> ip_addr option" where
  "parse_ip_addr s =
     (case read_ipv4_addr s of
        Some (octets, rest) \<Rightarrow> if rest = [] then Some (IpV4 octets) else None
      | None \<Rightarrow>
          (case read_ipv6_addr s of
             Some (segments, rest) \<Rightarrow> if rest = [] then Some (IpV6 segments) else None
           | None \<Rightarrow> None))"

fun is_loopback :: "ip_addr \<Rightarrow> bool" where
  "is_loopback (IpV4 octets) = (octets ! 0 = 127)"
| "is_loopback (IpV6 segments) = (segments = [0, 0, 0, 0, 0, 0, 0, 1])"

section \<open>What a loopback address looks like\<close>

lemma read_octets_length: "read_octets n i s = Some (os, rest) \<Longrightarrow> length os = n"
  by (induction n arbitrary: i s os) (auto split: option.splits)

lemma span_digits_split:
  "span_digits radix s = (ds, rest) \<Longrightarrow>
     \<exists>p. s = p @ rest \<and> map (to_digit radix) p = map Some ds"
  by (induction s arbitrary: ds)
    (fastforce split: option.splits prod.splits intro: exI [where x = "_ # _"])+

lemma to_digit_10_iff:
  "to_digit 10 c = Some d \<longleftrightarrow> 0 \<le> d \<and> d < 10 \<and> char_code c = 48 + d"
  by (auto simp: to_digit_def Let_def)

lemma char_code_inject: "char_code c = char_code d \<Longrightarrow> c = d"
  by (simp add: char_code_def)

lemma to_digit_char:
  "to_digit 10 c = Some 1 \<Longrightarrow> c = CHR ''1''"
  "to_digit 10 c = Some 2 \<Longrightarrow> c = CHR ''2''"
  "to_digit 10 c = Some 7 \<Longrightarrow> c = CHR ''7''"
  by (rule char_code_inject, simp add: to_digit_10_iff, simp add: char_code_def)+

lemma digits_127:
  fixes a b c :: int
  assumes "100 * a + b * 10 + c = 127" "0 \<le> b" "b < 10" "0 \<le> c" "c < 10"
  shows "a = 1" "b = 2" "c = 7"
proof -
  show a: "a = 1" using assms by linarith
  show b: "b = 2" using assms a by linarith
  show "c = 7" using assms a b by linarith
qed

lemma read_number_octet:
  assumes "read_number 10 3 False 255 s = Some (127, rest)"
  shows "s = ''127'' @ rest"
proof -
  obtain ds where ds: "span_digits 10 s = (ds, rest)" and len: "length ds \<le> 3" "ds \<noteq> []"
    and val: "foldl (\<lambda>r d. r * 10 + d) 0 ds = 127"
    using assms by (auto simp: read_number_def Let_def split: prod.splits if_splits)
  obtain p where p: "s = p @ rest" "map (to_digit 10) p = map Some ds"
    using span_digits_split [OF ds] by blast
  have digits: "\<forall>d \<in> set ds. 0 \<le> d \<and> d < 10"
  proof
    fix d assume "d \<in> set ds"
    then have "Some d \<in> set (map (to_digit 10) p)" by (simp add: p(2))
    then show "0 \<le> d \<and> d < 10" by (auto simp: to_digit_10_iff dest: sym)
  qed
  consider a where "ds = [a]" | a b where "ds = [a, b]" | a b c where "ds = [a, b, c]"
  proof -
    have "length ds = 1 \<or> length ds = 2 \<or> length ds = 3" using len by (cases ds) (auto simp: le_Suc_eq numeral_eq_Suc)
    then show ?thesis using that by (auto simp: numeral_eq_Suc length_Suc_conv)
  qed
  then have "ds = [1, 2, 7]"
    using val digits by cases (auto dest: digits_127)
  with p show ?thesis by (auto simp: map_eq_Cons_conv dest: to_digit_char)
qed

lemma read_octets_SucD:
  assumes "read_octets (Suc n) i s = Some (os, rest)"
  obtains octet s' os' where
    "read_separator (CHR ''.'') i (read_number 10 3 False 255) s = Some (octet, s')"
    and "read_octets n (Suc i) s' = Some (os', rest)" and "os = octet # os'"
  using assms by (auto split: option.splits prod.splits)

text \<open>An IPv4 loopback address is spelled with the octet \<open>127\<close> and a dot.\<close>

lemma loopback_v4_prefix:
  assumes "parse_ip_addr s = Some (IpV4 os)" and "is_loopback (IpV4 os)"
  shows "\<exists>t. s = ''127.'' @ t"
proof -
  from assms(1) have "read_octets (Suc 3) 0 s = Some (os, [])"
    by (auto simp: parse_ip_addr_def read_ipv4_addr_def eval_nat_numeral
        split: option.splits prod.splits if_splits)
  then obtain o1 s1 os1 where o1: "read_number 10 3 False 255 s = Some (o1, s1)"
    and os: "read_octets (Suc 2) 1 s1 = Some (os1, [])" "os = o1 # os1"
    by (elim read_octets_SucD) (simp add: read_separator_def eval_nat_numeral)
  from os(1) obtain s2 where "s1 = CHR ''.'' # s2"
    by (elim read_octets_SucD)
      (auto simp: read_separator_def read_given_char_def strip_prefix_char_def
        split: option.splits list.splits if_splits)
  moreover from assms(2) os(2) have "o1 = 127" by simp
  ultimately show ?thesis using read_number_octet o1 by fastforce
qed

end
