(* ===== verification/Validation.thy ===== *)
theory Validation
  imports Values Std_Net
begin

text \<open>
  \<open>src/runtime/validation.rs\<close>: what the runtime accepts from its environment, its author
  and the host. Two third-party crates are parameters. \<open>http::Uri\<close> is what the code reads
  of a parsed URI, and \<open>parse_uri\<close> is its \<open>FromStr\<close>; \<open>uuid::Uuid\<close> is its version and
  its hyphenated text, and \<open>parse_uuid\<close> is \<open>Uuid::parse_str\<close>.
\<close>

section \<open>The crates the validators call\<close>

record authority =
  auth_host :: string
  auth_port_u16 :: "u16 option"
  auth_as_str :: string

record uri =
  uri_scheme_str :: "string option"
  uri_authority :: "authority option"
  uri_path :: string
  uri_query :: "string option"

datatype uuid_version = UuidMd5 | UuidSha1 | UuidRandom | UuidOther nat

record uuid =
  uuid_get_version :: "uuid_version option"
  uuid_hyphenated :: string

type_synonym uri_parser = "string \<Rightarrow> error_source + uri"
type_synonym uuid_parser = "string \<Rightarrow> uuid option"

section \<open>Limits\<close>

definition MAXIMUM_PLUGIN_ID_BYTES :: nat where
  "MAXIMUM_PLUGIN_ID_BYTES = 191"

definition MAXIMUM_DNS_LABEL_BYTES :: nat where
  "MAXIMUM_DNS_LABEL_BYTES = 63"

section \<open>The endpoint\<close>

definition unbracketed :: "string \<Rightarrow> string" where
  "unbracketed host =
     (case Option.bind (strip_prefix_char (CHR ''['') host) (strip_suffix_char (CHR '']'')) of
        Some inner \<Rightarrow> inner
      | None \<Rightarrow> host)"

definition loopback_authority :: "authority \<Rightarrow> bool" where
  "loopback_authority authority =
     (let host = unbracketed (auth_host authority)
      in eq_ignore_ascii_case host ''localhost'' \<or>
         is_some_and (parse_ip_addr host) is_loopback)"

definition endpoint_error :: sdk_error where
  "endpoint_error = Environment
     ''OLL_PLUGIN_ENDPOINT must be an http loopback URL with an explicit nonzero port''"

definition endpoint :: "uri_parser \<Rightarrow> string \<Rightarrow> uri sdk_result" where
  "endpoint parse_uri value =
     (case parse_uri value of
        Inl error \<Rightarrow> Inl (runtime ''parse OLL_PLUGIN_ENDPOINT'' error)
      | Inr parsed \<Rightarrow>
          (let loopback = is_some_and (uri_authority parsed) loopback_authority;
               explicit_port =
                 is_some_and (Option.bind (uri_authority parsed) auth_port_u16) (\<lambda>port. port \<noteq> 0);
               no_user_information =
                 is_some_and (uri_authority parsed) (\<lambda>a. CHR ''@'' \<notin> set (auth_as_str a));
               root_path_without_query = (uri_path parsed = ''/'' \<and> uri_query parsed = None)
           in if uri_scheme_str parsed \<noteq> Some ''http'' \<or> \<not> loopback \<or> \<not> explicit_port
                 \<or> \<not> no_user_information \<or> \<not> root_path_without_query
              then Inl endpoint_error
              else Inr parsed))"

section \<open>Identifiers\<close>

definition canonical_uuid_v4 :: "uuid_parser \<Rightarrow> string \<Rightarrow> bool" where
  "canonical_uuid_v4 parse_uuid value =
     is_some_and (parse_uuid value)
       (\<lambda>id. uuid_get_version id = Some UuidRandom \<and> uuid_hyphenated id = value)"

definition is_ascii_lowercase :: "char \<Rightarrow> bool" where
  "is_ascii_lowercase c \<longleftrightarrow> 97 \<le> char_code c \<and> char_code c \<le> 122"

definition is_ascii_digit :: "char \<Rightarrow> bool" where
  "is_ascii_digit c \<longleftrightarrow> 48 \<le> char_code c \<and> char_code c \<le> 57"

definition valid_dns_label :: "string \<Rightarrow> bool" where
  "valid_dns_label bytes \<longleftrightarrow>
     bytes \<noteq> [] \<and>
     length bytes \<le> MAXIMUM_DNS_LABEL_BYTES \<and>
     (is_ascii_lowercase (bytes ! 0) \<or> is_ascii_digit (bytes ! 0)) \<and>
     (is_ascii_lowercase (bytes ! (length bytes - 1)) \<or>
      is_ascii_digit (bytes ! (length bytes - 1))) \<and>
     list_all (\<lambda>byte. is_ascii_lowercase byte \<or> is_ascii_digit byte \<or> byte = CHR ''-'') bytes"

definition validate_plugin_id :: "string \<Rightarrow> unit sdk_result" where
  "validate_plugin_id value =
     (let labels = split_on (CHR ''.'') value
      in if length value > MAXIMUM_PLUGIN_ID_BYTES \<or> length labels < 2 \<or>
            \<not> list_all valid_dns_label labels
         then Inl (InvalidArgument ''plugin ID must be a lower-case dotted DNS name'')
         else Inr ())"

definition validate_job_id :: "uuid_parser \<Rightarrow> plugin_job_id option \<Rightarrow> string sdk_result" where
  "validate_job_id parse_uuid jid =
     and_then
       (ok_or (Protocol ''job ID is required'') (map_option plugin_job_id_value jid))
       (\<lambda>value. if canonical_uuid_v4 parse_uuid value then Inr value
                else Inl (Protocol ''job ID must be a canonical UUID v4''))"

section \<open>Messages\<close>

definition validate_host_hello ::
  "uuid_parser \<Rightarrow> string \<Rightarrow> host_hello \<Rightarrow> unit sdk_result" where
  "validate_host_hello parse_uuid plugin_id hello =
     (let valid_node =
            is_some_and (hh_node hello) (\<lambda>node.
              is_some_and (node_identity.node_id node)
                (\<lambda>id. canonical_uuid_v4 parse_uuid (node_id_value id)) \<and>
              is_some_and (node_identity.node_name node)
                (\<lambda>name. valid_dns_label (node_name_value name)));
          valid_plugin =
            is_some_and (hh_plugin_id hello) (\<lambda>value. plugin_id_value value = plugin_id) \<and>
            is_some_and (hh_plugin_name hello) (\<lambda>value. valid_dns_label (plugin_name_value value))
      in if \<not> valid_node \<or> \<not> valid_plugin \<or> hh_maximum_call_depth hello = 0 \<or>
            hh_maximum_causal_depth hello = 0 \<or> hh_maximum_artifact_chunk_bytes hello = 0
         then Inl (Protocol ''HostHello does not describe the expected plugin instance'')
         else Inr ())"

definition validate_trace ::
  "plugin_envelope \<Rightarrow> u32 \<Rightarrow> u32 \<Rightarrow> trace_context sdk_result" where
  "validate_trace envelope maximum_call_depth maximum_causal_depth =
     and_then
       (ok_or (Protocol ''host omitted correlation context'')
         (option_filter (\<lambda>trace. correlation_id trace \<noteq> []) (env_trace envelope)))
       (\<lambda>trace.
          if call_depth trace > maximum_call_depth \<or> causal_depth trace > maximum_causal_depth
          then Inl (Protocol ''host envelope exceeds a negotiated trace depth limit'')
          else Inr trace)"

definition validate_timestamp :: "timestamp option \<Rightarrow> string \<Rightarrow> timestamp sdk_result" where
  "validate_timestamp value field =
     ok_or (Protocol (field @ '' must be a valid protobuf Timestamp''))
       (option_filter valid_timestamp value)"

definition optional_timestamp :: "timestamp option \<Rightarrow> string \<Rightarrow> unit sdk_result" where
  "optional_timestamp value field =
     (case value of
        Some t \<Rightarrow> and_then (validate_timestamp (Some t) field) (\<lambda>_. Inr ())
      | None \<Rightarrow> Inr ())"

definition cancellation_reason :: "i32 \<Rightarrow> unit sdk_result" where
  "cancellation_reason value =
     (if value = job_cancellation_reason_i32 ReasonUnspecified
      then Inl (Protocol ''CancelJobRequest reason must not be unspecified'')
      else Inr ())"

definition validate_shutdown :: "shutdown_request \<Rightarrow> timestamp sdk_result" where
  "validate_shutdown request =
     (if sd_reason request = []
      then Inl (Protocol ''ShutdownRequest reason must not be empty'')
      else validate_timestamp (sd_grace_period_deadline request)
             ''ShutdownRequest grace-period deadline'')"

definition validate_protocol_error :: "protocol_error \<Rightarrow> unit sdk_result" where
  "validate_protocol_error error =
     (if pe_code error \<noteq> error_code_i32 CodeUnspecified \<and> pe_message error \<noteq> [] then Inr ()
      else Inl (Protocol ''ProtocolError code and message must be specified''))"

lemmas validator_defs [guard_defs] = canonical_uuid_v4_def validate_job_id_def validate_trace_def
  validate_timestamp_def optional_timestamp_def cancellation_reason_def
  validate_shutdown_def validate_protocol_error_def

section \<open>What the validators accept\<close>

lemma validate_job_id_Inr_iff:
  "validate_job_id p jid = Inr value \<longleftrightarrow> jid = Some (PluginJobId value) \<and> canonical_uuid_v4 p value"
  by (cases jid) (auto simp: validate_job_id_def plugin_job_id.expand)

lemma validate_job_id_Inl: "validate_job_id p jid = Inl e \<Longrightarrow> \<exists>m. e = Protocol m"
  by (auto simp: validate_job_id_def result_simps split: if_splits)

lemma validate_trace_Inr_iff:
  "validate_trace env cd ud = Inr trace \<longleftrightarrow>
     env_trace env = Some trace \<and> correlation_id trace \<noteq> [] \<and>
     call_depth trace \<le> cd \<and> causal_depth trace \<le> ud"
  by (auto simp: validate_trace_def result_simps not_less split: if_splits)

lemma validate_timestamp_Inr_iff:
  "validate_timestamp value field = Inr t \<longleftrightarrow> value = Some t \<and> valid_timestamp t"
  by (auto simp: validate_timestamp_def result_simps)

lemma optional_timestamp_ok_iff:
  "optional_timestamp value field = Inr () \<longleftrightarrow> (\<forall>t. value = Some t \<longrightarrow> valid_timestamp t)"
  by (auto simp: optional_timestamp_def result_simps validate_timestamp_Inr_iff split: option.splits)

lemma cancellation_reason_ok_iff: "cancellation_reason r = Inr () \<longleftrightarrow> r \<noteq> 0"
  by (simp add: cancellation_reason_def)

lemma validate_shutdown_Inr_iff:
  "validate_shutdown r = Inr t \<longleftrightarrow>
     sd_reason r \<noteq> [] \<and> sd_grace_period_deadline r = Some t \<and> valid_timestamp t"
  by (auto simp: validate_shutdown_def validate_timestamp_Inr_iff split: if_splits)

lemma validate_protocol_error_ok_iff:
  "validate_protocol_error e = Inr () \<longleftrightarrow> pe_code e \<noteq> 0 \<and> pe_message e \<noteq> []"
  by (auto simp: validate_protocol_error_def)

lemma validate_host_hello_okD:
  assumes "validate_host_hello p pid hello = Inr ()"
  shows "hh_maximum_call_depth hello \<noteq> 0" "hh_maximum_causal_depth hello \<noteq> 0"
    "hh_maximum_artifact_chunk_bytes hello \<noteq> 0"
    "hh_plugin_id hello = Some (PluginId pid)"
    "\<exists>name. hh_plugin_name hello = Some (PluginName name) \<and> valid_dns_label name"
  using assms
  by (auto simp: validate_host_hello_def Let_def is_some_and_iff plugin_id.expand
      split: if_splits)
    (metis plugin_name.collapse)

lemma endpoint_Inr_iff:
  "endpoint parse value = Inr u \<longleftrightarrow>
     parse value = Inr u \<and> uri_scheme_str u = Some ''http'' \<and>
     uri_path u = ''/'' \<and> uri_query u = None \<and>
     (\<exists>a port. uri_authority u = Some a \<and> loopback_authority a \<and>
        auth_port_u16 a = Some port \<and> port \<noteq> 0 \<and> CHR ''@'' \<notin> set (auth_as_str a))"
  by (cases "parse value"; cases "uri_authority u")
    (auto simp: endpoint_def Let_def is_some_and_iff split: if_splits)

section \<open>Labels and plugin IDs\<close>

definition label_char :: "char \<Rightarrow> bool" where
  "label_char c \<longleftrightarrow> is_ascii_lowercase c \<or> is_ascii_digit c \<or> c = CHR ''-''"

lemma valid_dns_label_chars: "valid_dns_label s \<Longrightarrow> c \<in> set s \<Longrightarrow> label_char c"
  by (auto simp: valid_dns_label_def label_char_def list_all_iff)

lemma not_label_char [simp]:
  "\<not> label_char (CHR ''/'')" "\<not> label_char (CHR ''.'')" "\<not> label_char (CHR 0x00)"
  "\<not> label_char (CHR 0x5C)" "\<not> label_char (CHR '' '')"
  by (simp_all add: label_char_def is_ascii_lowercase_def is_ascii_digit_def char_code_def)

lemma validate_plugin_id_ok_iff:
  "validate_plugin_id value = Inr () \<longleftrightarrow>
     length value \<le> MAXIMUM_PLUGIN_ID_BYTES \<and> 2 \<le> length (split_on (CHR ''.'') value) \<and>
     (\<forall>label \<in> set (split_on (CHR ''.'') value). valid_dns_label label)"
  by (auto simp: validate_plugin_id_def Let_def list_all_iff)

lemma plugin_id_chars:
  assumes "validate_plugin_id value = Inr ()" and "c \<in> set value"
  shows "label_char c \<or> c = CHR ''.''"
proof -
  have "c \<in> set (join_with (CHR ''.'') (split_on (CHR ''.'') value))"
    using assms(2) by (simp add: join_split)
  then have "c = CHR ''.'' \<or> (\<exists>l \<in> set (split_on (CHR ''.'') value). c \<in> set l)"
    using set_join_with by fastforce
  with assms(1) show ?thesis
    by (auto simp: validate_plugin_id_ok_iff intro: valid_dns_label_chars)
qed

end
