(* ===== verification/Host_Client.thy ===== *)
theory Host_Client
  imports Sender Hash_Map Validation
begin

text \<open>
  \<open>src/runtime/host/client.rs\<close>: the requests an action has put on the wire and the table
  that routes the host's direct responses back to them. A response one-shot is named by a
  number; \<open>hc_settled\<close> records what became of each: a payload sent into it, or
  \<^const>\<open>None\<close> when its sending half was dropped. What the rest of the session does while a
  request waits is a parameter, \<open>world\<close>.
\<close>

record pending_response =
  pr_expected_trace :: trace_context
  pr_response :: nat

record pending_table =
  pt_requests :: "(u64, pending_response) hash_map"
  pt_poisoned :: bool

record host_client =
  hc_sender :: session_sender
  hc_pending :: pending_table
  hc_settled :: "(nat \<times> payload option) list"
  hc_session_id :: string
  hc_maximum_artifact_chunk_bytes :: u64
  hc_maximum_call_depth :: u32

definition new_host_client ::
  "session_sender \<Rightarrow> string \<Rightarrow> u64 \<Rightarrow> u32 \<Rightarrow> host_client" where
  "new_host_client sender session_id maximum_artifact_chunk_bytes maximum_call_depth =
     \<lparr>hc_sender = sender,
      hc_pending = \<lparr>pt_requests = hm_empty, pt_poisoned = False\<rparr>,
      hc_settled = [],
      hc_session_id = session_id,
      hc_maximum_artifact_chunk_bytes = maximum_artifact_chunk_bytes,
      hc_maximum_call_depth = maximum_call_depth\<rparr>"

section \<open>Registering a request\<close>

text \<open>The closure passed to \<open>send_registered\<close>, and the guard it returns with the receiver.\<close>

record pending_guard =
  pg_message_id :: u64
  pg_sent :: bool

definition register_request ::
  "trace_context \<Rightarrow> nat \<Rightarrow> u64 \<Rightarrow> pending_table \<Rightarrow>
   ((nat \<times> pending_guard) \<times> pending_table) sdk_result" where
  "register_request expected_trace response mid pending =
     (if pt_poisoned pending
      then Inl (Protocol ''pending host-call state is poisoned'')
      else if hm_contains_key (pt_requests pending) mid
      then Inl (Protocol ''plugin reused a pending request message ID'')
      else Inr ((response, \<lparr>pg_message_id = mid, pg_sent = False\<rparr>),
                pending\<lparr>pt_requests :=
                  hm_insert mid \<lparr>pr_expected_trace = expected_trace, pr_response = response\<rparr>
                    (pt_requests pending)\<rparr>))"

definition drop_guard :: "pending_guard \<Rightarrow> pending_table \<Rightarrow> pending_table" where
  "drop_guard guard pending =
     (if pg_sent guard then pending
      else pending\<lparr>pt_requests := hm_remove (pg_message_id guard) (pt_requests pending)\<rparr>)"

definition release_registered :: "nat \<times> pending_guard \<Rightarrow> pending_table \<Rightarrow> pending_table" where
  "release_registered registered pending = drop_guard (snd registered) pending"

section \<open>Requests\<close>

text \<open>Up to the point where the request is on the ordered wire and \<open>guard.sent\<close> is set.\<close>

definition begin_request ::
  "trace_context \<Rightarrow> payload \<Rightarrow> nat \<Rightarrow> host_client \<Rightarrow>
   (u64 \<times> pending_guard) sdk_result \<times> host_client" where
  "begin_request trace payload response hc =
     (let (result, (sender, pending)) =
            send_registered None trace payload (register_request trace response)
              release_registered (hc_sender hc, hc_pending hc);
          hc1 = hc\<lparr>hc_sender := sender, hc_pending := pending\<rparr>
      in case result of
           Inl e \<Rightarrow> (Inl e, hc1)
         | Inr (mid, (receiver, guard)) \<Rightarrow> (Inr (mid, guard\<lparr>pg_sent := True\<rparr>), hc1))"

definition finish_request :: "error_source + payload \<Rightarrow> payload sdk_result" where
  "finish_request received =
     (case received of
        Inl error \<Rightarrow> Inl (runtime ''wait for host response'' error)
      | Inr (PProtocolError error) \<Rightarrow> Inl (Host error)
      | Inr payload \<Rightarrow> Inr payload)"

text \<open>The guard goes out of scope at the end of \<open>request\<close>, on every path.\<close>

definition request ::
  "trace_context \<Rightarrow> payload \<Rightarrow> nat \<Rightarrow>
   (u64 \<Rightarrow> host_client \<Rightarrow> (error_source + payload) \<times> host_client) \<Rightarrow>
   host_client \<Rightarrow> payload sdk_result \<times> host_client" where
  "request trace payload response world hc =
     st_and_then (begin_request trace payload response hc)
       (\<lambda>(mid, guard) hc1.
          let (received, hc2) = world mid hc1
          in (finish_request received, hc2\<lparr>hc_pending := drop_guard guard (hc_pending hc2)\<rparr>))"

text \<open>The request future dropped: before, or after, its envelope is on the wire.\<close>

definition abandon_unsent_request ::
  "trace_context \<Rightarrow> nat \<Rightarrow> host_client \<Rightarrow> unit sdk_result \<times> host_client" where
  "abandon_unsent_request trace response hc =
     (let (result, (sender, pending)) =
            abandon_enqueue (register_request trace response) release_registered
              (hc_sender hc, hc_pending hc)
      in (result, hc\<lparr>hc_sender := sender, hc_pending := pending\<rparr>))"

definition abandon_sent_request :: "pending_guard \<Rightarrow> host_client \<Rightarrow> host_client" where
  "abandon_sent_request guard hc = hc\<lparr>hc_pending := drop_guard guard (hc_pending hc)\<rparr>"

definition interpret_response :: "payload \<Rightarrow> host_call_response sdk_result" where
  "interpret_response payload =
     (case payload of
        PHostResult response \<Rightarrow>
          (case hcr_result response of
             Some (Result_Error error) \<Rightarrow>
               and_then (validate_protocol_error error) (\<lambda>_. Inl (Host error))
           | Some _ \<Rightarrow> Inr response
           | None \<Rightarrow> Inl (Protocol ''HostCallResponse result is required''))
      | _ \<Rightarrow> Inl (Protocol ''host call received another response kind''))"

definition call ::
  "trace_context \<Rightarrow> host_call \<Rightarrow> nat \<Rightarrow>
   (u64 \<Rightarrow> host_client \<Rightarrow> (error_source + payload) \<times> host_client) \<Rightarrow>
   host_client \<Rightarrow> host_call_response sdk_result \<times> host_client" where
  "call trace c response world hc =
     st_and_then (request trace (PHostCall \<lparr>hcr_call = Some c\<rparr>) response world hc)
       (\<lambda>payload hc1. (interpret_response payload, hc1))"

section \<open>Routing a response\<close>

definition route ::
  "u64 \<Rightarrow> trace_context \<Rightarrow> payload \<Rightarrow> host_client \<Rightarrow> unit sdk_result \<times> host_client" where
  "route reply trace payload hc =
     (if pt_poisoned (hc_pending hc)
      then (Inl (Protocol ''pending host-call state is poisoned''), hc)
      else case hm_get (pt_requests (hc_pending hc)) reply of
        None \<Rightarrow> (Inl (Protocol ''response names no pending plugin request''), hc)
      | Some waiter \<Rightarrow>
          (let hc1 = hc\<lparr>hc_pending := (hc_pending hc)
                 \<lparr>pt_requests := hm_remove reply (pt_requests (hc_pending hc))\<rparr>\<rparr>
           in if pr_expected_trace waiter \<noteq> trace
              then (Inl (Protocol ''response trace context differs from its plugin request''),
                    hc1\<lparr>hc_settled := hc_settled hc1 @ [(pr_response waiter, None)]\<rparr>)
              else (Inr (),
                    hc1\<lparr>hc_settled := hc_settled hc1 @ [(pr_response waiter, Some payload)]\<rparr>)))"

section \<open>The table and the wire agree\<close>

abbreviation pending_of :: "host_client \<Rightarrow> u64 \<Rightarrow> pending_response option" where
  "pending_of hc \<equiv> hm_get (pt_requests (hc_pending hc))"

text \<open>
  Every routing entry belongs to a request that is on the wire, and expects the very trace
  that request carries.
\<close>

definition request_on_wire :: "session_sender \<Rightarrow> u64 \<Rightarrow> pending_response \<Rightarrow> bool" where
  "request_on_wire s i waiter \<longleftrightarrow>
     (\<exists>e \<in> set (wire_envelopes s). message_id e = i \<and> env_trace e = Some (pr_expected_trace waiter))"

definition client_inv :: "host_client \<Rightarrow> bool" where
  "client_inv hc \<longleftrightarrow>
     sender_inv (hc_sender hc) \<and> hm_wf (pt_requests (hc_pending hc)) \<and>
     (\<forall>i waiter. pending_of hc i = Some waiter \<longrightarrow> request_on_wire (hc_sender hc) i waiter)"

lemma new_host_client_inv:
  "sender_inv s \<Longrightarrow> client_inv (new_host_client s sid chunk depth)"
  by (simp add: client_inv_def new_host_client_def hm.map_laws)

lemma request_on_wire_extends:
  "request_on_wire s i waiter \<Longrightarrow> extends s t \<Longrightarrow> request_on_wire t i waiter"
  by (auto simp: request_on_wire_def extends_def wire_envelopes_def)

lemma request_on_wire_less:
  "sender_inv s \<Longrightarrow> request_on_wire s i waiter \<Longrightarrow> i < ss_next_message_id s"
  by (auto simp: request_on_wire_def sender_inv_def sent_ids_def)

lemma next_id_not_pending:
  "client_inv hc \<Longrightarrow> pending_of hc (ss_next_message_id (hc_sender hc)) = None"
  using request_on_wire_less unfolding client_inv_def
  by (metis less_irrefl option.exhaust)

text \<open>So the registration of a request can fail only on a poisoned lock.\<close>

lemma register_request_fresh:
  assumes "client_inv hc" and "\<not> pt_poisoned (hc_pending hc)"
  shows "register_request trace response (ss_next_message_id (hc_sender hc)) (hc_pending hc) =
    Inr ((response, \<lparr>pg_message_id = ss_next_message_id (hc_sender hc), pg_sent = False\<rparr>),
         (hc_pending hc)\<lparr>pt_requests :=
            hm_insert (ss_next_message_id (hc_sender hc))
              \<lparr>pr_expected_trace = trace, pr_response = response\<rparr>
              (pt_requests (hc_pending hc))\<rparr>)"
  using next_id_not_pending [OF assms(1)] assms(2)
  by (simp add: register_request_def hm_contains_key_def)

lemma register_request_InrD:
  assumes "register_request trace response mid p = Inr ((receiver, guard), p')"
  shows "\<not> pt_poisoned p" "hm_get (pt_requests p) mid = None" "receiver = response"
    "guard = \<lparr>pg_message_id = mid, pg_sent = False\<rparr>"
    "p' = p\<lparr>pt_requests :=
       hm_insert mid \<lparr>pr_expected_trace = trace, pr_response = response\<rparr> (pt_requests p)\<rparr>"
  using assms by (auto simp: register_request_def hm_contains_key_def split: if_splits)

text \<open>Registering and releasing leaves the table as it was.\<close>

lemma release_undoes_register:
  assumes "register_request trace response mid p = Inr (registered, p')"
  shows "hm_get (pt_requests (release_registered registered p')) = hm_get (pt_requests p)"
    and "hm_wf (pt_requests p) \<Longrightarrow> hm_wf (pt_requests (release_registered registered p'))"
    and "pt_poisoned (release_registered registered p') = pt_poisoned p"
proof -
  obtain receiver guard where "registered = (receiver, guard)" by (cases registered)
  note reg = register_request_InrD [OF assms [unfolded this]] and this
  then have "hm_get (pt_requests p) mid = None"
    "release_registered registered p' = p\<lparr>pt_requests :=
       hm_remove mid (hm_insert mid \<lparr>pr_expected_trace = trace, pr_response = response\<rparr>
         (pt_requests p))\<rparr>"
    by (simp_all add: release_registered_def drop_guard_def)
  then show "hm_get (pt_requests (release_registered registered p')) = hm_get (pt_requests p)"
    and "hm_wf (pt_requests p) \<Longrightarrow> hm_wf (pt_requests (release_registered registered p'))"
    and "pt_poisoned (release_registered registered p') = pt_poisoned p"
    by (simp_all add: hm.get_remove_insert_fresh hm.wf_insert hm.wf_remove)
qed

lemma begin_request_cases:
  assumes "begin_request trace payload response hc = (result, hc')"
  obtains (failed) e where "result = Inl e" "extends (hc_sender hc) (hc_sender hc')"
      "sender_inv (hc_sender hc) \<Longrightarrow> sender_inv (hc_sender hc')"
      "wire_envelopes (hc_sender hc') = wire_envelopes (hc_sender hc)"
      "pending_of hc' = pending_of hc"
      "hm_wf (pt_requests (hc_pending hc)) \<Longrightarrow> hm_wf (pt_requests (hc_pending hc'))"
      "hc_settled hc' = hc_settled hc" "hc_session_id hc' = hc_session_id hc"
    | (sent) mid where "mid = ss_next_message_id (hc_sender hc)"
      "result = Inr (mid, \<lparr>pg_message_id = mid, pg_sent = True\<rparr>)"
      "pending_of hc mid = None"
      "pt_requests (hc_pending hc') = hm_insert mid
         \<lparr>pr_expected_trace = trace, pr_response = response\<rparr> (pt_requests (hc_pending hc))"
      "wire_envelopes (hc_sender hc') = wire_envelopes (hc_sender hc) @
         [seal_envelope (ss_identity (hc_sender hc)) mid None trace payload]"
      "extends (hc_sender hc) (hc_sender hc')"
      "sender_inv (hc_sender hc) \<Longrightarrow> sender_inv (hc_sender hc')"
      "hc_settled hc' = hc_settled hc" "hc_session_id hc' = hc_session_id hc"
proof -
  obtain res s' p' where enq:
    "enqueue None trace payload None (register_request trace response) release_registered
       (hc_sender hc, hc_pending hc) = (res, (s', p'))"
    by (cases "enqueue None trace payload None (register_request trace response)
          release_registered (hc_sender hc, hc_pending hc)") auto
  note ext = enqueue_extends [OF enq] and inv = enqueue_inv [OF enq]
  have hc': "hc' = hc\<lparr>hc_sender := s', hc_pending := p'\<rparr>"
    "result = (case res of Inl e \<Rightarrow> Inl e | Inr (mid, (receiver, guard)) \<Rightarrow> Inr (mid, guard\<lparr>pg_sent := True\<rparr>))"
    using assms enq
    by (auto simp: begin_request_def send_registered_def Let_def split: sum.splits prod.splits)
  from enq show ?thesis
  proof (cases rule: enqueue_cases)
    case no_ids
    then show ?thesis by (intro failed) (use hc' in simp_all)
  next
    case (unregistered e)
    then show ?thesis by (intro failed) (use hc' ext inv in \<open>simp_all add: wire_envelopes_def\<close>)
  next
    case (closed t r1)
    then show ?thesis
      by (intro failed)
        (use hc' ext inv release_undoes_register [OF closed(4)] in
          \<open>simp_all add: wire_envelopes_def\<close>)
  next
    case (queued t)
    obtain receiver guard where t: "t = (receiver, guard)" by (cases t)
    note reg = register_request_InrD [OF queued(4) [unfolded t]]
    show ?thesis
      by (rule sent) (use hc' ext inv reg queued t in \<open>simp_all add: wire_envelopes_def\<close>)
  qed
qed

lemma begin_request_inv:
  assumes "begin_request trace payload response hc = (result, hc')" and "client_inv hc"
  shows "client_inv hc'"
  using assms(1)
proof (cases rule: begin_request_cases)
  case failed
  with assms(2) show ?thesis
    by (auto simp: client_inv_def request_on_wire_def)
next
  case (sent mid)
  have "request_on_wire (hc_sender hc') i waiter" if "pending_of hc' i = Some waiter" for i waiter
  proof (cases "i = mid")
    case True
    with that sent show ?thesis
      by (auto simp: request_on_wire_def seal_envelope_def hm.get_insert)
  next
    case False
    with that sent have "pending_of hc i = Some waiter" by (simp add: hm.get_insert)
    with assms(2) sent(6) show ?thesis
      by (auto simp: client_inv_def intro: request_on_wire_extends)
  qed
  with assms(2) sent show ?thesis by (simp add: client_inv_def hm.wf_insert)
qed

lemma drop_guard_sent [simp]: "pg_sent guard \<Longrightarrow> drop_guard guard p = p"
  by (simp add: drop_guard_def)

lemma abandon_unsent_request_keeps:
  assumes "abandon_unsent_request trace response hc = (result, hc')"
  shows "pending_of hc' = pending_of hc"
    and "client_inv hc \<Longrightarrow> client_inv hc'"
    and "wire_envelopes (hc_sender hc') = wire_envelopes (hc_sender hc)"
    and "extends (hc_sender hc) (hc_sender hc')"
proof -
  obtain res s' p' where ab: "abandon_enqueue (register_request trace response)
      release_registered (hc_sender hc, hc_pending hc) = (res, (s', p'))"
    by (cases "abandon_enqueue (register_request trace response) release_registered
      (hc_sender hc, hc_pending hc)") auto
  with assms have eq: "hc' = hc\<lparr>hc_sender := s', hc_pending := p'\<rparr>"
    by (simp add: abandon_unsent_request_def)
  note keeps = abandon_enqueue_keeps [OF ab]
  have p': "hm_get (pt_requests p') = pending_of hc"
    "hm_wf (pt_requests (hc_pending hc)) \<Longrightarrow> hm_wf (pt_requests p')"
    using ab by (cases rule: abandon_enqueue_cases; simp add: release_undoes_register)+
  show "pending_of hc' = pending_of hc" by (simp add: eq p')
  show "wire_envelopes (hc_sender hc') = wire_envelopes (hc_sender hc)"
    using keeps(3) by (simp add: eq wire_envelopes_def)
  show "extends (hc_sender hc) (hc_sender hc')" using keeps(1) by (simp add: eq)
  show "client_inv hc'" if "client_inv hc"
    using that keeps p' by (auto simp: eq client_inv_def intro: request_on_wire_extends)
qed

section \<open>Routing\<close>

lemma route_ok_iff:
  "(\<exists>hc'. route reply trace payload hc = (Inr (), hc')) \<longleftrightarrow>
     \<not> pt_poisoned (hc_pending hc) \<and>
     (\<exists>waiter. pending_of hc reply = Some waiter \<and> pr_expected_trace waiter = trace)"
  by (auto simp: route_def Let_def split: option.splits)

lemma route_sender: "hc_sender (snd (route reply trace payload hc)) = hc_sender hc"
  by (auto simp: route_def Let_def split: option.splits)

lemma route_pending:
  assumes "\<not> pt_poisoned (hc_pending hc)"
  shows "pending_of (snd (route reply trace payload hc)) = (pending_of hc)(reply := None)"
  using assms
  by (cases "pending_of hc reply")
    (auto simp: route_def Let_def hm.get_remove fun_upd_idem)

lemma route_inv: "client_inv hc \<Longrightarrow> client_inv (snd (route reply trace payload hc))"
  by (auto simp: route_def Let_def client_inv_def hm.get_remove hm.wf_remove
      split: option.splits if_splits)

lemma route_settled:
  "route reply trace payload hc = (Inr (), hc') \<Longrightarrow> pending_of hc reply = Some waiter \<Longrightarrow>
     hc_settled hc' = hc_settled hc @ [(pr_response waiter, Some payload)]"
  by (auto simp: route_def Let_def split: if_splits)

end
