(* ===== verification/Host_Calls.thy ===== *)
theory Host_Calls
  imports Validation
begin

text \<open>
  \<open>src/runtime/host/call.rs\<close>: which calls an action may put to the host, and which
  responses the runtime accepts for each kind of call.
\<close>

datatype host_call_kind =
  Kind_ReadDocument | Kind_ListDirectory | Kind_GetDirectoryTree | Kind_ReadCrdt
| Kind_CommitDocuments | Kind_GetConfig | Kind_InvokeConfigFunction

fun validate_call :: "host_call \<Rightarrow> string \<Rightarrow> host_call_kind sdk_result" where
  "validate_call (Call_ReadDocument _) session_id = Inr Kind_ReadDocument"
| "validate_call (Call_ListDirectory _) session_id = Inr Kind_ListDirectory"
| "validate_call (Call_GetDirectoryTree _) session_id = Inr Kind_GetDirectoryTree"
| "validate_call (Call_ReadCrdt _) session_id = Inr Kind_ReadCrdt"
| "validate_call (Call_CommitDocuments _) session_id = Inr Kind_CommitDocuments"
| "validate_call (Call_GetConfig request) session_id =
     (if is_some_and (gc_path request)
           (\<lambda>path. list_ex (\<lambda>segment. segment_kind segment = None) (path_segments path))
      then Inl (InvalidArgument ''configuration path segments must specify a key or index'')
      else Inr Kind_GetConfig)"
| "validate_call (Call_InvokeConfigFunction request) session_id =
     and_then
       (ok_or (InvalidArgument ''configuration function reference is required'')
         (icf_function request))
       (\<lambda>f. if fn_session_id f \<noteq> session_id \<or> fn_function_id f = []
            then Inl (InvalidArgument ''configuration function must belong to the active session'')
            else and_then (validate_session_values (icf_arguments request) session_id)
                   (\<lambda>_. Inr Kind_InvokeConfigFunction))"

definition wrong_response_kind :: sdk_error where
  "wrong_response_kind = Protocol ''host returned another response kind for HostCallRequest''"

text \<open>The arms of the \<open>match\<close> in the source's order; the last two are its catch-alls.\<close>

fun validate_response ::
  "host_call_kind \<Rightarrow> host_call_result option \<Rightarrow> string \<Rightarrow> unit sdk_result" where
  "validate_response Kind_ReadDocument (Some (Result_ReadDocument _)) session_id = Inr ()"
| "validate_response Kind_ListDirectory (Some (Result_ListDirectory _)) session_id = Inr ()"
| "validate_response Kind_GetDirectoryTree (Some (Result_GetDirectoryTree _)) session_id = Inr ()"
| "validate_response Kind_ReadCrdt (Some (Result_ReadCrdt _)) session_id = Inr ()"
| "validate_response Kind_CommitDocuments (Some (Result_CommitDocuments _)) session_id = Inr ()"
| "validate_response Kind_GetConfig (Some (Result_GetConfig response)) session_id =
     (case gc_value response of
        Some configured \<Rightarrow>
          and_then (validate_session_values [configured] session_id) (\<lambda>_. Inr ())
      | None \<Rightarrow> Inr ())"
| "validate_response Kind_InvokeConfigFunction (Some (Result_InvokeConfigFunction response)) session_id =
     validate_session_values (icf_results response) session_id"
| "validate_response kind (Some (Result_Error error)) session_id = validate_protocol_error error"
| "validate_response kind (Some _) session_id = Inl wrong_response_kind"
| "validate_response kind None session_id =
     Inl (Protocol ''HostCallResponse result is required'')"

section \<open>Calls, kinds and results correspond\<close>

fun kind_of_call :: "host_call \<Rightarrow> host_call_kind" where
  "kind_of_call (Call_ReadDocument _) = Kind_ReadDocument"
| "kind_of_call (Call_ListDirectory _) = Kind_ListDirectory"
| "kind_of_call (Call_GetDirectoryTree _) = Kind_GetDirectoryTree"
| "kind_of_call (Call_ReadCrdt _) = Kind_ReadCrdt"
| "kind_of_call (Call_CommitDocuments _) = Kind_CommitDocuments"
| "kind_of_call (Call_GetConfig _) = Kind_GetConfig"
| "kind_of_call (Call_InvokeConfigFunction _) = Kind_InvokeConfigFunction"

fun kind_of_result :: "host_call_result \<Rightarrow> host_call_kind option" where
  "kind_of_result (Result_ReadDocument _) = Some Kind_ReadDocument"
| "kind_of_result (Result_ListDirectory _) = Some Kind_ListDirectory"
| "kind_of_result (Result_GetDirectoryTree _) = Some Kind_GetDirectoryTree"
| "kind_of_result (Result_ReadCrdt _) = Some Kind_ReadCrdt"
| "kind_of_result (Result_CommitDocuments _) = Some Kind_CommitDocuments"
| "kind_of_result (Result_GetConfig _) = Some Kind_GetConfig"
| "kind_of_result (Result_InvokeConfigFunction _) = Some Kind_InvokeConfigFunction"
| "kind_of_result (Result_Error _) = None"

text \<open>The configuration values a host result carries.\<close>

fun result_values :: "host_call_result \<Rightarrow> config_value list" where
  "result_values (Result_GetConfig response) =
     (case gc_value response of Some v \<Rightarrow> [v] | None \<Rightarrow> [])"
| "result_values (Result_InvokeConfigFunction response) = icf_results response"
| "result_values _ = []"

lemma validate_call_kind: "validate_call c s = Inr kind \<Longrightarrow> kind = kind_of_call c"
  by (cases c) (auto simp: result_simps split: if_splits)

lemma validate_call_invoke:
  assumes "validate_call (Call_InvokeConfigFunction request) s = Inr kind"
  shows "\<exists>f. icf_function request = Some f \<and> function_ok (Some s) f"
    and "\<forall>v \<in> set (icf_arguments request). well_formed_value (Some s) 0 v"
  using assms
  by (auto simp: result_simps function_ok_def validate_session_values_ok_iff split: if_splits)

lemma validate_response_ok_iff:
  "validate_response kind r s = Inr () \<longleftrightarrow>
     (case r of
        None \<Rightarrow> False
      | Some (Result_Error e) \<Rightarrow> pe_code e \<noteq> 0 \<and> pe_message e \<noteq> []
      | Some result \<Rightarrow> kind_of_result result = Some kind \<and>
          (\<forall>v \<in> set (result_values result). well_formed_value (Some s) 0 v))"
  by (cases "(kind, r, s)" rule: validate_response.cases)
    (auto simp: result_simps validate_session_values_ok_iff validate_protocol_error_ok_iff
      wrong_response_kind_def split: option.splits)

end
