(* ===== verification/Cancel_Token.thy ===== *)
theory Cancel_Token
  imports Errors
begin

text \<open>
  \<open>src/runtime/cancellation.rs\<close>: the state word of one action, the controller that moves
  it, and the \<open>cancelled()\<close> loop of the tasks that wait for it. The word is modelled as a
  sequential latch first, and then as the shared state of a step relation in which any
  number of waiters interleave with the controllers at every atomic access.
\<close>

section \<open>The state word\<close>

definition ACTIVE :: u8 where "ACTIVE = 0"
definition CANCELLED :: u8 where "CANCELLED = 1"
definition FINISHED :: u8 where "FINISHED = 2"

lemmas state_words = ACTIVE_def CANCELLED_def FINISHED_def

definition is_cancelled :: "u8 \<Rightarrow> bool" where
  "is_cancelled value \<longleftrightarrow> value = CANCELLED"

definition ensure_active :: "u8 \<Rightarrow> unit sdk_result" where
  "ensure_active value = (if value = ACTIVE then Inr () else Inl Cancelled)"

text \<open>\<open>compare_exchange\<close>: the new word, and whether the exchange took place.\<close>

definition compare_exchange :: "u8 \<Rightarrow> u8 \<Rightarrow> u8 \<Rightarrow> u8 \<times> bool" where
  "compare_exchange value expected new =
     (if value = expected then (new, True) else (value, False))"

text \<open>The second component says whether \<open>notify_waiters\<close> is called.\<close>

definition cancel :: "u8 \<Rightarrow> u8 \<times> bool" where
  "cancel value = compare_exchange value ACTIVE CANCELLED"

definition finish :: "u8 \<Rightarrow> u8 \<times> bool" where
  "finish value = compare_exchange value ACTIVE FINISHED"

datatype controller_op = OpCancel | OpFinish

fun controller_apply :: "controller_op \<Rightarrow> u8 \<Rightarrow> u8" where
  "controller_apply OpCancel value = fst (cancel value)"
| "controller_apply OpFinish value = fst (finish value)"

fun outcome_word :: "controller_op \<Rightarrow> u8" where
  "outcome_word OpCancel = CANCELLED"
| "outcome_word OpFinish = FINISHED"

text \<open>A latch keeps the first outcome that is fired.\<close>

locale latch =
  fixes fire :: "'op \<Rightarrow> 's \<Rightarrow> 's"
    and open_state :: 's
    and outcome :: "'op \<Rightarrow> 's"
  assumes fire_open: "fire op open_state = outcome op"
    and fire_closed: "s \<noteq> open_state \<Longrightarrow> fire op s = s"
    and outcome_closed: "outcome op \<noteq> open_state"
begin

lemma fold_closed: "s \<noteq> open_state \<Longrightarrow> fold fire ops s = s"
  by (induction ops) (simp_all add: fire_closed)

lemma first_wins: "fold fire (op # ops) open_state = outcome op"
  by (simp add: fire_open fold_closed outcome_closed)

lemma closed_iff: "fold fire ops open_state = open_state \<longleftrightarrow> ops = []"
  using first_wins outcome_closed by (cases ops) auto

end

interpretation word_latch: latch controller_apply ACTIVE outcome_word
proof unfold_locales
  fix op and s :: u8
  show "controller_apply op ACTIVE = outcome_word op"
    by (cases op) (simp_all add: cancel_def finish_def compare_exchange_def)
  show "s \<noteq> ACTIVE \<Longrightarrow> controller_apply op s = s"
    by (cases op) (simp_all add: cancel_def finish_def compare_exchange_def)
  show "outcome_word op \<noteq> ACTIVE"
    by (cases op) (simp_all add: state_words)
qed

lemma ensure_active_ok_iff: "ensure_active v = Inr () \<longleftrightarrow> v = ACTIVE"
  by (simp add: ensure_active_def)

lemma ensure_active_Inl: "ensure_active v = Inl e \<longleftrightarrow> v \<noteq> ACTIVE \<and> e = Cancelled"
  by (auto simp: ensure_active_def)

section \<open>Waiters and controllers, interleaved\<close>

text \<open>
  One pass of the loop in \<open>cancelled()\<close> creates a \<open>Notified\<close> future, enables it, loads the
  word, and awaits the future when the word is still \<open>ACTIVE\<close>. A controller exchanges the
  word and, in a second step, notifies.
\<close>

datatype waiter_pc = WaiterIdle | LoopTop | Created | Enabled | Awaiting | Returned

record waiter =
  w_pc :: waiter_pc
  w_registered :: bool
  w_notified :: bool

record cancellation_state =
  cs_value :: u8
  cs_notify_pending :: bool
  cs_waiters :: "nat \<Rightarrow> waiter"

definition initial_cancellation :: cancellation_state where
  "initial_cancellation =
     \<lparr>cs_value = ACTIVE, cs_notify_pending = False,
      cs_waiters = (\<lambda>_. \<lparr>w_pc = WaiterIdle, w_registered = False, w_notified = False\<rparr>)\<rparr>"

text \<open>
  \<open>tokio::sync::Notify\<close> is a parameter: \<open>notify\<close> relates the waiters before and after a
  \<open>notify_waiters\<close>. The code relies on this much of its documentation: every registered
  future is woken, and nothing but wake-ups happens.
\<close>

type_synonym notifier = "(nat \<Rightarrow> waiter) \<Rightarrow> (nat \<Rightarrow> waiter) \<Rightarrow> bool"

definition documented_notify :: notifier where
  "documented_notify w w' \<longleftrightarrow>
     (\<forall>i. (w_registered (w i) \<longrightarrow> w' i = (w i)\<lparr>w_notified := True\<rparr>) \<and>
          (w' i = w i \<or> w' i = (w i)\<lparr>w_notified := True\<rparr>))"

definition notify_waiters_contract :: "notifier \<Rightarrow> bool" where
  "notify_waiters_contract notify \<longleftrightarrow>
     (\<forall>w w'. notify w w' \<longrightarrow> documented_notify w w') \<and> (\<forall>w. \<exists>w'. notify w w')"

datatype cancellation_label =
  Controller controller_op | NotifyWaiters | Waiter nat

inductive cancellation_step ::
  "((nat \<Rightarrow> waiter) \<Rightarrow> (nat \<Rightarrow> waiter) \<Rightarrow> bool) \<Rightarrow>
   cancellation_state \<Rightarrow> cancellation_label \<Rightarrow> cancellation_state \<Rightarrow> bool"
  for notify where
  controller_wins:
    "cs_value s = ACTIVE \<Longrightarrow>
     cancellation_step notify s (Controller op)
       (s\<lparr>cs_value := outcome_word op, cs_notify_pending := True\<rparr>)"
| controller_loses:
    "cs_value s \<noteq> ACTIVE \<Longrightarrow> cancellation_step notify s (Controller op) s"
| notify_waiters:
    "cs_notify_pending s \<Longrightarrow> notify (cs_waiters s) w' \<Longrightarrow>
     cancellation_step notify s NotifyWaiters
       (s\<lparr>cs_notify_pending := False, cs_waiters := w'\<rparr>)"
| call_cancelled:
    "w_pc (cs_waiters s i) = WaiterIdle \<Longrightarrow>
     cancellation_step notify s (Waiter i)
       (s\<lparr>cs_waiters := (cs_waiters s)(i := (cs_waiters s i)\<lparr>w_pc := LoopTop\<rparr>)\<rparr>)"
| create_notified:
    "w_pc (cs_waiters s i) = LoopTop \<Longrightarrow>
     cancellation_step notify s (Waiter i)
       (s\<lparr>cs_waiters := (cs_waiters s)(i :=
            \<lparr>w_pc = Created, w_registered = False, w_notified = False\<rparr>)\<rparr>)"
| enable:
    "w_pc (cs_waiters s i) = Created \<Longrightarrow>
     cancellation_step notify s (Waiter i)
       (s\<lparr>cs_waiters := (cs_waiters s)(i := (cs_waiters s i)\<lparr>w_pc := Enabled, w_registered := True\<rparr>)\<rparr>)"
| load_ended:
    "w_pc (cs_waiters s i) = Enabled \<Longrightarrow> cs_value s \<noteq> ACTIVE \<Longrightarrow>
     cancellation_step notify s (Waiter i)
       (s\<lparr>cs_waiters := (cs_waiters s)(i := (cs_waiters s i)\<lparr>w_pc := Returned\<rparr>)\<rparr>)"
| load_active:
    "w_pc (cs_waiters s i) = Enabled \<Longrightarrow> cs_value s = ACTIVE \<Longrightarrow>
     cancellation_step notify s (Waiter i)
       (s\<lparr>cs_waiters := (cs_waiters s)(i := (cs_waiters s i)\<lparr>w_pc := Awaiting\<rparr>)\<rparr>)"
| woken:
    "w_pc (cs_waiters s i) = Awaiting \<Longrightarrow> w_notified (cs_waiters s i) \<Longrightarrow>
     cancellation_step notify s (Waiter i)
       (s\<lparr>cs_waiters := (cs_waiters s)(i := (cs_waiters s i)\<lparr>w_pc := LoopTop\<rparr>)\<rparr>)"

inductive_cases cancellation_stepE: "cancellation_step notify s l t"

section \<open>No wake-up is lost\<close>

text \<open>
  The invariant: while the word is \<open>ACTIVE\<close> nothing is pending and nobody has returned; a
  parked waiter is registered; and a parked waiter that has not been woken although the
  word has moved is about to be woken.
\<close>

definition cancellation_inv :: "cancellation_state \<Rightarrow> bool" where
  "cancellation_inv s \<longleftrightarrow>
     (cs_value s = ACTIVE \<longrightarrow>
        \<not> cs_notify_pending s \<and> (\<forall>i. w_pc (cs_waiters s i) \<noteq> Returned)) \<and>
     (\<forall>i. w_pc (cs_waiters s i) \<in> {Enabled, Awaiting} \<longrightarrow> w_registered (cs_waiters s i)) \<and>
     (\<forall>i. w_pc (cs_waiters s i) = Awaiting \<and> cs_value s \<noteq> ACTIVE \<and>
          \<not> w_notified (cs_waiters s i) \<longrightarrow> cs_notify_pending s)"

lemma outcome_word_neq_ACTIVE [simp]: "outcome_word op \<noteq> ACTIVE"
  by (rule word_latch.outcome_closed)

lemma initial_cancellation_inv: "cancellation_inv initial_cancellation"
  by (simp add: cancellation_inv_def initial_cancellation_def)

lemma notify_effect:
  assumes "documented_notify w w'"
  shows "w_pc (w' i) = w_pc (w i)" and "w_registered (w' i) = w_registered (w i)"
    and "w_registered (w i) \<Longrightarrow> w_notified (w' i)"
proof -
  have "w' i = w i \<or> w' i = (w i)\<lparr>w_notified := True\<rparr>"
    using assms unfolding documented_notify_def by blast
  then show "w_pc (w' i) = w_pc (w i)" and "w_registered (w' i) = w_registered (w i)"
    by auto
  show "w_notified (w' i)" if "w_registered (w i)"
    using assms that unfolding documented_notify_def by simp
qed

lemma cancellation_step_inv:
  assumes "cancellation_step documented_notify s l t" and "cancellation_inv s"
  shows "cancellation_inv t"
  using assms
proof (cases rule: cancellation_step.cases)
  case (notify_waiters w')
  with assms(2) notify_effect [OF notify_waiters(4)] show ?thesis
    by (auto simp: cancellation_inv_def)
qed (auto simp: cancellation_inv_def)

interpretation cancellation:
  invariant_system "\<lambda>s. s = initial_cancellation" "cancellation_step documented_notify" cancellation_inv
proof unfold_locales
  show "s = initial_cancellation \<Longrightarrow> cancellation_inv s" for s
    by (simp add: initial_cancellation_inv)
  show "cancellation_step documented_notify s l t \<Longrightarrow> cancellation_inv s \<Longrightarrow> cancellation_inv t" for s l t
    by (rule cancellation_step_inv)
qed

lemma cancellation_step_documented:
  assumes "notify_waiters_contract notify" and "cancellation_step notify s l t"
  shows "cancellation_step documented_notify s l t"
  using assms(2,1)
  by (cases rule: cancellation_step.cases)
    (auto intro: cancellation_step.intros simp: notify_waiters_contract_def)

lemma cancellation_reachable_inv:
  assumes "notify_waiters_contract notify"
    and "run (cancellation_step notify) initial_cancellation ls s"
  shows "cancellation_inv s"
proof -
  have "run (cancellation_step documented_notify) initial_cancellation ls s"
    using assms(2) cancellation_step_documented [OF assms(1)] by (rule run_weaken)
  then show ?thesis by (blast intro: cancellation.reachable_inv)
qed

section \<open>Every waiter gets through\<close>

text \<open>
  Once the word has moved and the notification is out, a waiter inside \<open>cancelled()\<close>
  returns by its own steps, whatever point of the loop it is at: each of them brings it
  closer.
\<close>

fun steps_to_return :: "waiter_pc \<Rightarrow> nat" where
  "steps_to_return Returned = 0"
| "steps_to_return Enabled = 1"
| "steps_to_return Created = 2"
| "steps_to_return LoopTop = 3"
| "steps_to_return Awaiting = 4"
| "steps_to_return WaiterIdle = 4"

lemma waiter_step_frame:
  assumes "cancellation_step notify s (Waiter i) t"
  shows "cs_value t = cs_value s" and "cs_notify_pending t = cs_notify_pending s"
  using assms by (auto elim: cancellation_stepE)

lemma waiter_progress:
  assumes "cancellation_inv s" and "cs_value s \<noteq> ACTIVE" and "\<not> cs_notify_pending s"
    and "w_pc (cs_waiters s i) \<noteq> Returned"
  shows "\<exists>t. cancellation_step notify s (Waiter i) t \<and>
    steps_to_return (w_pc (cs_waiters s i)) = Suc (steps_to_return (w_pc (cs_waiters t i)))"
proof (cases "w_pc (cs_waiters s i)")
  case Awaiting
  with assms have "w_notified (cs_waiters s i)" by (auto simp: cancellation_inv_def)
  from woken [OF Awaiting this, of notify] Awaiting show ?thesis by (intro exI conjI) auto
next
  case WaiterIdle
  from call_cancelled [OF this, of notify] WaiterIdle show ?thesis by (intro exI conjI) auto
next
  case LoopTop
  from create_notified [OF this, of notify] LoopTop show ?thesis by (intro exI conjI) auto
next
  case Created
  from enable [OF this, of notify] Created show ?thesis by (intro exI conjI) auto
next
  case Enabled
  from load_ended [OF this assms(2), of notify] Enabled show ?thesis by (intro exI conjI) auto
qed (use assms(4) in simp)

lemma waiter_returns:
  assumes "notify_waiters_contract notify"
    and "cancellation_inv s" and "cs_value s \<noteq> ACTIVE" and "\<not> cs_notify_pending s"
  shows "\<exists>t. run (cancellation_step notify) s
           (replicate (steps_to_return (w_pc (cs_waiters s i))) (Waiter i)) t \<and>
         w_pc (cs_waiters t i) = Returned"
  using assms(2-)
proof (induction "steps_to_return (w_pc (cs_waiters s i))" arbitrary: s)
  case 0
  then have "w_pc (cs_waiters s i) = Returned"
    by (cases "w_pc (cs_waiters s i)") simp_all
  with 0 show ?case by (auto intro: run.run_nil)
next
  case (Suc n)
  then have "w_pc (cs_waiters s i) \<noteq> Returned" by auto
  with Suc.prems obtain t where step: "cancellation_step notify s (Waiter i) t"
    and rank: "steps_to_return (w_pc (cs_waiters s i)) = Suc (steps_to_return (w_pc (cs_waiters t i)))"
    using waiter_progress by blast
  have "cancellation_inv t"
    using cancellation_step_documented [OF assms(1) step] Suc.prems(1)
    by (rule cancellation_step_inv)
  with Suc.hyps(1) [of t] Suc.hyps(2) Suc.prems rank waiter_step_frame [OF step]
  obtain u where "run (cancellation_step notify) t
      (replicate (steps_to_return (w_pc (cs_waiters t i))) (Waiter i)) u"
    and "w_pc (cs_waiters u i) = Returned" by auto
  with run_cons [where step = "cancellation_step notify", OF step] rank show ?case by auto
qed

end
