(* ===== verification/Artifacts.thy ===== *)
theory Artifacts
  imports Validation Cancel_Token
begin

text \<open>
  \<open>src/runtime/host/artifact.rs\<close>: what makes an artifact descriptor acceptable, how its
  source is checked against it before any byte is sent, and how it is cut into chunks.
  The source is any type with \<open>AsyncRead + AsyncSeek\<close>: a record of its operations is a
  parameter, and the locale \<open>seekable_source\<close> is the contract of those traits, which
  \<open>std::io::Cursor\<close> meets. SHA-256 is the parameter \<open>sha\<close>. On a 64-bit target \<open>usize\<close>
  holds every \<open>u64\<close>, so \<open>usize::try_from\<close> is the identity.
\<close>

definition ARTIFACT_IO_BUFFER_BYTES :: u64 where
  "ARTIFACT_IO_BUFFER_BYTES = 64 * 1024"

definition MAXIMUM_ARTIFACT_FILE_NAME_BYTES :: nat where
  "MAXIMUM_ARTIFACT_FILE_NAME_BYTES = 191"

definition SHA256_DIGEST_BYTES :: nat where
  "SHA256_DIGEST_BYTES = 32"

record artifact_plan =
  ap_chunk_bytes :: u64
  ap_chunk_count :: u32

section \<open>Descriptors\<close>

definition validate_descriptor ::
  "uuid_parser \<Rightarrow> artifact_descriptor \<Rightarrow> plugin_artifact_id sdk_result" where
  "validate_descriptor parse_uuid descriptor =
     and_then
       (ok_or (InvalidArgument ''artifact ID must be a canonical UUID v4'')
         (option_filter (\<lambda>id. canonical_uuid_v4 parse_uuid (plugin_artifact_id_value id))
           (art_artifact_id descriptor)))
       (\<lambda>artifact_id.
          let file_name = art_file_name descriptor
          in if file_name = [] \<or> length file_name > MAXIMUM_ARTIFACT_FILE_NAME_BYTES \<or>
                file_name = ''.'' \<or> file_name = ''..'' \<or>
                CHR 0x00 \<in> set file_name \<or> CHR ''/'' \<in> set file_name
             then Inl (InvalidArgument
               ''artifact file name must be one safe UTF-8 basename of at most 191 bytes'')
             else if art_media_type descriptor = [] \<or>
                     length (art_sha256 descriptor) \<noteq> SHA256_DIGEST_BYTES
             then Inl (InvalidArgument
               ''artifact media type and 32-byte SHA-256 are required'')
             else Inr artifact_id)"

section \<open>Chunk plans\<close>

definition u32_try_from :: "u64 \<Rightarrow> u32 option" where
  "u32_try_from x = (if unat x < 2 ^ 32 then Some (ucast x) else None)"

definition artifact_plan :: "u64 \<Rightarrow> u64 \<Rightarrow> artifact_plan sdk_result" where
  "artifact_plan size_bytes maximum_chunk_bytes =
     (if maximum_chunk_bytes = 0
      then Inl (Protocol ''host advertised a zero artifact chunk limit'')
      else
        let chunk_bytes = min maximum_chunk_bytes ARTIFACT_IO_BUFFER_BYTES
        in and_then
             (if size_bytes = 0 then Inr 0
              else and_then
                (ok_or (InvalidArgument ''artifact chunk count overflowed'')
                  (checked_add size_bytes (chunk_bytes - 1)))
                (\<lambda>sum. Inr (sum div chunk_bytes)))
             (\<lambda>count. and_then
                (ok_or (InvalidArgument ''artifact has too many chunks'') (u32_try_from count))
                (\<lambda>chunk_count. Inr \<lparr>ap_chunk_bytes = chunk_bytes, ap_chunk_count = chunk_count\<rparr>)))"

section \<open>Sources\<close>

record 's async_source =
  as_read :: "'s \<Rightarrow> nat \<Rightarrow> (error_source + bytes) \<times> 's"
  as_read_exact :: "'s \<Rightarrow> nat \<Rightarrow> (error_source + bytes) \<times> 's"
  as_stream_position :: "'s \<Rightarrow> (error_source + u64) \<times> 's"
  as_seek_start :: "'s \<Rightarrow> u64 \<Rightarrow> (error_source + u64) \<times> 's"

record 'h sha256 =
  sha_new :: 'h
  sha_update :: "'h \<Rightarrow> bytes \<Rightarrow> 'h"
  sha_finalize :: "'h \<Rightarrow> bytes"

text \<open>
  \<open>cancelled k\<close> says whether \<open>cancelled()\<close> is ready when the \<open>k\<close>-th \<open>select!\<close> is polled;
  the macro is \<open>biased\<close>, so it is asked first. The loop reads until the source reports the
  end; it need not end for an arbitrary source, hence the option.
\<close>

partial_function (option) hash_source ::
  "'s async_source \<Rightarrow> 'h sha256 \<Rightarrow> (nat \<Rightarrow> bool) \<Rightarrow> nat \<Rightarrow> 's \<Rightarrow> u64 \<Rightarrow> 'h \<Rightarrow>
   ((u64 \<times> 'h) sdk_result \<times> 's) option" where
  "hash_source src sha cancelled k source size_read h =
     (if cancelled k then Some (Inl Cancelled, source)
      else case as_read src source (unat ARTIFACT_IO_BUFFER_BYTES) of
        (Inl error, source1) \<Rightarrow>
          Some (Inl (runtime ''read artifact source for validation'' error), source1)
      | (Inr data, source1) \<Rightarrow>
          if data = [] then Some (Inr (size_read, h), source1)
          else case checked_add size_read (of_nat (length data)) of
            None \<Rightarrow> Some (Inl (InvalidArgument ''artifact size overflowed''), source1)
          | Some size_read1 \<Rightarrow>
              hash_source src sha cancelled (Suc k) source1 size_read1 (sha_update sha h data))"

definition rewind_source ::
  "'s async_source \<Rightarrow> bool \<Rightarrow> u64 \<Rightarrow> 's \<Rightarrow> unit sdk_result \<times> 's" where
  "rewind_source src cancelled start source =
     (if cancelled then (Inl Cancelled, source)
      else case as_seek_start src source start of
        (Inl error, source1) \<Rightarrow>
          (Inl (runtime ''rewind validated artifact source'' error), source1)
      | (Inr _, source1) \<Rightarrow> (Inr (), source1))"

definition source_position ::
  "'s async_source \<Rightarrow> bool \<Rightarrow> 's \<Rightarrow> u64 sdk_result \<times> 's" where
  "source_position src cancelled source =
     (if cancelled then (Inl Cancelled, source)
      else case as_stream_position src source of
        (Inl error, source1) \<Rightarrow>
          (Inl (runtime ''inspect artifact source position'' error), source1)
      | (Inr position, source1) \<Rightarrow> (Inr position, source1))"

text \<open>The polls of \<open>cancelled\<close> are numbered: 0 the position, 1 the rewind, then the reads.\<close>

definition validate_source ::
  "'s async_source \<Rightarrow> 'h sha256 \<Rightarrow> (nat \<Rightarrow> bool) \<Rightarrow> artifact_descriptor \<Rightarrow> 's \<Rightarrow>
   (unit sdk_result \<times> 's) option" where
  "validate_source src sha cancelled descriptor source =
     (case source_position src (cancelled 0) source of
        (Inl e, source1) \<Rightarrow> Some (Inl e, source1)
      | (Inr start, source1) \<Rightarrow>
          (case hash_source src sha cancelled 2 source1 0 (sha_new sha) of
             None \<Rightarrow> None
           | Some (Inl e, source2) \<Rightarrow> Some (Inl e, source2)
           | Some (Inr (size_read, h), source2) \<Rightarrow>
               Some (st_and_then (rewind_source src (cancelled 1) start source2)
                 (\<lambda>_ source3.
                    (if size_read \<noteq> art_size_bytes descriptor \<or>
                        sha_finalize sha h \<noteq> art_sha256 descriptor
                     then Inl (InvalidArgument ''artifact size or SHA-256 does not match its source'')
                     else Inr (), source3)))))"

section \<open>Accepted descriptors\<close>

definition safe_basename :: "string \<Rightarrow> bool" where
  "safe_basename name \<longleftrightarrow>
     name \<noteq> [] \<and> length name \<le> 191 \<and> name \<noteq> ''.'' \<and> name \<noteq> ''..'' \<and>
     CHR 0x00 \<notin> set name \<and> CHR ''/'' \<notin> set name"

lemma validate_descriptor_Inr_iff:
  "validate_descriptor p d = Inr aid \<longleftrightarrow>
     art_artifact_id d = Some aid \<and> canonical_uuid_v4 p (plugin_artifact_id_value aid) \<and>
     safe_basename (art_file_name d) \<and> art_media_type d \<noteq> [] \<and> length (art_sha256 d) = 32"
  by (auto simp: validate_descriptor_def result_simps safe_basename_def Let_def
      MAXIMUM_ARTIFACT_FILE_NAME_BYTES_def SHA256_DIGEST_BYTES_def split: if_splits)

section \<open>Chunk plans are exact\<close>

lemma chunk_bytes_bounds:
  fixes m :: u64
  assumes "m \<noteq> 0"
  defines "c \<equiv> unat (min m ARTIFACT_IO_BUFFER_BYTES)"
  shows "c = min (unat m) 65536" and "0 < c" and "unat (min m ARTIFACT_IO_BUFFER_BYTES - 1) = c - 1"
proof -
  show c: "c = min (unat m) 65536"
    by (simp add: c_def ARTIFACT_IO_BUFFER_BYTES_def min_def word_le_nat_alt)
  show pos: "0 < c" using assms(1) by (simp add: c unat_gt_0)
  show "unat (min m ARTIFACT_IO_BUFFER_BYTES - 1) = c - 1"
    using pos unfolding c_def by (simp add: unat_minus_one unat_gt_0)
qed

lemma ceil_div_zero: "0 < (c :: nat) \<Longrightarrow> (0 + (c - 1)) div c = 0"
  by simp

lemma artifact_plan_Inr_iff:
  fixes size maximum :: u64
  defines "c \<equiv> min (unat maximum) 65536"
  defines "n \<equiv> (unat size + (c - 1)) div c"
  shows "artifact_plan size maximum = Inr plan \<longleftrightarrow>
    maximum \<noteq> 0 \<and> (size = 0 \<or> unat size + (c - 1) < 2 ^ 64) \<and> n < 2 ^ 32 \<and>
    unat (ap_chunk_bytes plan) = c \<and> unat (ap_chunk_count plan) = n"
proof (cases "maximum = 0")
  case True
  then show ?thesis by (simp add: artifact_plan_def)
next
  case False
  let ?cb = "min maximum ARTIFACT_IO_BUFFER_BYTES"
  note cb = chunk_bytes_bounds [OF False, folded c_def]
  let ?count = "if size = 0 then Inr 0
    else and_then (ok_or (InvalidArgument ''artifact chunk count overflowed'')
           (checked_add size (?cb - 1))) (\<lambda>sum. Inr (sum div ?cb))"
  have count: "?count = Inr x \<longleftrightarrow> (size = 0 \<or> unat size + (c - 1) < 2 ^ 64) \<and> unat x = n" for x
  proof (cases "size = 0")
    case True
    then show ?thesis using cb by (auto simp: n_def unat_eq_0)
  next
    case False
    have "unat ((size + (?cb - 1)) div ?cb) = n" if "unat size + (c - 1) < 2 ^ 64"
      using that cb by (simp add: n_def unat_div unat_word_ariths)
    with False show ?thesis
      by (auto simp: and_then_Inr_iff ok_or_Inr_iff checked_add_Some_iff cb
          dest: word_unat_eq_iff [THEN iffD2])
  qed
  have u32: "u32_try_from x = Some y \<longleftrightarrow> unat x < 2 ^ 32 \<and> unat y = unat x" for x y
    by (auto simp: u32_try_from_def word_unat_eq_iff unsigned_ucast_eq unsigned_take_bit_eq
        take_bit_nat_def)
  have plan: "\<lparr>ap_chunk_bytes = ?cb, ap_chunk_count = k\<rparr> = plan \<longleftrightarrow>
      unat (ap_chunk_bytes plan) = c \<and> k = ap_chunk_count plan" for k
    using cb(1) c_def by (cases plan) (auto simp: word_unat_eq_iff)
  have eq: "artifact_plan size maximum = and_then ?count
      (\<lambda>count. and_then
         (ok_or (InvalidArgument ''artifact has too many chunks'') (u32_try_from count))
         (\<lambda>chunk_count. Inr \<lparr>ap_chunk_bytes = ?cb, ap_chunk_count = chunk_count\<rparr>))"
    using False by (simp add: artifact_plan_def Let_def)
  have "unat (of_nat n :: u64) = n" if "n < 2 ^ 32"
    using that by (simp add: unat_of_nat take_bit_nat_def)
  then show ?thesis
    unfolding eq and_then_Inr_iff count ok_or_Inr_iff u32 sum.inject plan
    using False by metis
qed

text \<open>The lengths the transfer loop gives its chunks.\<close>

fun chunk_lengths :: "nat \<Rightarrow> nat \<Rightarrow> nat \<Rightarrow> nat list" where
  "chunk_lengths chunk_bytes 0 remaining = []"
| "chunk_lengths chunk_bytes (Suc n) remaining =
     (let len = min remaining chunk_bytes
      in len # chunk_lengths chunk_bytes n (remaining - len))"

lemma chunk_lengths_sum:
  "remaining \<le> n * chunk_bytes \<Longrightarrow> sum_list (chunk_lengths chunk_bytes n remaining) = remaining"
proof (induction n arbitrary: remaining)
  case 0
  then show ?case by simp
next
  case (Suc n)
  then have "remaining - min remaining chunk_bytes \<le> n * chunk_bytes" by auto
  from Suc.IH [OF this] show ?case by (simp add: Let_def)
qed

lemma ceil_div_bounds:
  fixes s c :: nat
  assumes "0 < c"
  defines "n \<equiv> (s + (c - 1)) div c"
  shows "s \<le> n * c" and "n = 0 \<longleftrightarrow> s = 0" and "0 < s \<Longrightarrow> (n - 1) * c < s"
proof -
  have eq: "n * c + (s + (c - 1)) mod c = s + (c - 1)"
    unfolding n_def by (rule div_mult_mod_eq)
  moreover have lt: "(s + (c - 1)) mod c < c" using assms(1) by simp
  ultimately show le: "s \<le> n * c" by linarith
  show "n = 0 \<longleftrightarrow> s = 0" using assms(1) le by (auto simp: n_def)
  show "(n - 1) * c < s" if "0 < s"
    using eq that assms(1) by (simp add: diff_mult_distrib)
qed

lemma chunk_lengths_bounds:
  assumes "l \<in> set (chunk_lengths c n remaining)" and "(n - 1) * c < remaining" and "0 < c"
  shows "0 < l \<and> l \<le> c"
  using assms
proof (induction n arbitrary: remaining)
  case 0
  then show ?case by simp
next
  case (Suc n)
  show ?case
  proof (cases "l = min remaining c")
    case True
    with Suc.prems show ?thesis by auto
  next
    case False
    with Suc.prems have mem: "l \<in> set (chunk_lengths c n (remaining - min remaining c))"
      by (auto simp: Let_def)
    then have "0 < n" by (cases n) auto
    with Suc.prems have "(n - 1) * c < remaining - min remaining c"
      by (cases n) auto
    with Suc.IH mem Suc.prems show ?thesis by blast
  qed
qed

section \<open>The contract of a seekable source\<close>

text \<open>
  \<open>view\<close> is what a source stands for: its bytes and its position. A read returns a prefix
  of what is left, of a length of the source's choosing, and nothing only at the end; a
  \<open>read_exact\<close> returns exactly what it was asked for. Any operation may fail.
\<close>

locale seekable_source =
  fixes src :: "'s async_source"
    and view :: "'s \<Rightarrow> bytes \<times> nat"
  assumes read_prefix: "as_read src s n = (Inr data, t) \<Longrightarrow> view s = (content, p) \<Longrightarrow>
      data = take (length data) (drop p content) \<and> length data \<le> n \<and>
      view t = (content, p + length data)"
    and read_end: "as_read src s n = (Inr [], t) \<Longrightarrow> view s = (content, p) \<Longrightarrow> 0 < n \<Longrightarrow>
      length content \<le> p"
    and read_exact: "as_read_exact src s n = (Inr data, t) \<Longrightarrow> view s = (content, p) \<Longrightarrow>
      data = take n (drop p content) \<and> length data = n \<and> view t = (content, p + n)"
    and position: "as_stream_position src s = (Inr q, t) \<Longrightarrow> view t = view s \<and> unat q = snd (view s)"
    and seek: "as_seek_start src s q = (Inr q', t) \<Longrightarrow> view t = (fst (view s), unat q)"
begin

lemma read_length:
  assumes "as_read src s n = (Inr data, t)" and "view s = (content, p)"
  shows "length data \<le> length content - p"
proof -
  from read_prefix [OF assms] have "length data = length (take (length data) (drop p content))"
    by simp
  then show ?thesis by simp
qed

text \<open>
  The hashing loop ends, and when it succeeds it has seen exactly the bytes that were left.
\<close>

lemma hash_source_returns:
  assumes "view s = (content, p)"
  shows "\<exists>r t. hash_source src sha cancelled k s size0 h = Some (r, t) \<and>
    (\<forall>size1 h1. r = Inr (size1, h1) \<longrightarrow>
       (\<exists>chunks. concat chunks = drop p content \<and> h1 = foldl (sha_update sha) h chunks \<and>
          unat size1 = unat size0 + length (drop p content) \<and> fst (view t) = content))"
  using assms
proof (induction "length content - p" arbitrary: k s p size0 h rule: less_induct)
  case less
  obtain q t where read: "as_read src s (unat ARTIFACT_IO_BUFFER_BYTES) = (q, t)"
    by (cases "as_read src s (unat ARTIFACT_IO_BUFFER_BYTES)")
  consider (stop) "cancelled k \<or> (\<exists>e. q = Inl e)"
    | (eof) "\<not> cancelled k" "q = Inr []"
    | (overflow) data where "\<not> cancelled k" "q = Inr data" "data \<noteq> []"
        "checked_add size0 (of_nat (length data)) = None"
    | (more) data size1 where "\<not> cancelled k" "q = Inr data" "data \<noteq> []"
        "checked_add size0 (of_nat (length data)) = Some size1"
    by (cases q) (blast, metis option.exhaust)
  then show ?case
  proof cases
    case stop
    with read show ?thesis by (subst hash_source.simps) auto
  next
    case eof
    have "0 < unat ARTIFACT_IO_BUFFER_BYTES" by (simp add: ARTIFACT_IO_BUFFER_BYTES_def)
    with read eof less.prems have "drop p content = []" and "fst (view t) = content"
      using read_end read_prefix [of s _ "[]" t content p] by auto
    with eof read show ?thesis
      by (subst hash_source.simps) (auto intro!: exI [of _ "[]"])
  next
    case overflow
    with read show ?thesis by (subst hash_source.simps) simp
  next
    case (more data size1)
    note step = read_prefix [OF read [unfolded more(2)] less.prems]
      and bound = read_length [OF read [unfolded more(2)] less.prems]
    have "length data \<le> unat ARTIFACT_IO_BUFFER_BYTES" using step by simp
    then have "unat (of_nat (length data) :: u64) = length data"
      by (simp add: ARTIFACT_IO_BUFFER_BYTES_def unat_of_nat take_bit_nat_def)
    with more(4) have size1: "unat size1 = unat size0 + length data"
      by (simp add: checked_add_SomeD)
    have "length content - (p + length data) < length content - p"
      using bound more(3) by (cases data) auto
    from less.hyps [OF this, of t "Suc k" size1 "sha_update sha h data"] step
    obtain r u where IH: "hash_source src sha cancelled (Suc k) t size1 (sha_update sha h data) = Some (r, u)"
      "\<And>size2 h2. r = Inr (size2, h2) \<Longrightarrow> \<exists>chunks. concat chunks = drop (p + length data) content \<and>
         h2 = foldl (sha_update sha) (sha_update sha h data) chunks \<and>
         unat size2 = unat size1 + length (drop (p + length data) content) \<and> fst (view u) = content"
      by auto
    have split: "drop p content = data @ drop (p + length data) content"
      using step by (metis add.commute append_take_drop_id drop_drop)
    have "\<exists>chunks. concat chunks = drop p content \<and> h2 = foldl (sha_update sha) h chunks \<and>
        unat size2 = unat size0 + length (drop p content) \<and> fst (view u) = content"
      if "r = Inr (size2, h2)" for size2 h2
    proof -
      from IH(2) [OF that] obtain chunks where "concat chunks = drop (p + length data) content"
        "h2 = foldl (sha_update sha) (sha_update sha h data) chunks"
        "unat size2 = unat size1 + length (drop (p + length data) content)" "fst (view u) = content"
        by blast
      with split size1 show ?thesis by (intro exI [of _ "data # chunks"]) simp
    qed
    with more read IH(1) show ?thesis by (subst hash_source.simps) simp
  qed
qed

end

text \<open>
  The incremental interface of SHA-256 and its one-shot digest: however the bytes are cut,
  the digest is that of their concatenation.
\<close>

definition sha256_contract :: "'h sha256 \<Rightarrow> (bytes \<Rightarrow> bytes) \<Rightarrow> bool" where
  "sha256_contract sha digest \<longleftrightarrow>
     (\<forall>chunks. sha_finalize sha (foldl (sha_update sha) (sha_new sha) chunks) = digest (concat chunks))"

definition describes :: "(bytes \<Rightarrow> bytes) \<Rightarrow> artifact_descriptor \<Rightarrow> bytes \<Rightarrow> bool" where
  "describes digest descriptor data \<longleftrightarrow>
     unat (art_size_bytes descriptor) = length data \<and> digest data = art_sha256 descriptor"

context seekable_source
begin

lemma source_position_ok:
  "source_position src c s = (Inr q, t) \<Longrightarrow> view t = view s \<and> unat q = snd (view s)"
  by (auto simp: source_position_def split: if_splits prod.splits sum.splits dest: position)

lemma rewind_source_ok:
  "rewind_source src c q s = (Inr u, t) \<Longrightarrow> view t = (fst (view s), unat q)"
  by (auto simp: rewind_source_def split: if_splits prod.splits sum.splits dest: seek)

lemma validate_source_returns:
  assumes "view s = (content, p)" and "sha256_contract sha digest"
  shows "\<exists>r t. validate_source src sha cancelled descriptor s = Some (r, t) \<and>
    (r = Inr () \<longrightarrow> view t = view s \<and> describes digest descriptor (drop p content))"
proof (cases "source_position src (cancelled 0) s")
  case (Pair q s1)
  show ?thesis
  proof (cases q)
    case (Inl e)
    with Pair show ?thesis by (simp add: validate_source_def)
  next
    case (Inr start)
    with Pair source_position_ok assms(1) have s1: "view s1 = (content, p)" "unat start = p" by auto
    obtain r t where hash: "hash_source src sha cancelled 2 s1 0 (sha_new sha) = Some (r, t)"
      and ok: "\<And>size1 h1. r = Inr (size1, h1) \<Longrightarrow> \<exists>chunks. concat chunks = drop p content \<and>
        h1 = foldl (sha_update sha) (sha_new sha) chunks \<and>
        unat size1 = length (drop p content) \<and> fst (view t) = content"
      using hash_source_returns [OF s1(1), of sha cancelled 2 0 "sha_new sha"] by auto
    show ?thesis
    proof (cases r)
      case (Inl e)
      with Pair Inr hash show ?thesis by (simp add: validate_source_def)
    next
      case (Inr sh)
      obtain size1 h1 where sh: "sh = (size1, h1)" by (cases sh)
      with ok Inr obtain chunks where h1: "concat chunks = drop p content"
        "h1 = foldl (sha_update sha) (sha_new sha) chunks"
        "unat size1 = length (drop p content)" "fst (view t) = content" by blast
      then have digest: "sha_finalize sha h1 = digest (drop p content)"
        using assms(2) by (simp add: sha256_contract_def)
      obtain q2 u where rewind: "rewind_source src (cancelled 1) start t = (q2, u)"
        by (cases "rewind_source src (cancelled 1) start t")
      have "view u = (content, p)" if "q2 = Inr ()"
        using rewind_source_ok rewind that h1(4) s1(2) by simp
      with Pair \<open>q = Inr start\<close> hash Inr sh rewind digest h1(3) assms(1) show ?thesis
        by (cases q2) (auto simp: validate_source_def describes_def)
    qed
  qed
qed

end

section \<open>std::io::Cursor\<close>

text \<open>
  The source the repository's conformance plugin transfers. Reads are never short but at the
  end. A vector holds fewer than \<open>2 ^ 63\<close> bytes, so a position reached by reading fits a
  \<open>u64\<close>.
\<close>

record cursor =
  cur_bytes :: bytes
  cur_position :: nat

definition cursor_source :: "cursor async_source" where
  "cursor_source =
     \<lparr>as_read = (\<lambda>c n. let data = take n (drop (cur_position c) (cur_bytes c))
        in (Inr data, c\<lparr>cur_position := cur_position c + length data\<rparr>)),
      as_read_exact = (\<lambda>c n. let data = take n (drop (cur_position c) (cur_bytes c));
            c1 = c\<lparr>cur_position := cur_position c + length data\<rparr>
        in (if length data = n then Inr data else Inl ''early eof'', c1)),
      as_stream_position = (\<lambda>c.
        (if cur_position c < 2 ^ 64 then Inr (of_nat (cur_position c))
         else Inl ''position out of range'', c)),
      as_seek_start = (\<lambda>c q. (Inr q, c\<lparr>cur_position := unat q\<rparr>))\<rparr>"

definition cursor_view :: "cursor \<Rightarrow> bytes \<times> nat" where
  "cursor_view c = (cur_bytes c, cur_position c)"

interpretation cursor: seekable_source cursor_source cursor_view
  by unfold_locales
    (auto simp: cursor_source_def cursor_view_def Let_def unat_of_nat take_bit_nat_def min_def
      split: if_splits)

end
