(* ===== verification/Action_Context.thy ===== *)
theory Action_Context
  imports Host_Client Host_Calls Artifacts "HOL-Library.Sublist"
begin

text \<open>
  \<open>src/runtime/host.rs\<close>: an action's result and its context. The operations of a context
  run on the session's \<^typ>\<open>host_client\<close>. At every await the environment decides what
  happens, and each is a parameter: the state word an \<open>ensure_active\<close> loads, the point at
  which a \<open>select!\<close> on \<open>cancelled()\<close> drops the other future, and what the rest of the session
  does meanwhile.
\<close>

section \<open>Results\<close>

record stored_artifact =
  sa_job_id :: string
  sa_descriptor :: artifact_descriptor

record action_result =
  ar_result :: "config_value option"
  ar_artifacts :: "stored_artifact list"

definition empty_result :: action_result where
  "empty_result = \<lparr>ar_result = None, ar_artifacts = []\<rparr>"

definition value_result :: "config_value \<Rightarrow> action_result sdk_result" where
  "value_result value =
     and_then (validate_serializable value)
       (\<lambda>_. Inr \<lparr>ar_result = Some value, ar_artifacts = []\<rparr>)"

definition with_artifact :: "stored_artifact \<Rightarrow> action_result \<Rightarrow> action_result" where
  "with_artifact artifact result = result\<lparr>ar_artifacts := ar_artifacts result @ [artifact]\<rparr>"

text \<open>The loop of \<open>into_wire\<close>; \<^const>\<open>None\<close> is the panic of its \<open>expect\<close>.\<close>

fun check_artifacts ::
  "string \<Rightarrow> string list \<Rightarrow> stored_artifact list \<Rightarrow> unit sdk_result option" where
  "check_artifacts jid artifact_ids [] = Some (Inr ())"
| "check_artifacts jid artifact_ids (artifact # artifacts) =
     (if sa_job_id artifact \<noteq> jid
      then Some (Inl (InvalidArgument
        ''job results may reference only artifacts stored by that job''))
      else case art_artifact_id (sa_descriptor artifact) of
        None \<Rightarrow> None
      | Some artifact_id \<Rightarrow>
          if plugin_artifact_id_value artifact_id \<in> set artifact_ids
          then Some (Inl (InvalidArgument
            ''job results must not reference the same artifact more than once''))
          else check_artifacts jid (plugin_artifact_id_value artifact_id # artifact_ids) artifacts)"

definition into_wire ::
  "action_result \<Rightarrow> string \<Rightarrow> (config_value option \<times> artifact_descriptor list) sdk_result option" where
  "into_wire result jid =
     (case (case ar_result result of Some v \<Rightarrow> validate_serializable v | None \<Rightarrow> Inr ()) of
        Inl e \<Rightarrow> Some (Inl e)
      | Inr _ \<Rightarrow>
          map_option
            (\<lambda>checked. and_then checked
               (\<lambda>_. Inr (ar_result result, map sa_descriptor (ar_artifacts result))))
            (check_artifacts jid [] (ar_artifacts result)))"

section \<open>Awaiting under cancellation\<close>

record action_context =
  ac_job_id :: string
  ac_deadline :: "timestamp option"
  ac_trace :: trace_context
  ac_parent_call_id :: u64

text \<open>
  How far the future in a \<open>select!\<close> gets before \<open>cancelled()\<close> is ready: to its end, or to
  the sender's lock, to the channel, or to the response it waits for.
\<close>

datatype fate = Completes | DroppedAtLock | DroppedAtChannel | DroppedWaiting

record await_env =
  ae_word :: u8
  ae_fate :: fate
  ae_response :: nat
  ae_world :: "u64 \<Rightarrow> host_client \<Rightarrow> (error_source + payload) \<times> host_client"

definition select_request ::
  "trace_context \<Rightarrow> payload \<Rightarrow> await_env \<Rightarrow> host_client \<Rightarrow> payload sdk_result \<times> host_client" where
  "select_request trace payload env hc =
     (case ae_fate env of
        Completes \<Rightarrow> request trace payload (ae_response env) (ae_world env) hc
      | DroppedAtLock \<Rightarrow> (Inl Cancelled, hc)
      | DroppedAtChannel \<Rightarrow>
          st_and_then (abandon_unsent_request trace (ae_response env) hc)
            (\<lambda>_ hc1. (Inl Cancelled, hc1))
      | DroppedWaiting \<Rightarrow>
          st_and_then (begin_request trace payload (ae_response env) hc)
            (\<lambda>(mid, guard) hc1.
               (Inl Cancelled, abandon_sent_request guard (snd (ae_world env mid hc1)))))"

text \<open>A plain send has nothing to wait for once its envelope is in the channel.\<close>

definition select_send ::
  "trace_context \<Rightarrow> payload \<Rightarrow> fate \<Rightarrow> host_client \<Rightarrow> unit sdk_result \<times> host_client" where
  "select_send trace payload fate hc =
     (case fate of
        DroppedAtLock \<Rightarrow> (Inl Cancelled, hc)
      | DroppedAtChannel \<Rightarrow>
          (let (result, (sender, _)) =
                 abandon_enqueue (\<lambda>_ r. Inr ((), r)) (\<lambda>_ r. r) (hc_sender hc, ())
           in (and_then result (\<lambda>_. Inl Cancelled), hc\<lparr>hc_sender := sender\<rparr>))
      | _ \<Rightarrow>
          (let (result, sender) = send None trace payload (hc_sender hc)
           in (and_then result (\<lambda>_. Inr ()), hc\<lparr>hc_sender := sender\<rparr>)))"

section \<open>Host calls\<close>

definition host_call ::
  "action_context \<Rightarrow> host_call \<Rightarrow> await_env \<Rightarrow> host_client \<Rightarrow>
   host_call_response sdk_result \<times> host_client" where
  "host_call ctx c env hc =
     st_and_then (ensure_active (ae_word env), hc) (\<lambda>_ hc.
     st_and_then (validate_call c (hc_session_id hc), hc) (\<lambda>kind hc.
     st_and_then
       (ok_or (Protocol ''host-call depth overflowed'') (checked_add (call_depth (ac_trace ctx)) 1), hc)
       (\<lambda>depth hc.
        let trace = (ac_trace ctx)
              \<lparr>parent_call_id := Some (ac_parent_call_id ctx), call_depth := depth\<rparr>
        in if call_depth trace > hc_maximum_call_depth hc
           then (Inl (Protocol ''host call exceeds the negotiated call-depth limit''), hc)
           else
             st_and_then (select_request trace (PHostCall \<lparr>hcr_call = Some c\<rparr>) env hc)
               (\<lambda>payload hc1.
                st_and_then (interpret_response payload, hc1) (\<lambda>response hc1.
                  (and_then (validate_response kind (hcr_result response) (hc_session_id hc1))
                     (\<lambda>_. Inr response), hc1))))))"

definition get_config ::
  "action_context \<Rightarrow> config_path option \<Rightarrow> await_env \<Rightarrow> host_client \<Rightarrow>
   get_config_response sdk_result \<times> host_client" where
  "get_config ctx path env hc =
     st_and_then (host_call ctx (Call_GetConfig \<lparr>gc_path = path\<rparr>) env hc)
       (\<lambda>response hc1.
          (case hcr_result response of
             Some (Result_GetConfig value) \<Rightarrow> Inr value
           | _ \<Rightarrow> Inl (Protocol ''host returned another response kind for GetConfig''), hc1))"

definition invoke_config_function ::
  "action_context \<Rightarrow> config_function_ref \<Rightarrow> config_value list \<Rightarrow> await_env \<Rightarrow> host_client \<Rightarrow>
   invoke_config_function_response sdk_result \<times> host_client" where
  "invoke_config_function ctx f arguments env hc =
     st_and_then
       (host_call ctx
          (Call_InvokeConfigFunction \<lparr>icf_function = Some f, icf_arguments = arguments\<rparr>) env hc)
       (\<lambda>response hc1.
          (case hcr_result response of
             Some (Result_InvokeConfigFunction value) \<Rightarrow> Inr value
           | _ \<Rightarrow> Inl (Protocol ''host returned another response kind for InvokeConfigFunction''),
           hc1))"

section \<open>Logging\<close>

text \<open>\<open>now\<close> is \<open>Timestamp::from(SystemTime::now())\<close>.\<close>

definition system_timestamp :: "timestamp \<Rightarrow> timestamp sdk_result" where
  "system_timestamp now =
     (if valid_timestamp now then Inr now
      else Inl (Environment ''system clock is outside the protobuf Timestamp domain''))"

fun validate_fields :: "(string \<times> config_value) list \<Rightarrow> unit sdk_result" where
  "validate_fields [] = Inr ()"
| "validate_fields ((k, v) # attributes) =
     and_then (validate_serializable v) (\<lambda>_. validate_fields attributes)"

definition log ::
  "action_context \<Rightarrow> log_level \<Rightarrow> string \<Rightarrow> string \<Rightarrow> (string \<times> config_value) list \<Rightarrow>
   timestamp \<Rightarrow> u8 \<Rightarrow> fate \<Rightarrow> host_client \<Rightarrow> unit sdk_result \<times> host_client" where
  "log ctx level target message attributes now word fate hc =
     st_and_then (ensure_active word, hc) (\<lambda>_ hc.
       if level = LogUnspecified
       then (Inl (InvalidArgument ''log level must not be unspecified''), hc)
       else if target = []
       then (Inl (InvalidArgument ''log target must not be empty''), hc)
       else
         st_and_then (validate_fields attributes, hc) (\<lambda>_ hc.
         st_and_then (system_timestamp now, hc) (\<lambda>t hc.
           select_send (ac_trace ctx)
             (PLog \<lparr>log_timestamp = Some t, log_level_field = log_level_i32 level,
                    log_target = target, log_message = message, log_fields = attributes\<rparr>)
             fate hc)))"

section \<open>Artifact transfer\<close>

definition context_request ::
  "action_context \<Rightarrow> payload \<Rightarrow> await_env \<Rightarrow> host_client \<Rightarrow> payload sdk_result \<times> host_client" where
  "context_request ctx payload env hc =
     st_and_then (ensure_active (ae_word env), hc)
       (\<lambda>_ hc. select_request (ac_trace ctx) payload env hc)"

text \<open>
  One pass of the chunk loop: the word it loads, whether the read is cancelled, how far the
  send gets, and what other tasks have sent in between.
\<close>

record chunk_env =
  ce_word :: u8
  ce_read_cancelled :: bool
  ce_fate :: fate
  ce_world :: "host_client \<Rightarrow> host_client"

definition read_chunk ::
  "'s async_source \<Rightarrow> bool \<Rightarrow> nat \<Rightarrow> 's \<Rightarrow> bytes sdk_result \<times> 's" where
  "read_chunk src cancelled len source =
     (if cancelled then (Inl Cancelled, source)
      else case as_read_exact src source len of
        (Inl error, source1) \<Rightarrow> (Inl (runtime ''read validated artifact source'' error), source1)
      | (Inr data, source1) \<Rightarrow> (Inr data, source1))"

fun transfer_chunks ::
  "'s async_source \<Rightarrow> action_context \<Rightarrow> plugin_artifact_id \<Rightarrow> u64 \<Rightarrow> (nat \<Rightarrow> chunk_env) \<Rightarrow>
   nat \<Rightarrow> nat \<Rightarrow> u64 \<Rightarrow> host_client \<Rightarrow> 's \<Rightarrow> unit sdk_result \<times> host_client \<times> 's" where
  "transfer_chunks src ctx aid chunk_bytes env index 0 remaining hc source = (Inr (), hc, source)"
| "transfer_chunks src ctx aid chunk_bytes env index (Suc n) remaining hc source =
     (case ensure_active (ce_word (env index)) of
        Inl e \<Rightarrow> (Inl e, hc, source)
      | Inr _ \<Rightarrow>
          (let len = min remaining chunk_bytes
           in case read_chunk src (ce_read_cancelled (env index)) (unat len) source of
                (Inl e, source1) \<Rightarrow> (Inl e, hc, source1)
              | (Inr data, source1) \<Rightarrow>
                  (case select_send (ac_trace ctx)
                          (PArtifactChunk \<lparr>atk_artifact_id = Some aid,
                             atk_chunk_index = of_nat index, atk_data = data\<rparr>)
                          (ce_fate (env index)) (ce_world (env index) hc) of
                     (Inl e, hc1) \<Rightarrow> (Inl e, hc1, source1)
                   | (Inr _, hc1) \<Rightarrow>
                       transfer_chunks src ctx aid chunk_bytes env (Suc index) n
                         (remaining - len) hc1 source1)))"

record store_env =
  se_entry_word :: u8
  se_polls :: "nat \<Rightarrow> bool"
  se_validated_word :: u8
  se_start :: await_env
  se_chunks :: "nat \<Rightarrow> chunk_env"
  se_complete :: await_env

definition accepts_transfer :: "plugin_artifact_id \<Rightarrow> payload \<Rightarrow> bool" where
  "accepts_transfer aid payload =
     (case payload of
        PArtifactAccepted accepted \<Rightarrow>
          is_some_and (ata_artifact_id accepted)
            (\<lambda>a. plugin_artifact_id_value a = plugin_artifact_id_value aid)
      | _ \<Rightarrow> False)"

definition confirms_storage :: "plugin_artifact_id \<Rightarrow> payload \<Rightarrow> bool" where
  "confirms_storage aid payload =
     (case payload of
        PArtifactStored stored \<Rightarrow> ast_artifact_id stored = Some aid
      | _ \<Rightarrow> False)"

text \<open>The transfer proper, once the source is known to match its descriptor.\<close>

definition transfer_artifact ::
  "'s async_source \<Rightarrow> action_context \<Rightarrow> artifact_descriptor \<Rightarrow> plugin_artifact_id \<Rightarrow>
   store_env \<Rightarrow> host_client \<Rightarrow> 's \<Rightarrow> stored_artifact sdk_result \<times> host_client \<times> 's" where
  "transfer_artifact src ctx descriptor aid env hc source =
     (case artifact_plan (art_size_bytes descriptor) (hc_maximum_artifact_chunk_bytes hc) of
        Inl e \<Rightarrow> (Inl e, hc, source)
      | Inr plan \<Rightarrow>
          (case context_request ctx
                  (PArtifactStart \<lparr>ats_job_id = Some (PluginJobId (ac_job_id ctx)),
                     ats_artifact = Some descriptor, ats_chunk_count = ap_chunk_count plan\<rparr>)
                  (se_start env) hc of
             (Inl e, hc1) \<Rightarrow> (Inl e, hc1, source)
           | (Inr start, hc1) \<Rightarrow>
               if \<not> accepts_transfer aid start
               then (Inl (Protocol ''host did not accept the same artifact transfer''), hc1, source)
               else
                 (case transfer_chunks src ctx aid (ap_chunk_bytes plan) (se_chunks env) 0
                         (unat (ap_chunk_count plan)) (art_size_bytes descriptor) hc1 source of
                    (Inl e, hc2, source1) \<Rightarrow> (Inl e, hc2, source1)
                  | (Inr _, hc2, source1) \<Rightarrow>
                      (case context_request ctx
                              (PArtifactComplete \<lparr>atc_artifact_id = Some aid\<rparr>)
                              (se_complete env) hc2 of
                         (Inl e, hc3) \<Rightarrow> (Inl e, hc3, source1)
                       | (Inr stored, hc3) \<Rightarrow>
                           (if confirms_storage aid stored
                            then Inr \<lparr>sa_job_id = ac_job_id ctx, sa_descriptor = descriptor\<rparr>
                            else Inl (Protocol ''host did not confirm the same artifact ID''),
                            hc3, source1)))))"

text \<open>\<^const>\<open>None\<close>: the source never ends.\<close>

definition store_artifact ::
  "uuid_parser \<Rightarrow> 'h sha256 \<Rightarrow> 's async_source \<Rightarrow> action_context \<Rightarrow> artifact_descriptor \<Rightarrow>
   store_env \<Rightarrow> host_client \<Rightarrow> 's \<Rightarrow> (stored_artifact sdk_result \<times> host_client \<times> 's) option" where
  "store_artifact parse_uuid sha src ctx descriptor env hc source =
     (case and_then (ensure_active (se_entry_word env))
             (\<lambda>_. validate_descriptor parse_uuid descriptor) of
        Inl e \<Rightarrow> Some (Inl e, hc, source)
      | Inr aid \<Rightarrow>
          (case validate_source src sha (se_polls env) descriptor source of
             None \<Rightarrow> None
           | Some (Inl e, source1) \<Rightarrow> Some (Inl e, hc, source1)
           | Some (Inr _, source1) \<Rightarrow>
               Some (case ensure_active (se_validated_word env) of
                  Inl e \<Rightarrow> (Inl e, hc, source1)
                | Inr _ \<Rightarrow> transfer_artifact src ctx descriptor aid env hc source1)))"

section \<open>What an await leaves on the wire\<close>

abbreviation client_wire :: "host_client \<Rightarrow> plugin_envelope list" where
  "client_wire hc \<equiv> wire_envelopes (hc_sender hc)"

abbreviation client_identity :: "host_client \<Rightarrow> session_identity" where
  "client_identity hc \<equiv> ss_identity (hc_sender hc)"

text \<open>
  An environment that respects the client: what other tasks do while this one waits keeps
  the client's invariant and only appends to the output.
\<close>

definition client_step :: "host_client \<Rightarrow> host_client \<Rightarrow> bool" where
  "client_step h h' \<longleftrightarrow>
     (client_inv h \<longrightarrow> client_inv h') \<and> extends (hc_sender h) (hc_sender h') \<and>
     hc_session_id h' = hc_session_id h"

definition tame :: "await_env \<Rightarrow> bool" where
  "tame env \<longleftrightarrow> (\<forall>mid h. client_step h (snd (ae_world env mid h)))"

lemma client_step_refl [simp, intro]: "client_step h h"
  by (simp add: client_step_def)

lemma client_step_trans: "client_step h h' \<Longrightarrow> client_step h' h'' \<Longrightarrow> client_step h h''"
  by (auto simp: client_step_def intro: extends_trans)

lemma begin_request_step:
  "begin_request trace payload response hc = (result, hc') \<Longrightarrow> client_step hc hc'"
  unfolding client_step_def
  using begin_request_inv by (blast elim: begin_request_cases)

lemma begin_request_guard_sent:
  "begin_request trace payload response hc = (Inr (mid, guard), hc') \<Longrightarrow> pg_sent guard"
  by (auto elim!: begin_request_cases)

lemma abandon_unsent_request_session:
  "abandon_unsent_request trace response hc = (result, hc') \<Longrightarrow> hc_session_id hc' = hc_session_id hc"
  by (auto simp: abandon_unsent_request_def split: prod.splits)

lemma abandon_unsent_request_step:
  "abandon_unsent_request trace response hc = (result, hc') \<Longrightarrow> client_step hc hc'"
  by (simp add: client_step_def abandon_unsent_request_keeps abandon_unsent_request_session)

text \<open>
  However the \<open>select!\<close> ends, the request is on the wire once and in its place, or not at
  all; and a result other than an error means it was sent and answered.
\<close>

lemma select_request_cases:
  assumes "select_request trace payload env hc = (result, hc')"
  obtains (unsent) e where "result = Inl e" "client_step hc hc'" "client_wire hc' = client_wire hc"
    | (sent) hc1 guard where
        "begin_request trace payload (ae_response env) hc =
           (Inr (ss_next_message_id (hc_sender hc), guard), hc1)"
        "client_wire hc1 = client_wire hc @
           [seal_envelope (client_identity hc) (ss_next_message_id (hc_sender hc)) None trace payload]"
        "hc' = snd (ae_world env (ss_next_message_id (hc_sender hc)) hc1)"
        "result = Inl Cancelled \<or>
         result = finish_request (fst (ae_world env (ss_next_message_id (hc_sender hc)) hc1))"
proof -
  obtain r hc1 where br: "begin_request trace payload (ae_response env) hc = (r, hc1)"
    by (cases "begin_request trace payload (ae_response env) hc")
  have started: thesis
    if "ae_fate env = Completes \<or> ae_fate env = DroppedWaiting"
  proof (cases rule: begin_request_cases [OF br])
    case (1 e)
    with that assms br begin_request_step [OF br] show ?thesis
      by (intro unsent [of e]) (auto simp: select_request_def request_def)
  next
    case (2 mid)
    with that assms br show ?thesis
      by (intro sent [of "\<lparr>pg_message_id = mid, pg_sent = True\<rparr>" hc1])
        (auto simp: select_request_def request_def abandon_sent_request_def split: prod.splits)
  qed
  show thesis
  proof (cases "ae_fate env")
    case DroppedAtLock
    with assms show ?thesis by (intro unsent) (auto simp: select_request_def)
  next
    case DroppedAtChannel
    obtain r' hc2 where ab: "abandon_unsent_request trace (ae_response env) hc = (r', hc2)"
      by (cases "abandon_unsent_request trace (ae_response env) hc")
    note keeps = abandon_unsent_request_step [OF ab] abandon_unsent_request_keeps(3) [OF ab]
    from assms DroppedAtChannel ab have "hc' = hc2" "\<exists>e. result = Inl e"
      by (cases r'; auto simp: select_request_def)+
    with keeps show ?thesis by (auto intro: unsent)
  qed (use started in blast)+
qed

lemma select_request_step:
  assumes "tame env" and "select_request trace payload env hc = (result, hc')"
  shows "client_step hc hc'"
  using assms(2)
proof (cases rule: select_request_cases)
  case (sent hc1 guard)
  with assms(1) show ?thesis
    by (auto simp: tame_def intro: client_step_trans begin_request_step)
qed

lemma select_send_cases:
  assumes "select_send trace payload fate hc = (result, hc')"
  obtains (unsent) e where "result = Inl e" "client_step hc hc'" "client_wire hc' = client_wire hc"
    | (sent) "result = Inr ()" "client_step hc hc'"
        "client_wire hc' = client_wire hc @
           [seal_envelope (client_identity hc) (ss_next_message_id (hc_sender hc)) None trace payload]"
proof -
  have keep: "client_step hc (hc\<lparr>hc_sender := s\<rparr>)"
    if "extends (hc_sender hc) s" "sender_inv (hc_sender hc) \<longrightarrow> sender_inv s" for s
    using that by (auto simp: client_step_def client_inv_def intro: request_on_wire_extends)
  have sending: thesis if "fate = Completes \<or> fate = DroppedWaiting"
  proof -
    obtain r s where send: "send None trace payload (hc_sender hc) = (r, s)"
      by (cases "send None trace payload (hc_sender hc)")
    have step: "client_step hc (hc\<lparr>hc_sender := s\<rparr>)"
      using keep [of s] send_extends [of "hc_sender hc" None trace payload]
        send_inv [of "hc_sender hc" None trace payload] send by simp
    have eq: "result = and_then r (\<lambda>_. Inr ())" "hc' = hc\<lparr>hc_sender := s\<rparr>"
      using assms that send by (auto simp: select_send_def)
    show thesis
    proof (cases r)
      case (Inl e)
      with send have "wire_envelopes s = client_wire hc"
        by (auto simp: send_eq wire_envelopes_def split: if_splits)
      with eq step Inl show ?thesis by (intro unsent [of e]) simp_all
    next
      case (Inr mid)
      with send have "wire_envelopes s = client_wire hc @
          [seal_envelope (client_identity hc) (ss_next_message_id (hc_sender hc)) None trace payload]"
        by (auto simp: send_eq wire_envelopes_def split: if_splits)
      with eq step Inr show ?thesis by (intro sent) simp_all
    qed
  qed
  show thesis
  proof (cases fate)
    case DroppedAtLock
    with assms show ?thesis by (intro unsent) (auto simp: select_send_def)
  next
    case DroppedAtChannel
    obtain r s where ab: "abandon_enqueue (\<lambda>_ r. Inr ((), r)) (\<lambda>_ r. r) (hc_sender hc, ()) = (r, (s, ()))"
      by (cases "abandon_enqueue (\<lambda>_ r. Inr ((), r)) (\<lambda>_ r. r) (hc_sender hc, ())") auto
    note keeps = abandon_enqueue_keeps [OF ab]
    from assms DroppedAtChannel ab have "hc' = hc\<lparr>hc_sender := s\<rparr>" "\<exists>e. result = Inl e"
      by (cases r; auto simp: select_send_def)+
    with keep [of s] keeps show ?thesis
      by (auto simp: wire_envelopes_def intro: unsent)
  qed (use sending in blast)+
qed

section \<open>Host calls\<close>

text \<open>The trace a host call of this context carries.\<close>

definition host_call_trace :: "action_context \<Rightarrow> trace_context" where
  "host_call_trace ctx = (ac_trace ctx)
     \<lparr>parent_call_id := Some (ac_parent_call_id ctx), call_depth := call_depth (ac_trace ctx) + 1\<rparr>"

definition host_call_allowed :: "action_context \<Rightarrow> host_call \<Rightarrow> host_client \<Rightarrow> bool" where
  "host_call_allowed ctx c hc \<longleftrightarrow>
     validate_call c (hc_session_id hc) = Inr (kind_of_call c) \<and>
     unat (call_depth (ac_trace ctx)) + 1 \<le> unat (hc_maximum_call_depth hc)"

lemma depth_guard:
  fixes d m :: u32
  shows "checked_add d 1 = Some e \<and> \<not> e > m \<longleftrightarrow> e = d + 1 \<and> unat d + 1 \<le> unat m"
proof -
  have "unat m < 2 ^ 32" using unsigned_less [of m] by simp
  then show ?thesis
    by (auto simp: checked_add_Some_iff word_less_nat_alt unat_word_ariths not_less)
qed

lemma host_call_cases:
  assumes "host_call ctx c env hc = (result, hc')"
  obtains (refused) e where "result = Inl e" "hc' = hc"
      "ae_word env \<noteq> ACTIVE \<or> \<not> host_call_allowed ctx c hc"
    | (requested) answer where "ae_word env = ACTIVE" "host_call_allowed ctx c hc"
      "select_request (host_call_trace ctx) (PHostCall \<lparr>hcr_call = Some c\<rparr>) env hc = (answer, hc')"
      "result = and_then (and_then answer interpret_response)
         (\<lambda>response. and_then
            (validate_response (kind_of_call c) (hcr_result response) (hc_session_id hc'))
            (\<lambda>_. Inr response))"
proof (cases "ae_word env = ACTIVE \<and> host_call_allowed ctx c hc")
  case True
  then have allowed: "ensure_active (ae_word env) = Inr ()"
    "validate_call c (hc_session_id hc) = Inr (kind_of_call c)"
    "unat (call_depth (ac_trace ctx)) + 1 \<le> unat (hc_maximum_call_depth hc)"
    by (auto simp: host_call_allowed_def ensure_active_def)
  with depth_guard [of "call_depth (ac_trace ctx)" "call_depth (ac_trace ctx) + 1"
      "hc_maximum_call_depth hc"]
  have depth: "checked_add (call_depth (ac_trace ctx)) 1 = Some (call_depth (ac_trace ctx) + 1)"
    "\<not> call_depth (ac_trace ctx) + 1 > hc_maximum_call_depth hc" by simp_all
  obtain answer hc1 where select: "select_request (host_call_trace ctx)
      (PHostCall \<lparr>hcr_call = Some c\<rparr>) env hc = (answer, hc1)"
    by (cases "select_request (host_call_trace ctx) (PHostCall \<lparr>hcr_call = Some c\<rparr>) env hc")
  with assms allowed depth
  have "st_and_then (answer, hc1) (\<lambda>payload hc1.
      st_and_then (interpret_response payload, hc1) (\<lambda>response hc1.
        (and_then (validate_response (kind_of_call c) (hcr_result response) (hc_session_id hc1))
           (\<lambda>_. Inr response), hc1))) = (result, hc')"
    by (simp add: host_call_def host_call_trace_def not_less)
  then have "hc' = hc1" "result = and_then (and_then answer interpret_response)
         (\<lambda>response. and_then
            (validate_response (kind_of_call c) (hcr_result response) (hc_session_id hc'))
            (\<lambda>_. Inr response))"
    by (cases answer; cases "and_then answer interpret_response"; auto)+
  with True select show ?thesis by (intro requested) simp_all
next
  case False
  then have "\<exists>e. host_call ctx c env hc = (Inl e, hc)"
    using depth_guard [of "call_depth (ac_trace ctx)" _ "hc_maximum_call_depth hc"]
      validate_call_kind [of c "hc_session_id hc"]
    by (cases "validate_call c (hc_session_id hc)"; cases "checked_add (call_depth (ac_trace ctx)) 1")
      (auto simp: host_call_def host_call_allowed_def ensure_active_def Let_def)
  with assms False show ?thesis by (auto intro: refused)
qed

section \<open>An artifact transfer on the wire\<close>

text \<open>The messages of one artifact's transfer, among everything that is sent.\<close>

fun concerns :: "plugin_artifact_id \<Rightarrow> payload \<Rightarrow> bool" where
  "concerns aid (PArtifactStart start) \<longleftrightarrow>
     is_some_and (ats_artifact start) (\<lambda>d. art_artifact_id d = Some aid)"
| "concerns aid (PArtifactChunk chunk) \<longleftrightarrow> atk_artifact_id chunk = Some aid"
| "concerns aid (PArtifactComplete complete) \<longleftrightarrow> atc_artifact_id complete = Some aid"
| "concerns aid _ \<longleftrightarrow> False"

fun transfer_of :: "plugin_artifact_id \<Rightarrow> plugin_envelope list \<Rightarrow> payload list" where
  "transfer_of aid [] = []"
| "transfer_of aid (e # es) =
     (case env_payload e of
        Some payload \<Rightarrow> if concerns aid payload then payload # transfer_of aid es else transfer_of aid es
      | None \<Rightarrow> transfer_of aid es)"

lemma transfer_of_append [simp]: "transfer_of aid (es @ fs) = transfer_of aid es @ transfer_of aid fs"
  by (induction es) (auto split: option.splits)

lemma transfer_of_seal [simp]:
  "concerns aid payload \<Longrightarrow> transfer_of aid [seal_envelope s mid reply trace payload] = [payload]"
  by (simp add: seal_envelope_def)

text \<open>The sequence the protocol asks for: a start, the source's bytes cut in order, an end.\<close>

fun cut :: "nat \<Rightarrow> nat \<Rightarrow> bytes \<Rightarrow> bytes list" where
  "cut chunk_bytes 0 data = []"
| "cut chunk_bytes (Suc n) data = take chunk_bytes data # cut chunk_bytes n (drop chunk_bytes data)"

lemma cut_lengths: "map length (cut c n data) = chunk_lengths c n (length data)"
  by (induction c n data rule: cut.induct) (auto simp: Let_def min_def)

lemma length_cut [simp]: "length (cut c n data) = n"
  by (induction c n data rule: cut.induct) simp_all

lemma concat_cut: "length data \<le> n * c \<Longrightarrow> concat (cut c n data) = data"
  by (induction n arbitrary: data) auto

definition chunk_message :: "plugin_artifact_id \<Rightarrow> nat \<Rightarrow> bytes \<Rightarrow> payload" where
  "chunk_message aid index data =
     PArtifactChunk \<lparr>atk_artifact_id = Some aid, atk_chunk_index = of_nat index, atk_data = data\<rparr>"

definition chunk_messages :: "plugin_artifact_id \<Rightarrow> nat \<Rightarrow> bytes list \<Rightarrow> payload list" where
  "chunk_messages aid index datas =
     map2 (chunk_message aid) [index ..< index + length datas] datas"

lemma chunk_messages_Nil [simp]: "chunk_messages aid index [] = []"
  by (simp add: chunk_messages_def)

lemma chunk_messages_Cons [simp]:
  "chunk_messages aid index (d # ds) = chunk_message aid index d # chunk_messages aid (Suc index) ds"
  by (simp add: chunk_messages_def upt_conv_Cons del: upt_Suc)

definition transfer_sequence ::
  "action_context \<Rightarrow> artifact_descriptor \<Rightarrow> plugin_artifact_id \<Rightarrow> artifact_plan \<Rightarrow> bytes \<Rightarrow> payload list" where
  "transfer_sequence ctx descriptor aid plan data =
     PArtifactStart \<lparr>ats_job_id = Some (PluginJobId (ac_job_id ctx)),
        ats_artifact = Some descriptor, ats_chunk_count = ap_chunk_count plan\<rparr>
     # chunk_messages aid 0 (cut (unat (ap_chunk_bytes plan)) (unat (ap_chunk_count plan)) data)
     @ [PArtifactComplete \<lparr>atc_artifact_id = Some aid\<rparr>]"

text \<open>Other tasks may send what they like, but not in this artifact's name.\<close>

definition adds :: "plugin_artifact_id \<Rightarrow> payload list \<Rightarrow> host_client \<Rightarrow> host_client \<Rightarrow> bool" where
  "adds aid ps h h' \<longleftrightarrow> (\<exists>es. client_wire h' = client_wire h @ es \<and> transfer_of aid es = ps)"

definition quiet_await :: "plugin_artifact_id \<Rightarrow> await_env \<Rightarrow> bool" where
  "quiet_await aid env \<longleftrightarrow> (\<forall>mid h. adds aid [] h (snd (ae_world env mid h)))"

definition quiet :: "plugin_artifact_id \<Rightarrow> store_env \<Rightarrow> bool" where
  "quiet aid env \<longleftrightarrow>
     quiet_await aid (se_start env) \<and> quiet_await aid (se_complete env) \<and>
     (\<forall>i h. adds aid [] h (ce_world (se_chunks env i) h))"

lemma adds_refl [simp, intro]: "adds aid [] h h"
  by (auto simp: adds_def)

lemma adds_same: "client_wire h' = client_wire h \<Longrightarrow> adds aid [] h h'"
  by (auto simp: adds_def)

lemma adds_trans: "adds aid ps h h' \<Longrightarrow> adds aid qs h' h'' \<Longrightarrow> adds aid (ps @ qs) h h''"
  by (fastforce simp: adds_def)

lemma adds_seal:
  "client_wire h' = client_wire h @ [seal_envelope s mid reply trace payload] \<Longrightarrow>
   concerns aid payload \<Longrightarrow> adds aid [payload] h h'"
  by (auto simp: adds_def seal_envelope_def)

lemma select_request_adds:
  assumes "select_request trace payload env hc = (result, hc')"
    and "quiet_await aid env" and "concerns aid payload"
  shows "adds aid [payload] hc hc' \<or> adds aid [] hc hc' \<and> (\<exists>e. result = Inl e)"
  using assms(1)
proof (cases rule: select_request_cases)
  case (unsent e)
  then show ?thesis by (auto intro: adds_same)
next
  case (sent hc1 guard)
  with assms(2) adds_trans [OF adds_seal [OF sent(2) assms(3)], of "[]" hc'] show ?thesis
    by (auto simp: quiet_await_def)
qed

lemma context_request_adds:
  assumes "context_request ctx payload env hc = (result, hc')"
    and "quiet_await aid env" and "concerns aid payload"
  shows "adds aid [payload] hc hc' \<or> adds aid [] hc hc' \<and> (\<exists>e. result = Inl e)"
proof (cases "ensure_active (ae_word env)")
  case (Inl e)
  with assms(1) show ?thesis by (auto simp: context_request_def)
next
  case (Inr u)
  with assms show ?thesis by (intro select_request_adds) (simp_all add: context_request_def)
qed

lemma select_send_adds:
  assumes "select_send trace payload fate hc = (result, hc')" and "concerns aid payload"
  shows "adds aid [payload] hc hc' \<and> result = Inr () \<or> adds aid [] hc hc' \<and> (\<exists>e. result = Inl e)"
  using assms(1)
  by (cases rule: select_send_cases) (auto intro: adds_same adds_seal [OF _ assms(2)])

text \<open>One pass of the loop, from the state it finds.\<close>

lemma transfer_chunks_Suc:
  fixes remaining c :: u64
  defines "len \<equiv> min remaining c"
  shows "transfer_chunks src ctx aid c env index (Suc n) remaining hc source =
    (case ensure_active (ce_word (env index)) of
       Inl e \<Rightarrow> (Inl e, hc, source)
     | Inr _ \<Rightarrow>
         (case read_chunk src (ce_read_cancelled (env index)) (unat len) source of
            (Inl e, source1) \<Rightarrow> (Inl e, hc, source1)
          | (Inr data, source1) \<Rightarrow>
              (case select_send (ac_trace ctx) (chunk_message aid index data)
                      (ce_fate (env index)) (ce_world (env index) hc) of
                 (Inl e, hc1) \<Rightarrow> (Inl e, hc1, source1)
               | (Inr _, hc1) \<Rightarrow>
                   transfer_chunks src ctx aid c env (Suc index) n (remaining - len) hc1 source1)))"
  by (simp only: transfer_chunks.simps chunk_message_def len_def Let_def)

lemma transfer_chunks_Suc_cases:
  fixes remaining c :: u64
  defines "len \<equiv> min remaining c"
  assumes "transfer_chunks src ctx aid c env index (Suc n) remaining hc source = (r, hc', source')"
    and "adds aid [] hc (ce_world (env index) hc)"
  obtains (stopped) e where "r = Inl e" "adds aid [] hc hc'"
    | (chunk_sent) data source1 hc1 where
      "as_read_exact src source (unat len) = (Inr data, source1)"
      "adds aid [chunk_message aid index data] hc hc1"
      "transfer_chunks src ctx aid c env (Suc index) n (remaining - len) hc1 source1 =
         (r, hc', source')"
proof (cases "ensure_active (ce_word (env index))")
  case (Inl e)
  with assms show ?thesis by (intro stopped [of e]) auto
next
  case (Inr u)
  note eq = assms(2) [unfolded transfer_chunks_Suc, folded len_def]
  show ?thesis
  proof (cases "read_chunk src (ce_read_cancelled (env index)) (unat len) source")
    case (Pair q source1)
    show ?thesis
    proof (cases q)
      case (Inl e)
      with eq Pair \<open>ensure_active _ = Inr u\<close> show ?thesis by (intro stopped [of e]) auto
    next
      case (Inr data)
      with Pair have read: "as_read_exact src source (unat len) = (Inr data, source1)"
        by (auto simp: read_chunk_def split: if_splits prod.splits sum.splits)
      obtain r1 hc1 where send: "select_send (ac_trace ctx) (chunk_message aid index data)
          (ce_fate (env index)) (ce_world (env index) hc) = (r1, hc1)"
        by (cases "select_send (ac_trace ctx) (chunk_message aid index data)
          (ce_fate (env index)) (ce_world (env index) hc)")
      have "concerns aid (chunk_message aid index data)" by (simp add: chunk_message_def)
      from select_send_adds [OF send this] assms(3)
      have sent: "r1 = Inr () \<Longrightarrow> adds aid [chunk_message aid index data] hc hc1"
        and unsent: "\<And>e. r1 = Inl e \<Longrightarrow> adds aid [] hc hc1"
        using adds_trans [of aid "[]" hc "ce_world (env index) hc" _ hc1] by auto
      show ?thesis
      proof (cases r1)
        case (Inl e)
        with eq Pair Inr \<open>ensure_active _ = Inr u\<close> send unsent show ?thesis
          by (intro stopped [of e]) auto
      next
        case (Inr u1)
        with eq Pair \<open>q = Inr data\<close> \<open>ensure_active _ = Inr u\<close> send sent read show ?thesis
          by (intro chunk_sent [of data source1 hc1]) auto
      qed
    qed
  qed
qed

context seekable_source
begin

text \<open>
  The chunk loop sends a prefix of the expected chunks, in order; all of them when it
  succeeds.
\<close>

lemma transfer_chunks_adds:
  assumes "transfer_chunks src ctx aid c env index n remaining hc source = (r, hc', source')"
    and "\<And>i h. adds aid [] h (ce_world (env i) h)"
    and "view source = (content, p)" and "unat remaining = length (drop p content)"
  defines "expected \<equiv> chunk_messages aid index (cut (unat c) n (drop p content))"
  shows "\<exists>ps. adds aid ps hc hc' \<and> prefix ps expected \<and> (r = Inr () \<longrightarrow> ps = expected)"
  using assms(1,3,4) unfolding expected_def
proof (induction n arbitrary: index remaining hc source p)
  case 0
  then show ?case by auto
next
  case (Suc n)
  from Suc.prems(1) assms(2) show ?case
  proof (cases rule: transfer_chunks_Suc_cases)
    case (stopped e)
    then show ?thesis by (intro exI [of _ "[]"]) simp
  next
    case (chunk_sent data source1 hc1)
    let ?len = "min remaining c"
    have len: "unat ?len = min (unat remaining) (unat c)"
      by (simp add: min_def word_le_nat_alt)
    have take: "take (min (length content - p) (unat c)) (drop p content) =
        take (unat c) (drop p content)" by (simp add: min_def)
    from read_exact [OF chunk_sent(1) Suc.prems(2)] len Suc.prems(3) take
    have data: "data = take (unat c) (drop p content)" "length data = unat ?len"
      and source1: "view source1 = (content, p + unat ?len)" by auto
    have "unat (remaining - ?len) = length (drop (p + unat ?len) content)"
      using Suc.prems(3) len by (simp add: unat_sub min.cobounded1 del: drop_drop)
    from Suc.IH [OF chunk_sent(3) source1 this] obtain ps where
      ps: "adds aid ps hc1 hc'"
        "prefix ps (chunk_messages aid (Suc index) (cut (unat c) n (drop (p + unat ?len) content)))"
        "r = Inr () \<longrightarrow>
           ps = chunk_messages aid (Suc index) (cut (unat c) n (drop (p + unat ?len) content))"
      by blast
    have drop: "drop (unat c) (drop p content) = drop (p + unat ?len) content"
      using Suc.prems(3) len by (auto simp: min_def add.commute)
    from adds_trans [OF chunk_sent(2) ps(1)] ps(2,3) data(1) drop show ?thesis
      by (intro exI [of _ "chunk_message aid index data # ps"]) simp
  qed
qed

text \<open>The whole transfer: a prefix of the sequence, and all of it on success.\<close>

lemma transfer_artifact_adds:
  assumes "transfer_artifact src ctx d aid env hc source = (r, hc', source')"
    and "quiet aid env" and "art_artifact_id d = Some aid"
    and "view source = (content, p)" and "unat (art_size_bytes d) = length (drop p content)"
  obtains e where "r = Inl e" "adds aid [] hc hc'"
  | plan ps where "artifact_plan (art_size_bytes d) (hc_maximum_artifact_chunk_bytes hc) = Inr plan"
      "adds aid ps hc hc'" "prefix ps (transfer_sequence ctx d aid plan (drop p content))"
      "\<And>stored. r = Inr stored \<Longrightarrow> ps = transfer_sequence ctx d aid plan (drop p content) \<and>
         stored = \<lparr>sa_job_id = ac_job_id ctx, sa_descriptor = d\<rparr>"
proof (cases "artifact_plan (art_size_bytes d) (hc_maximum_artifact_chunk_bytes hc)")
  case (Inl e)
  with assms(1) show ?thesis by (intro that(1) [of e]) (auto simp: transfer_artifact_def)
next
  case plan: (Inr plan)
  let ?n = "unat (ap_chunk_count plan)" and ?c = "ap_chunk_bytes plan"
  define first where "first = PArtifactStart \<lparr>ats_job_id = Some (PluginJobId (ac_job_id ctx)),
    ats_artifact = Some d, ats_chunk_count = ap_chunk_count plan\<rparr>"
  define last where "last = PArtifactComplete \<lparr>atc_artifact_id = Some aid\<rparr>"
  define chunks where "chunks = chunk_messages aid 0 (cut (unat ?c) ?n (drop p content))"
  have concerns: "concerns aid first" "concerns aid last"
    using assms(3) by (simp_all add: first_def last_def)
  have seq: "transfer_sequence ctx d aid plan (drop p content) = first # chunks @ [last]"
    by (simp add: transfer_sequence_def first_def last_def chunks_def)
  obtain r1 hc1 where start: "context_request ctx first (se_start env) hc = (r1, hc1)"
    by (cases "context_request ctx first (se_start env) hc")
  note quiets = assms(2) [unfolded quiet_def]
  note start_adds = context_request_adds [OF start _ concerns(1)]
  note eq = assms(1) [unfolded transfer_artifact_def plan sum.case, folded first_def last_def,
      unfolded start prod.case]
  show ?thesis
  proof (cases r1)
    case (Inl e)
    with eq have "r = Inl e" "hc' = hc1" by auto
    with start_adds quiets have "adds aid [] hc hc' \<or> adds aid [first] hc hc'" by blast
    with \<open>r = Inl e\<close> plan seq show ?thesis
      by (elim disjE) (auto intro: that(1) that(2) [of plan "[first]"])
  next
    case (Inr started)
    with start_adds quiets have first_added: "adds aid [first] hc hc1" by auto
    obtain r2 hc2 source2 where loop: "transfer_chunks src ctx aid ?c (se_chunks env) 0 ?n
        (art_size_bytes d) hc1 source = (r2, hc2, source2)"
      by (cases "transfer_chunks src ctx aid ?c (se_chunks env) 0 ?n (art_size_bytes d) hc1 source")
    from transfer_chunks_adds [OF loop _ assms(4) assms(5)] quiets obtain ps where
      chunks_added: "adds aid ps hc1 hc2" "prefix ps chunks" "r2 = Inr () \<longrightarrow> ps = chunks"
      by (auto simp: chunks_def)
    note adds2 = adds_trans [OF first_added chunks_added(1)]
    obtain r3 hc3 where complete: "context_request ctx last (se_complete env) hc2 = (r3, hc3)"
      by (cases "context_request ctx last (se_complete env) hc2")
    note eq = eq [unfolded Inr sum.case loop complete prod.case]
    consider (refused) "\<not> accepts_transfer aid started"
      | (broken) e where "accepts_transfer aid started" "r2 = Inl e"
      | (sent) "accepts_transfer aid started" "r2 = Inr ()"
      by (cases r2) auto
    then show ?thesis
    proof cases
      case refused
      with eq plan seq first_added show ?thesis by (intro that(2) [of plan "[first]"]) auto
    next
      case (broken e)
      with eq plan seq adds2 chunks_added(2) show ?thesis
        by (intro that(2) [of plan "first # ps"]) (auto simp: prefix_def)
    next
      case sent
      with eq have hc': "hc' = hc3"
        and r: "\<And>stored. r = Inr stored \<Longrightarrow>
          (\<exists>x. r3 = Inr x) \<and> stored = \<lparr>sa_job_id = ac_job_id ctx, sa_descriptor = d\<rparr>"
        by (auto split: sum.splits if_splits)
      from context_request_adds [OF complete _ concerns(2)] quiets
      consider "adds aid [last] hc2 hc3" | e where "adds aid [] hc2 hc3" "r3 = Inl e" by blast
      then show ?thesis
      proof cases
        case 1
        from adds_trans [OF adds2 this] sent chunks_added r plan seq hc' show ?thesis
          by (intro that(2) [of plan "first # chunks @ [last]"]) auto
      next
        case 2
        from adds_trans [OF adds2 this(1)] 2(2) sent chunks_added r plan seq hc' show ?thesis
          by (intro that(2) [of plan "first # chunks"]) (auto simp: prefix_def)
      qed
    qed
  qed
qed

lemma store_artifact_transfers:
  assumes "view source = (content, p)" and "sha256_contract sha digest"
    and "art_artifact_id d = Some aid" and "quiet aid env"
  defines "data \<equiv> drop p content"
  obtains r hc' source' ps where
    "store_artifact parse sha src ctx d env hc source = Some (r, hc', source')"
    "adds aid ps hc hc'"
    "ps \<noteq> [] \<Longrightarrow> (\<exists>u. validate_descriptor parse d = Inr u) \<and> describes digest d data \<and>
       (\<exists>plan. artifact_plan (art_size_bytes d) (hc_maximum_artifact_chunk_bytes hc) = Inr plan \<and>
          prefix ps (transfer_sequence ctx d aid plan data))"
    "\<And>stored. r = Inr stored \<Longrightarrow> stored = \<lparr>sa_job_id = ac_job_id ctx, sa_descriptor = d\<rparr> \<and>
       (\<exists>plan. artifact_plan (art_size_bytes d) (hc_maximum_artifact_chunk_bytes hc) = Inr plan \<and>
          ps = transfer_sequence ctx d aid plan data)"
proof (cases "and_then (ensure_active (se_entry_word env)) (\<lambda>_. validate_descriptor parse d)")
  case (Inl e)
  show thesis by (rule that [of "Inl e" hc source "[]"]) (simp_all add: store_artifact_def Inl)
next
  case (Inr aid')
  then have valid: "validate_descriptor parse d = Inr aid'" by (simp add: and_then_Inr_iff)
  with assms(3) have "aid' = aid" by (simp add: validate_descriptor_Inr_iff)
  note eq = store_artifact_def [of parse sha src ctx d env hc source, unfolded Inr sum.case this]
  obtain v s1 where source: "validate_source src sha (se_polls env) d source = Some (v, s1)"
    and ok: "v = Inr () \<longrightarrow> view s1 = view source \<and> describes digest d data"
    using validate_source_returns [OF assms(1,2), of "se_polls env" d] data_def by blast
  note eq = eq [unfolded source option.case prod.case]
  show thesis
  proof (cases "v = Inr () \<and> ensure_active (se_validated_word env) = Inr ()")
    case False
    then obtain e where "store_artifact parse sha src ctx d env hc source = Some (Inl e, hc, s1)"
      using eq by (cases v; cases "ensure_active (se_validated_word env)") auto
    then show thesis by (intro that [of "Inl e" hc s1 "[]"]) simp_all
  next
    case True
    with ok assms(1) have s1: "view s1 = (content, p)" and describes: "describes digest d data"
      by auto
    obtain r hc' source' where transfer:
      "transfer_artifact src ctx d aid env hc s1 = (r, hc', source')"
      by (cases "transfer_artifact src ctx d aid env hc s1")
    with True eq
    have store: "store_artifact parse sha src ctx d env hc source = Some (r, hc', source')" by simp
    have "unat (art_size_bytes d) = length (drop p content)"
      using describes by (simp add: describes_def data_def)
    from transfer_artifact_adds [OF transfer assms(4,3) s1 this] show thesis
    proof cases
      case (1 e)
      with store show thesis by (intro that [of r hc' source' "[]"]) simp_all
    next
      case (2 plan ps)
      with store valid describes show thesis
        by (intro that [of r hc' source' ps]) (auto simp: data_def)
    qed
  qed
qed

end

section \<open>Results on the wire\<close>

definition stored_for :: "string \<Rightarrow> stored_artifact \<Rightarrow> bool" where
  "stored_for jid artifact \<longleftrightarrow>
     sa_job_id artifact = jid \<and> art_artifact_id (sa_descriptor artifact) \<noteq> None"

definition stored_id :: "stored_artifact \<Rightarrow> string" where
  "stored_id artifact =
     (case art_artifact_id (sa_descriptor artifact) of
        Some aid \<Rightarrow> plugin_artifact_id_value aid | None \<Rightarrow> [])"

lemma check_artifacts_ok_iff:
  "check_artifacts jid seen artifacts = Some (Inr ()) \<longleftrightarrow>
     (\<forall>a \<in> set artifacts. stored_for jid a) \<and> distinct (map stored_id artifacts) \<and>
     stored_id ` set artifacts \<inter> set seen = {}"
proof (induction artifacts arbitrary: seen)
  case Nil
  then show ?case by simp
next
  case (Cons a artifacts)
  then show ?case
    by (auto simp: stored_for_def stored_id_def split: option.splits)
qed

lemma check_artifacts_total:
  "\<forall>a \<in> set artifacts. art_artifact_id (sa_descriptor a) \<noteq> None \<Longrightarrow>
     check_artifacts jid seen artifacts \<noteq> None"
  by (induction artifacts arbitrary: seen) (auto split: option.splits)

lemma into_wire_ok_iff:
  "into_wire result jid = Some (Inr (value, descriptors)) \<longleftrightarrow>
     value = ar_result result \<and> descriptors = map sa_descriptor (ar_artifacts result) \<and>
     (\<forall>v. value = Some v \<longrightarrow> validate_serializable v = Inr ()) \<and>
     (\<forall>a \<in> set (ar_artifacts result). stored_for jid a) \<and>
     distinct (map stored_id (ar_artifacts result))"
proof -
  have "into_wire result jid = Some (Inr (value, descriptors)) \<longleftrightarrow>
      (\<forall>v. ar_result result = Some v \<longrightarrow> validate_serializable v = Inr ()) \<and>
      check_artifacts jid [] (ar_artifacts result) = Some (Inr ()) \<and>
      value = ar_result result \<and> descriptors = map sa_descriptor (ar_artifacts result)"
    by (auto simp: into_wire_def and_then_Inr_iff split: option.splits sum.splits)
  then show ?thesis by (auto simp: check_artifacts_ok_iff)
qed

lemma into_wire_total:
  "\<forall>a \<in> set (ar_artifacts result). art_artifact_id (sa_descriptor a) \<noteq> None \<Longrightarrow>
     into_wire result jid \<noteq> None"
  using check_artifacts_total [of "ar_artifacts result" jid "[]"]
  by (auto simp: into_wire_def split: sum.splits)

end
