(* ===== verification/Plugin.thy ===== *)
theory Plugin
  imports Hash_Map Validation
begin

text \<open>
  \<open>src/runtime/plugin.rs\<close>: a plugin declaration and the builder that assembles it one
  action at a time. The handlers are user code, a type parameter here. A builder call
  consumes the builder, so a call that fails leaves none.
\<close>

definition DEFAULT_MAXIMUM_CONCURRENT_JOBS :: u64 where
  "DEFAULT_MAXIMUM_CONCURRENT_JOBS = 256"

record 'h registered_action =
  ra_description :: string
  ra_handler :: 'h

record 'h plugin =
  pl_plugin_id :: string
  pl_version :: string
  pl_actions :: "(string, 'h registered_action) hash_map"
  pl_maximum_concurrent_jobs :: u64

definition builder :: "string \<Rightarrow> string \<Rightarrow> 'h plugin" where
  "builder plugin_id version =
     \<lparr>pl_plugin_id = plugin_id, pl_version = version, pl_actions = hm_empty,
      pl_maximum_concurrent_jobs = DEFAULT_MAXIMUM_CONCURRENT_JOBS\<rparr>"

definition maximum_concurrent_jobs :: "u64 \<Rightarrow> 'h plugin \<Rightarrow> 'h plugin sdk_result" where
  "maximum_concurrent_jobs maximum b =
     (if maximum = 0
      then Inl (InvalidArgument ''maximum concurrent jobs must be nonzero'')
      else Inr (b\<lparr>pl_maximum_concurrent_jobs := maximum\<rparr>))"

definition action :: "string \<Rightarrow> string \<Rightarrow> 'h \<Rightarrow> 'h plugin \<Rightarrow> 'h plugin sdk_result" where
  "action name description handler b =
     (if name = [] \<or> hm_contains_key (pl_actions b) name
      then Inl (InvalidArgument ''action names must be nonempty and unique'')
      else Inr (b\<lparr>pl_actions :=
             hm_insert name \<lparr>ra_description = description, ra_handler = handler\<rparr> (pl_actions b)\<rparr>))"

definition build :: "'h plugin \<Rightarrow> 'h plugin sdk_result" where
  "build b =
     and_then (validate_plugin_id (pl_plugin_id b))
       (\<lambda>_. if pl_version b = []
            then Inl (InvalidArgument ''plugin version must not be empty'')
            else Inr b)"

section \<open>What a chain of builder calls declares\<close>

datatype 'h builder_call = SetMaximum u64 | AddAction string string 'h

fun builder_apply :: "'h builder_call \<Rightarrow> 'h plugin \<Rightarrow> 'h plugin sdk_result" where
  "builder_apply (SetMaximum maximum) b = maximum_concurrent_jobs maximum b"
| "builder_apply (AddAction name description handler) b = action name description handler b"

fun builder_chain :: "'h builder_call list \<Rightarrow> 'h plugin \<Rightarrow> 'h plugin sdk_result" where
  "builder_chain [] b = build b"
| "builder_chain (c # cs) b = and_then (builder_apply c b) (builder_chain cs)"

definition declared_actions :: "'h builder_call list \<Rightarrow> (string \<times> 'h registered_action) list" where
  "declared_actions cs = concat (map (\<lambda>c. case c of
     AddAction name description handler \<Rightarrow>
       [(name, \<lparr>ra_description = description, ra_handler = handler\<rparr>)]
   | SetMaximum _ \<Rightarrow> []) cs)"

fun last_maximum :: "u64 \<Rightarrow> 'h builder_call list \<Rightarrow> u64" where
  "last_maximum maximum [] = maximum"
| "last_maximum maximum (SetMaximum m # cs) = last_maximum m cs"
| "last_maximum maximum (AddAction _ _ _ # cs) = last_maximum maximum cs"

lemma declared_actions_simps [simp]:
  "declared_actions [] = []"
  "declared_actions (SetMaximum m # cs) = declared_actions cs"
  "declared_actions (AddAction name description handler # cs) =
     (name, \<lparr>ra_description = description, ra_handler = handler\<rparr>) # declared_actions cs"
  by (simp_all add: declared_actions_def)

definition plugin_inv :: "'h plugin \<Rightarrow> bool" where
  "plugin_inv p \<longleftrightarrow>
     hm_wf (pl_actions p) \<and> [] \<notin> dom (hm_get (pl_actions p)) \<and> pl_maximum_concurrent_jobs p \<noteq> 0"

lemma builder_inv: "plugin_inv (builder pid version)"
  by (simp add: plugin_inv_def builder_def hm.map_laws DEFAULT_MAXIMUM_CONCURRENT_JOBS_def)

lemma builder_apply_inv: "builder_apply c b = Inr b' \<Longrightarrow> plugin_inv b \<Longrightarrow> plugin_inv b'"
  by (cases c)
    (auto simp: maximum_concurrent_jobs_def action_def plugin_inv_def hm.map_laws split: if_splits)

lemma builder_apply_identity:
  "builder_apply c b = Inr b' \<Longrightarrow> pl_plugin_id b' = pl_plugin_id b \<and> pl_version b' = pl_version b"
  by (cases c) (auto simp: maximum_concurrent_jobs_def action_def split: if_splits)

text \<open>
  A chain succeeds exactly when the identity is valid, every limit is positive, and the
  action names are nonempty and pairwise distinct; then the plugin is what was declared.
\<close>

lemma builder_chain_Inr_iff:
  assumes "plugin_inv b"
  shows "builder_chain cs b = Inr p \<longleftrightarrow>
    validate_plugin_id (pl_plugin_id b) = Inr () \<and> pl_version b \<noteq> [] \<and>
    SetMaximum 0 \<notin> set cs \<and> [] \<notin> fst ` set (declared_actions cs) \<and>
    distinct (map fst (declared_actions cs)) \<and>
    fst ` set (declared_actions cs) \<inter> dom (hm_get (pl_actions b)) = {} \<and>
    p = b\<lparr>pl_maximum_concurrent_jobs := last_maximum (pl_maximum_concurrent_jobs b) cs,
          pl_actions := fold (\<lambda>(k, v). hm_insert k v) (declared_actions cs) (pl_actions b)\<rparr>"
  using assms
proof (induction cs arbitrary: b)
  case Nil
  then show ?case by (auto simp: build_def and_then_Inr_iff)
next
  case (Cons c cs)
  show ?case
  proof (cases c)
    case (SetMaximum m)
    show ?thesis
    proof (cases "m = 0")
      case True
      with SetMaximum show ?thesis by (auto simp: maximum_concurrent_jobs_def)
    next
      case False
      have "plugin_inv (b\<lparr>pl_maximum_concurrent_jobs := m\<rparr>)"
        using Cons.prems False by (simp add: plugin_inv_def)
      from Cons.IH [OF this] SetMaximum False show ?thesis
        by (auto simp: maximum_concurrent_jobs_def)
    qed
  next
    case (AddAction name description handler)
    show ?thesis
    proof (cases "name = [] \<or> hm_contains_key (pl_actions b) name")
      case True
      with AddAction show ?thesis by (auto simp: action_def hm_contains_key_iff)
    next
      case False
      let ?b = "b\<lparr>pl_actions := hm_insert name
        \<lparr>ra_description = description, ra_handler = handler\<rparr> (pl_actions b)\<rparr>"
      have "plugin_inv ?b"
        using Cons.prems False by (auto simp: plugin_inv_def hm.map_laws)
      note IH = Cons.IH [OF this]
      have chain: "builder_chain (c # cs) b = builder_chain cs ?b"
        using False AddAction by (simp add: action_def)
      have dom: "dom (hm_get (pl_actions ?b)) = insert name (dom (hm_get (pl_actions b)))"
        by (simp add: hm.get_insert)
      have "name \<noteq> []" "name \<notin> dom (hm_get (pl_actions b))"
        using False by (auto simp: hm_contains_key_iff)
      then show ?thesis
        unfolding chain IH dom by (auto simp: AddAction simp del: Int_iff dom_def)
    qed
  qed
qed

lemma builder_chain_inv:
  "builder_chain cs b = Inr p \<Longrightarrow> plugin_inv b \<Longrightarrow>
     plugin_inv p \<and> pl_plugin_id p = pl_plugin_id b \<and> pl_version p = pl_version b \<and>
     validate_plugin_id (pl_plugin_id p) = Inr () \<and> pl_version p \<noteq> []"
proof (induction cs arbitrary: b)
  case Nil
  then show ?case by (auto simp: build_def and_then_Inr_iff split: if_splits)
next
  case (Cons c cs)
  from Cons.prems(1) obtain b1 where "builder_apply c b = Inr b1" "builder_chain cs b1 = Inr p"
    by (auto simp: and_then_Inr_iff)
  with Cons.IH [of b1] Cons.prems(2) builder_apply_inv builder_apply_identity show ?case
    by metis
qed

end
