(* ===== verification/Jobs.thy ===== *)
theory Jobs
  imports Action_Context Plugin
begin

text \<open>
  \<open>src/runtime/session/jobs.rs\<close>: the manager of the session's jobs. The state words of the
  actions are shared between the manager, the action's context and the task that runs it,
  so they live in a store, \<open>jm_tokens\<close>, and a controller is an index of it. What the
  spawned tasks do between two steps of the manager is a step of the environment; what they
  do while the manager itself awaits a send is a parameter, \<open>world\<close>.
\<close>

section \<open>State\<close>

record pending_cancellation =
  pc_reply_to :: u64
  pc_trace :: trace_context
  pc_job_id :: plugin_job_id

record active_job =
  aj_controller :: nat
  aj_trace :: trace_context
  aj_cancellations :: "pending_cancellation list"

datatype task_state =
  Running | Completed "action_result sdk_result" | EndedWithoutResult error_source

record 'h job_task =
  jt_job_id :: string
  jt_controller :: nat
  jt_action :: "'h registered_action"
  jt_context :: action_context
  jt_arguments :: "string list"
  jt_state :: task_state

record 'h job_manager =
  jm_actions :: "(string, 'h registered_action) hash_map"
  jm_maximum :: u64
  jm_host :: host_client
  jm_active :: "(string, active_job) hash_map"
  jm_tasks :: "'h job_task list"
  jm_tokens :: "u8 list"

record finished_action =
  fa_job_id :: string
  fa_output :: "action_result sdk_result"

definition CAPACITY_METADATA_KEY :: string where
  "CAPACITY_METADATA_KEY = ''maximum_concurrent_jobs''"

definition new_job_manager ::
  "(string, 'h registered_action) hash_map \<Rightarrow> u64 \<Rightarrow> host_client \<Rightarrow> 'h job_manager" where
  "new_job_manager actions maximum host =
     \<lparr>jm_actions = actions, jm_maximum = maximum, jm_host = host, jm_active = hm_empty,
      jm_tasks = [], jm_tokens = []\<rparr>"

definition has_active_jobs :: "'h job_manager \<Rightarrow> bool" where
  "has_active_jobs jm \<longleftrightarrow> hm_len (jm_active jm) \<noteq> 0"

section \<open>Errors on the wire\<close>

definition outbound_error :: "sdk_error \<Rightarrow> protocol_error option" where
  "outbound_error e =
     map_option
       (\<lambda>error. if is_ok (validate_protocol_error error) then error
                else \<lparr>pe_code = error_code_i32 CodeInternal,
                      pe_message = ''action returned an invalid protocol error'',
                      pe_retryable = False, pe_metadata = Map.empty, pe_details = []\<rparr>)
       (to_protocol_error e)"

text \<open>\<open>usize::to_string\<close>.\<close>

fun decimal :: "nat \<Rightarrow> string" where
  "decimal n =
     (if n < 10 then [char_of (48 + n)] else decimal (n div 10) @ [char_of (48 + n mod 10)])"

definition capacity_error :: "u64 \<Rightarrow> protocol_error" where
  "capacity_error maximum =
     \<lparr>pe_code = error_code_i32 CodeUnavailable,
      pe_message = ''plugin action capacity is currently exhausted'',
      pe_retryable = True,
      pe_metadata = [CAPACITY_METADATA_KEY \<mapsto> decimal (unat maximum)],
      pe_details = []\<rparr>"

section \<open>Running an action\<close>

text \<open>
  A panic is a value of the type \<open>caught\<close>. An action's future is the outcome of its polls:
  \<^const>\<open>None\<close> is \<open>Poll::Pending\<close>.
\<close>

datatype panic_payload = PanicStr string | PanicString string | PanicOther
datatype 'a caught = NoPanic 'a | Panic panic_payload

type_synonym action_future = "nat \<Rightarrow> action_result sdk_result option caught"

definition action_panic :: "panic_payload \<Rightarrow> sdk_error" where
  "action_panic payload =
     Action (''action task panicked: '' @
       (case payload of
          PanicStr message \<Rightarrow> message
        | PanicString message \<Rightarrow> message
        | PanicOther \<Rightarrow> ''non-string panic payload''))"

text \<open>\<open>poll_fn\<close>, awaited; \<^const>\<open>None\<close> when no poll is ever ready.\<close>

partial_function (option) drive_action ::
  "action_future \<Rightarrow> nat \<Rightarrow> action_result sdk_result option" where
  "drive_action poll k =
     (case poll k of
        NoPanic (Some out) \<Rightarrow> Some out
      | NoPanic None \<Rightarrow> drive_action poll (Suc k)
      | Panic payload \<Rightarrow> Some (Inl (action_panic payload)))"

definition run_action :: "action_future caught \<Rightarrow> action_result sdk_result option" where
  "run_action called =
     (case called of
        Panic payload \<Rightarrow> Some (Inl (action_panic payload))
      | NoPanic future \<Rightarrow> drive_action future 0)"

section \<open>Sending\<close>

definition send_from ::
  "u64 option \<Rightarrow> trace_context \<Rightarrow> payload \<Rightarrow> 'h job_manager \<Rightarrow> unit sdk_result \<times> 'h job_manager" where
  "send_from reply trace payload jm =
     (let (result, sender) = send reply trace payload (hc_sender (jm_host jm))
      in (and_then result (\<lambda>_. Inr ()), jm\<lparr>jm_host := (jm_host jm)\<lparr>hc_sender := sender\<rparr>\<rparr>))"

definition send_cancellation_acknowledgement ::
  "pending_cancellation \<Rightarrow> 'h job_manager \<Rightarrow> unit sdk_result \<times> 'h job_manager" where
  "send_cancellation_acknowledgement c jm =
     send_from (Some (pc_reply_to c)) (pc_trace c)
       (PCancelJobAcknowledged \<lparr>cja_job_id = Some (pc_job_id c)\<rparr>) jm"

text \<open>The loop over acknowledgements; \<open>world i\<close> is what the tasks do before the \<open>i\<close>-th.\<close>

fun send_acknowledgements ::
  "(nat \<Rightarrow> host_client \<Rightarrow> host_client) \<Rightarrow> nat \<Rightarrow> pending_cancellation list \<Rightarrow>
   'h job_manager \<Rightarrow> unit sdk_result \<times> 'h job_manager" where
  "send_acknowledgements world i [] jm = (Inr (), jm)"
| "send_acknowledgements world i (c # cs) jm =
     st_and_then (send_cancellation_acknowledgement c (jm\<lparr>jm_host := world i (jm_host jm)\<rparr>))
       (\<lambda>_ jm. send_acknowledgements world (Suc i) cs jm)"

definition fire_token :: "(u8 \<Rightarrow> u8 \<times> bool) \<Rightarrow> nat \<Rightarrow> u8 list \<Rightarrow> u8 list" where
  "fire_token fire k tokens = tokens[k := fst (fire (tokens ! k))]"

section \<open>Operations\<close>

definition jobs_start ::
  "uuid_parser \<Rightarrow> u64 \<Rightarrow> trace_context \<Rightarrow> start_job_request \<Rightarrow> 'h job_manager \<Rightarrow>
   unit sdk_result \<times> 'h job_manager" where
  "jobs_start parse_uuid mid trace req jm =
     st_and_then (validate_job_id parse_uuid (sj_job_id req), jm) (\<lambda>jid jm.
     st_and_then (optional_timestamp (sj_deadline req) ''StartJobRequest deadline'', jm) (\<lambda>_ jm.
       if hm_contains_key (jm_active jm) jid
       then (Inl (Protocol ''duplicate active job ID''), jm)
       else case sj_invocation req of
         None \<Rightarrow> (Inl (Protocol ''unsupported job invocation''), jm)
       | Some (ActionInvocation invocation) \<Rightarrow>
           st_and_then
             (ok_or (Protocol (''unknown action `'' @ inv_action invocation @ ''`''))
               (hm_get (jm_actions jm) (inv_action invocation)), jm)
             (\<lambda>action jm.
                if unat (jm_maximum jm) \<le> hm_len (jm_active jm)
                then send_from (Some mid) trace (PProtocolError (capacity_error (jm_maximum jm))) jm
                else
                  st_and_then
                    (send_from (Some mid) trace (PJobAccepted \<lparr>ja_job_id = Some (PluginJobId jid)\<rparr>) jm)
                    (\<lambda>_ jm.
                       let controller = length (jm_tokens jm);
                           context = \<lparr>ac_job_id = jid, ac_deadline = sj_deadline req,
                                      ac_trace = trace, ac_parent_call_id = mid\<rparr>
                       in (Inr (),
                           jm\<lparr>jm_tokens := jm_tokens jm @ [ACTIVE],
                              jm_tasks := jm_tasks jm @
                                [\<lparr>jt_job_id = jid, jt_controller = controller, jt_action = action,
                                  jt_context = context, jt_arguments = inv_arguments invocation,
                                  jt_state = Running\<rparr>],
                              jm_active := hm_insert jid
                                \<lparr>aj_controller = controller, aj_trace = trace, aj_cancellations = []\<rparr>
                                (jm_active jm)\<rparr>)))))"

definition jobs_cancel ::
  "uuid_parser \<Rightarrow> u64 \<Rightarrow> trace_context \<Rightarrow> cancel_job_request \<Rightarrow> 'h job_manager \<Rightarrow>
   unit sdk_result \<times> 'h job_manager" where
  "jobs_cancel parse_uuid mid trace req jm =
     st_and_then (validate_job_id parse_uuid (cj_job_id req), jm) (\<lambda>jid jm.
     st_and_then (cancellation_reason (cj_reason req), jm) (\<lambda>_ jm.
       let acknowledgement =
             \<lparr>pc_reply_to = mid, pc_trace = trace, pc_job_id = PluginJobId jid\<rparr>
       in case hm_get (jm_active jm) jid of
            Some job \<Rightarrow>
              (Inr (),
               jm\<lparr>jm_tokens := fire_token cancel (aj_controller job) (jm_tokens jm),
                  jm_active := hm_insert jid
                    (job\<lparr>aj_cancellations := aj_cancellations job @ [acknowledgement]\<rparr>)
                    (jm_active jm)\<rparr>)
          | None \<Rightarrow> send_cancellation_acknowledgement acknowledgement jm))"

text \<open>
  \<open>JoinSet::join_next\<close> yields a task that has ended; which one is the parameter \<open>k\<close>.
  \<open>Waits\<close>: that task is still running.
\<close>

datatype 'a joined = Waits | Panics | Joins 'a

definition remove_nth :: "nat \<Rightarrow> 'a list \<Rightarrow> 'a list" where
  "remove_nth k xs = take k xs @ drop (Suc k) xs"

definition jobs_join_next ::
  "nat \<Rightarrow> 'h job_manager \<Rightarrow> (finished_action sdk_result \<times> 'h job_manager) joined" where
  "jobs_join_next k jm =
     (if jm_tasks jm = [] then Panics
      else if length (jm_tasks jm) \<le> k then Waits
      else
        let t = jm_tasks jm ! k;
            jm1 = jm\<lparr>jm_tasks := remove_nth k (jm_tasks jm)\<rparr>
        in case jt_state t of
             Running \<Rightarrow> Waits
           | Completed out \<Rightarrow> Joins (Inr \<lparr>fa_job_id = jt_job_id t, fa_output = out\<rparr>, jm1)
           | EndedWithoutResult error \<Rightarrow>
               Joins (Inl (Action (''action supervisor task ended without a result: '' @ error)), jm1))"

text \<open>Progress \<open>1.0\<close> is its IEEE 754 bits. \<^const>\<open>None\<close>: the \<open>expect\<close> in \<open>into_wire\<close> panics.\<close>

definition terminal_update ::
  "string \<Rightarrow> action_result sdk_result \<Rightarrow> job_update option" where
  "terminal_update jid out =
     (let failed = (\<lambda>e. map_option (\<lambda>error. (StateFailed, None, Some error, [])) (outbound_error e))
      in map_option
           (\<lambda>(state, result, error, artifacts).
              \<lparr>ju_job_id = Some (PluginJobId jid), ju_state = job_state_i32 state,
               ju_progress = Some 0x3FF0000000000000, ju_status_message = None,
               ju_result = result, ju_error = error, ju_artifacts = artifacts\<rparr>)
           (case out of
              Inr result \<Rightarrow>
                (case into_wire result jid of
                   None \<Rightarrow> None
                 | Some (Inr (result, artifacts)) \<Rightarrow> Some (StateSucceeded, result, None, artifacts)
                 | Some (Inl e) \<Rightarrow> failed e)
            | Inl e \<Rightarrow> failed e))"

text \<open>\<^const>\<open>None\<close>: one of the \<open>expect\<close>s panics.\<close>

definition jobs_settle ::
  "(nat \<Rightarrow> host_client \<Rightarrow> host_client) \<Rightarrow> finished_action \<Rightarrow> 'h job_manager \<Rightarrow>
   (unit sdk_result \<times> 'h job_manager) option" where
  "jobs_settle world finished jm =
     (case hm_get (jm_active jm) (fa_job_id finished) of
        None \<Rightarrow> None
      | Some job \<Rightarrow>
          (let cancellations = aj_cancellations job;
               jm1 = jm\<lparr>jm_active :=
                 hm_insert (fa_job_id finished) (job\<lparr>aj_cancellations := []\<rparr>) (jm_active jm)\<rparr>;
               queued =
                 (if cancellations = []
                  then map_option
                    (\<lambda>update. send_from None (aj_trace job) (PJobUpdate update)
                       (jm1\<lparr>jm_host := world 0 (jm_host jm1)\<rparr>))
                    (terminal_update (fa_job_id finished) (fa_output finished))
                  else Some (send_acknowledgements world 0 cancellations jm1))
           in case queued of
                None \<Rightarrow> None
              | Some (Inl e, jm2) \<Rightarrow> Some (Inl e, jm2)
              | Some (Inr _, jm2) \<Rightarrow>
                  (case hm_get (jm_active jm2) (fa_job_id finished) of
                     None \<Rightarrow> None
                   | Some _ \<Rightarrow>
                       Some (Inr (), jm2\<lparr>jm_active := hm_remove (fa_job_id finished) (jm_active jm2)\<rparr>))))"

text \<open>
  The tasks are aborted and joined before anything is acknowledged. Dropping a task drops
  its \<open>FinishGuard\<close>, on a token that is already cancelled or finished.
\<close>

definition jobs_shutdown ::
  "((string, active_job) hash_map \<Rightarrow> (string \<times> active_job) list) \<Rightarrow>
   (nat \<Rightarrow> host_client \<Rightarrow> host_client) \<Rightarrow> 'h job_manager \<Rightarrow> unit sdk_result \<times> 'h job_manager" where
  "jobs_shutdown iter world jm =
     (let jobs = map snd (iter (jm_active jm));
          cancelled = fold (\<lambda>job. fire_token cancel (aj_controller job)) jobs (jm_tokens jm);
          finished = fold (\<lambda>t. fire_token finish (jt_controller t)) (jm_tasks jm) cancelled;
          cancellations = concat (map aj_cancellations jobs);
          jm1 = jm\<lparr>jm_tokens := finished, jm_tasks := [],
            jm_active := map (\<lambda>(jid, job). (jid, job\<lparr>aj_cancellations := []\<rparr>)) (jm_active jm)\<rparr>
      in st_and_then (send_acknowledgements world 0 cancellations jm1)
           (\<lambda>_ jm2. (Inr (), jm2\<lparr>jm_active := hm_empty\<rparr>)))"

section \<open>The tasks\<close>

text \<open>
  The task \<open>jobs_start\<close> spawns: it runs the action to its end, and its \<open>FinishGuard\<close> is
  dropped with it. \<open>called\<close> is what the handler does on this call.
\<close>

definition task_ends :: "nat \<Rightarrow> action_future caught \<Rightarrow> 'h job_manager \<Rightarrow> 'h job_manager option" where
  "task_ends k called jm =
     (if k < length (jm_tasks jm) \<and> jt_state (jm_tasks jm ! k) = Running
      then map_option
        (\<lambda>out. jm\<lparr>jm_tasks := (jm_tasks jm)[k := (jm_tasks jm ! k)\<lparr>jt_state := Completed out\<rparr>],
                  jm_tokens := fire_token finish (jt_controller (jm_tasks jm ! k)) (jm_tokens jm)\<rparr>)
        (run_action called)
      else None)"

end
