(* ===== verification/Job_Contract.thy ===== *)
theory Job_Contract
  imports Jobs
begin

text \<open>
  What the job manager promises the host, without its tasks, tokens and sender: a ledger of
  the active jobs and of the cancellation requests each still owes an answer for. Every
  request is answered by the outputs its step lists.
\<close>

type_synonym job_ledger = "string \<rightharpoonup> pending_cancellation list"

datatype job_output =
  OutAccepted u64 string
| OutRefused u64
| OutAcknowledged pending_cancellation
| OutUpdated string

datatype job_request =
  Admit u64 string | Withdraw pending_cancellation | Conclude string | Other | CloseAll

definition owed :: "job_ledger \<Rightarrow> pending_cancellation multiset" where
  "owed s = (\<Sum>j \<in> dom s. mset (the (s j)))"

inductive ledger_step ::
  "nat \<Rightarrow> job_ledger \<Rightarrow> job_request \<times> job_output list \<Rightarrow> job_ledger \<Rightarrow> bool"
  for maximum where
  admit: "s j = None \<Longrightarrow> card (dom s) < maximum \<Longrightarrow>
    ledger_step maximum s (Admit mid j, [OutAccepted mid j]) (s(j \<mapsto> []))"
| refuse: "s j = None \<Longrightarrow> maximum \<le> card (dom s) \<Longrightarrow>
    ledger_step maximum s (Admit mid j, [OutRefused mid]) s"
| withdraw_active: "s j = Some cs \<Longrightarrow> pc_job_id c = PluginJobId j \<Longrightarrow>
    ledger_step maximum s (Withdraw c, []) (s(j \<mapsto> cs @ [c]))"
| withdraw_inactive: "s j = None \<Longrightarrow> pc_job_id c = PluginJobId j \<Longrightarrow>
    ledger_step maximum s (Withdraw c, [OutAcknowledged c]) s"
| conclude: "s j = Some [] \<Longrightarrow>
    ledger_step maximum s (Conclude j, [OutUpdated j]) (s(j := None))"
| conclude_cancelled: "s j = Some cs \<Longrightarrow> cs \<noteq> [] \<Longrightarrow>
    ledger_step maximum s (Conclude j, map OutAcknowledged cs) (s(j := None))"
| other: "ledger_step maximum s (Other, []) s"
| close_all: "mset cs = owed s \<Longrightarrow>
    ledger_step maximum s (CloseAll, map OutAcknowledged cs) Map.empty"

inductive_cases ledger_stepE: "ledger_step maximum s l t"

section \<open>Capacity\<close>

definition ledger_inv :: "nat \<Rightarrow> job_ledger \<Rightarrow> bool" where
  "ledger_inv maximum s \<longleftrightarrow> finite (dom s) \<and> card (dom s) \<le> maximum"

lemma dom_upd_present: "s j = Some cs \<Longrightarrow> dom (s(j \<mapsto> ds)) = dom s"
  by (auto simp: dom_def)

lemma card_dom_admit: "s j = None \<Longrightarrow> finite (dom s) \<Longrightarrow> card (dom (s(j \<mapsto> ds))) = Suc (card (dom s))"
  by (simp add: domIff)

lemma card_dom_remove: "finite (dom s) \<Longrightarrow> card (dom (s(j := None))) \<le> card (dom s)"
  by (auto intro: card_mono)

lemma finite_dom_upd [simp]: "finite (dom s) \<Longrightarrow> finite (dom (s(j := x)))"
  by (auto intro: finite_subset [of _ "insert j (dom s)"])

lemma ledger_step_inv: "ledger_step maximum s l t \<Longrightarrow> ledger_inv maximum s \<Longrightarrow> ledger_inv maximum t"
  by (erule ledger_stepE)
    (auto simp: ledger_inv_def card_dom_admit dom_upd_present
      intro: order_trans [OF card_dom_remove] simp del: dom_fun_upd)

interpretation ledger:
  invariant_system "\<lambda>s. s = Map.empty" "ledger_step maximum" "ledger_inv maximum" for maximum
proof unfold_locales
  show "s = Map.empty \<Longrightarrow> ledger_inv maximum s" for s by (simp add: ledger_inv_def)
  show "ledger_step maximum s l t \<Longrightarrow> ledger_inv maximum s \<Longrightarrow> ledger_inv maximum t" for s l t
    by (rule ledger_step_inv)
qed

section \<open>Every cancellation request is answered once\<close>

fun acknowledged :: "job_output list \<Rightarrow> pending_cancellation multiset" where
  "acknowledged [] = {#}"
| "acknowledged (OutAcknowledged c # outs) = add_mset c (acknowledged outs)"
| "acknowledged (_ # outs) = acknowledged outs"

fun withdrawn :: "(job_request \<times> 'o) list \<Rightarrow> pending_cancellation multiset" where
  "withdrawn [] = {#}"
| "withdrawn ((Withdraw c, _) # ls) = add_mset c (withdrawn ls)"
| "withdrawn (_ # ls) = withdrawn ls"

definition all_outputs :: "(job_request \<times> 'o list) list \<Rightarrow> 'o list" where
  "all_outputs ls = concat (map snd ls)"

lemma all_outputs_append [simp]: "all_outputs (ls @ ks) = all_outputs ls @ all_outputs ks"
  and all_outputs_single [simp]: "all_outputs [(r, outs)] = outs"
  by (simp_all add: all_outputs_def)

lemma acknowledged_append [simp]: "acknowledged (xs @ ys) = acknowledged xs + acknowledged ys"
  by (induction xs rule: acknowledged.induct) auto

lemma acknowledged_map [simp]: "acknowledged (map OutAcknowledged cs) = mset cs"
  by (induction cs) auto

lemma withdrawn_append [simp]: "withdrawn (ls @ ks) = withdrawn ls + withdrawn ks"
  by (induction ls rule: withdrawn.induct) auto

lemma owed_empty [simp]: "owed Map.empty = {#}"
  by (simp add: owed_def)

lemma owed_remove:
  assumes "finite (dom s)" and "s j = Some cs"
  shows "owed s = mset cs + owed (s(j := None))"
proof -
  have "owed s = mset (the (s j)) + (\<Sum>k \<in> dom s - {j}. mset (the (s k)))"
    unfolding owed_def using assms by (intro sum.remove) (auto simp: domIff)
  also have "(\<Sum>k \<in> dom s - {j}. mset (the (s k))) = owed (s(j := None))"
    by (auto simp: owed_def intro!: sum.cong)
  finally show ?thesis using assms(2) by simp
qed

lemma owed_add:
  assumes "finite (dom s)" and "s j = None"
  shows "owed (s(j \<mapsto> cs)) = mset cs + owed s"
proof -
  have "owed (s(j \<mapsto> cs)) = mset cs + owed ((s(j \<mapsto> cs))(j := None))"
    using assms(1) by (intro owed_remove) simp_all
  also have "(s(j \<mapsto> cs))(j := None) = s" using assms(2) by auto
  finally show ?thesis .
qed

lemma owed_update:
  assumes "finite (dom s)" and "s j = Some cs"
  shows "owed (s(j \<mapsto> cs @ [c])) = add_mset c (owed s)"
proof -
  have "owed (s(j \<mapsto> cs @ [c])) = mset (cs @ [c]) + owed ((s(j \<mapsto> cs @ [c]))(j := None))"
    using assms(1) by (intro owed_remove) simp_all
  then show ?thesis using owed_remove [OF assms] by simp
qed

lemma ledger_step_owed:
  assumes "ledger_step maximum s l t" and "finite (dom s)"
  shows "acknowledged (snd l) + owed t = owed s + withdrawn [l]"
  using assms(1)
  by (auto elim!: ledger_stepE simp del: fun_upd_apply
      simp: owed_add [OF assms(2)] owed_update [OF assms(2)] owed_remove [OF assms(2)])

lemma ledger_run_owed:
  assumes "run (ledger_step maximum) s ls t" and "ledger_inv maximum s"
  shows "acknowledged (all_outputs ls) + owed t = owed s + withdrawn ls"
  using assms
proof (induction rule: run.induct)
  case run_nil
  then show ?case by (simp add: all_outputs_def)
next
  case (run_snoc ls t l u)
  then have "finite (dom t)" using ledger.run_inv ledger_inv_def by blast
  have "acknowledged (all_outputs (ls @ [l])) + owed u =
      acknowledged (all_outputs ls) + (acknowledged (snd l) + owed u)"
    by (simp add: all_outputs_def ac_simps)
  also have "\<dots> = (acknowledged (all_outputs ls) + owed t) + withdrawn [l]"
    using ledger_step_owed [OF run_snoc.hyps(2) \<open>finite (dom t)\<close>] by (simp add: ac_simps)
  also have "\<dots> = owed s + withdrawn (ls @ [l])"
    using run_snoc.IH [OF run_snoc.prems] by simp
  finally show ?case .
qed

section \<open>An update answers an acceptance\<close>

definition accepted_count :: "string \<Rightarrow> job_output list \<Rightarrow> nat" where
  "accepted_count j outs = length (filter (\<lambda>out. case out of OutAccepted _ k \<Rightarrow> k = j | _ \<Rightarrow> False) outs)"

definition updated_count :: "string \<Rightarrow> job_output list \<Rightarrow> nat" where
  "updated_count j outs = length (filter (\<lambda>out. case out of OutUpdated k \<Rightarrow> k = j | _ \<Rightarrow> False) outs)"

definition active_count :: "string \<Rightarrow> job_ledger \<Rightarrow> nat" where
  "active_count j s = (if j \<in> dom s then 1 else 0)"

lemmas counts = accepted_count_def updated_count_def active_count_def

lemma counts_append [simp]:
  "accepted_count j (xs @ ys) = accepted_count j xs + accepted_count j ys"
  "updated_count j (xs @ ys) = updated_count j xs + updated_count j ys"
  by (simp_all add: counts)

lemma counts_acknowledged [simp]:
  "accepted_count j (map OutAcknowledged cs) = 0" "updated_count j (map OutAcknowledged cs) = 0"
  by (simp_all add: counts filter_empty_conv)

lemma ledger_step_counts:
  assumes "ledger_step maximum s l t"
  shows "updated_count j (snd l) + active_count j t \<le> accepted_count j (snd l) + active_count j s"
  using assms
  by (cases rule: ledger_stepE) (auto simp: counts domIff split: if_splits)

lemma ledger_run_counts:
  assumes "run (ledger_step maximum) s ls t"
  shows "updated_count j (all_outputs ls) + active_count j t \<le>
    accepted_count j (all_outputs ls) + active_count j s"
  using assms
proof (induction rule: run.induct)
  case run_nil
  then show ?case by (simp add: all_outputs_def counts)
next
  case (run_snoc ls t l u)
  from ledger_step_counts [OF run_snoc.hyps(2), of j] run_snoc.IH show ?case
    by (cases l) (simp add: all_outputs_def)
qed

end
