(* ===== verification/Polling.thy ===== *)
theory Polling
  imports Prelude
begin

text \<open>
  The interface of a loop that tries again until one of its passes comes to a result: an
  action's future driven by its executor, the two watchers of the parent process. Such a
  loop returns the result of its first decisive pass, and exactly when there is one.
\<close>

locale polling =
  fixes pass :: "'e \<Rightarrow> nat \<Rightarrow> 'r option"
    and loop :: "'e \<Rightarrow> nat \<Rightarrow> 'r option"
  assumes loop_decided: "pass e k = Some r \<Longrightarrow> loop e k = Some r"
    and loop_retries: "pass e k = None \<Longrightarrow> loop e k = loop e (Suc k)"
    and loop_waits: "(\<And>i. pass e i = None) \<Longrightarrow> loop e k = None"
begin

lemma loop_first:
  assumes "pass e (k + n) = Some r" and "\<And>i. i < n \<Longrightarrow> pass e (k + i) = None"
  shows "loop e k = Some r"
  using assms
proof (induction n arbitrary: k)
  case 0
  then show ?case by (simp add: loop_decided)
next
  case (Suc n)
  from Suc.prems(2) [of 0] have "loop e k = loop e (Suc k)" by (simp add: loop_retries)
  also have "\<dots> = Some r"
    using Suc.prems(1) Suc.prems(2) [of "Suc i" for i] by (intro Suc.IH) simp_all
  finally show ?case .
qed

lemma loop_returns:
  assumes "pass e (k + n) \<noteq> None"
  shows "\<exists>m r. m \<le> n \<and> pass e (k + m) = Some r \<and> (\<forall>i < m. pass e (k + i) = None) \<and> loop e k = Some r"
proof -
  define m where "m = (LEAST m. pass e (k + m) \<noteq> None)"
  have decided: "pass e (k + m) \<noteq> None"
    using LeastI [of "\<lambda>m. pass e (k + m) \<noteq> None", OF assms] by (simp add: m_def)
  have "m \<le> n"
    using Least_le [of "\<lambda>m. pass e (k + m) \<noteq> None", OF assms] by (simp add: m_def)
  moreover have "\<forall>i < m. pass e (k + i) = None"
    using not_less_Least [of _ "\<lambda>m. pass e (k + m) \<noteq> None"] by (auto simp: m_def)
  moreover from decided obtain r where "pass e (k + m) = Some r" by auto
  ultimately show ?thesis using loop_first [of e k m r] by auto
qed

lemma loop_start_Some_iff:
  "loop e 0 = Some r \<longleftrightarrow> (\<exists>n. pass e n = Some r \<and> (\<forall>i < n. pass e i = None))"
proof
  assume loop: "loop e 0 = Some r"
  then obtain n where "pass e n \<noteq> None" using loop_waits [of e 0] by (metis option.distinct(1))
  with loop_returns [of e 0 n] loop show "\<exists>n. pass e n = Some r \<and> (\<forall>i < n. pass e i = None)"
    by auto
next
  assume "\<exists>n. pass e n = Some r \<and> (\<forall>i < n. pass e i = None)"
  then show "loop e 0 = Some r" using loop_first [of e 0] by auto
qed

lemma loop_start_None_iff: "loop e 0 = None \<longleftrightarrow> (\<forall>n. pass e n = None)"
  using loop_returns [of e 0] loop_waits [of e 0] by fastforce

end

end
