(* ===== verification/Jobs_Correct.thy ===== *)
theory Jobs_Correct
  imports Job_Contract Polling
begin

text \<open>
  The job manager keeps its own books straight (\<open>jobs_inv\<close>), so that none of its \<open>expect\<close>s
  panics, and it implements the ledger of \<^theory_text>\<open>Job_Contract\<close>: each of its steps, and each step of
  the tasks it has spawned, is a step of the ledger with the same outputs.
\<close>

section \<open>Errors, panics and updates\<close>

lemma outbound_error_valid:
  "\<exists>pe. outbound_error e = Some pe \<and> validate_protocol_error pe = Inr ()"
proof -
  obtain pe where "to_protocol_error e = Some pe" using to_protocol_error_total by blast
  then show ?thesis
    by (cases "validate_protocol_error pe")
      (auto simp: outbound_error_def validate_protocol_error_ok_iff)
qed

lemma capacity_error_valid: "validate_protocol_error (capacity_error maximum) = Inr ()"
  by (simp add: capacity_error_def validate_protocol_error_ok_iff)

text \<open>What one poll of an action's future comes to: a panic ends the action as an error.\<close>

definition action_pass :: "action_future \<Rightarrow> nat \<Rightarrow> action_result sdk_result option" where
  "action_pass poll k =
     (case poll k of
        NoPanic out \<Rightarrow> out
      | Panic payload \<Rightarrow> Some (Inl (action_panic payload)))"

lemma drive_action_pass:
  "drive_action poll k =
     (case action_pass poll k of Some out \<Rightarrow> Some out | None \<Rightarrow> drive_action poll (Suc k))"
  by (subst drive_action.simps) (auto simp: action_pass_def split: caught.splits option.splits)

lemma drive_action_waits:
  assumes "\<And>i. action_pass poll i = None"
  shows "drive_action poll k = None"
proof (rule ccontr)
  assume "drive_action poll k \<noteq> None"
  then obtain out where "drive_action poll k = Some out" by auto
  have "\<exists>i. action_pass poll i \<noteq> None"
  proof (rule drive_action.raw_induct
      [where P = "\<lambda>poll k out. \<exists>i. action_pass poll i \<noteq> None", OF _ \<open>drive_action poll k = Some out\<close>])
    fix rec and poll :: action_future and k out
    assume IH: "\<And>poll k out. rec poll k = Some out \<Longrightarrow> \<exists>i. action_pass poll i \<noteq> None"
      and body: "(case poll k of NoPanic None \<Rightarrow> rec poll (Suc k) | NoPanic (Some out) \<Rightarrow> Some out
        | Panic payload \<Rightarrow> Some (Inl (action_panic payload))) = Some out"
    show "\<exists>i. action_pass poll i \<noteq> None"
    proof (cases "action_pass poll k")
      case None
      with body have "rec poll (Suc k) = Some out"
        by (auto simp: action_pass_def split: caught.splits option.splits)
      then show ?thesis by (rule IH)
    qed (auto intro: exI [of _ k])
  qed
  with assms show False by simp
qed

interpretation executor: polling action_pass drive_action
proof unfold_locales
  show "drive_action poll k = Some out" if "action_pass poll k = Some out" for poll k out
    using that by (subst drive_action_pass) simp
  show "drive_action poll k = drive_action poll (Suc k)" if "action_pass poll k = None" for poll k
    using that by (subst drive_action_pass) simp
qed (rule drive_action_waits)

text \<open>A panic of the handler, or of any poll, becomes the action's error.\<close>

lemma run_action_panics:
  "run_action (Panic payload) = Some (Inl (action_panic payload))"
  "future n = Panic payload \<Longrightarrow> (\<And>i. i < n \<Longrightarrow> future i = NoPanic None) \<Longrightarrow>
     run_action (NoPanic future) = Some (Inl (action_panic payload))"
  using executor.loop_first [of future 0 n]
  by (simp_all add: run_action_def action_pass_def)

lemma terminal_update_total:
  assumes "\<And>result a. out = Inr result \<Longrightarrow> a \<in> set (ar_artifacts result) \<Longrightarrow>
    art_artifact_id (sa_descriptor a) \<noteq> None"
  shows "\<exists>update. terminal_update jid out = Some update \<and>
    ju_job_id update = Some (PluginJobId jid) \<and>
    (ju_state update = job_state_i32 StateSucceeded \<longleftrightarrow>
       (\<exists>result wire. out = Inr result \<and> into_wire result jid = Some (Inr wire))) \<and>
    (ju_state update = job_state_i32 StateSucceeded \<longrightarrow> ju_error update = None) \<and>
    (ju_state update \<noteq> job_state_i32 StateSucceeded \<longrightarrow>
       ju_state update = job_state_i32 StateFailed \<and> ju_result update = None \<and>
       ju_artifacts update = [] \<and>
       (\<exists>pe. ju_error update = Some pe \<and> validate_protocol_error pe = Inr ()))"
proof (cases out)
  case (Inl e)
  obtain pe where "outbound_error e = Some pe" "validate_protocol_error pe = Inr ()"
    using outbound_error_valid by blast
  with Inl show ?thesis by (simp add: terminal_update_def)
next
  case (Inr result)
  have "into_wire result jid \<noteq> None"
    using assms Inr by (intro into_wire_total) auto
  then obtain w where w: "into_wire result jid = Some w" by auto
  show ?thesis
  proof (cases w)
    case (Inl e)
    obtain pe where "outbound_error e = Some pe" "validate_protocol_error pe = Inr ()"
      using outbound_error_valid by blast
    with Inl Inr w show ?thesis by (simp add: terminal_update_def)
  next
    case (Inr p)
    with \<open>out = Inr result\<close> w show ?thesis
      by (cases p) (simp add: terminal_update_def)
  qed
qed

section \<open>Outputs\<close>

fun output_of :: "plugin_envelope \<Rightarrow> job_output list" where
  "output_of e =
     (case env_payload e of
        Some (PJobAccepted accepted) \<Rightarrow>
          (case (reply_to e, ja_job_id accepted) of
             (Some mid, Some jid) \<Rightarrow> [OutAccepted mid (plugin_job_id_value jid)] | _ \<Rightarrow> [])
      | Some (PProtocolError _) \<Rightarrow>
          (case reply_to e of Some mid \<Rightarrow> [OutRefused mid] | None \<Rightarrow> [])
      | Some (PCancelJobAcknowledged ack) \<Rightarrow>
          (case (reply_to e, env_trace e, cja_job_id ack) of
             (Some mid, Some trace, Some jid) \<Rightarrow>
               [OutAcknowledged \<lparr>pc_reply_to = mid, pc_trace = trace, pc_job_id = jid\<rparr>]
           | _ \<Rightarrow> [])
      | Some (PJobUpdate update) \<Rightarrow>
          (case ju_job_id update of Some jid \<Rightarrow> [OutUpdated (plugin_job_id_value jid)] | None \<Rightarrow> [])
      | _ \<Rightarrow> [])"

declare output_of.simps [simp del]

definition outputs :: "plugin_envelope list \<Rightarrow> job_output list" where
  "outputs es = concat (map output_of es)"

lemma outputs_simps [simp]:
  "outputs [] = []" "outputs (e # es) = output_of e @ outputs es"
  "outputs (es @ fs) = outputs es @ outputs fs"
  by (simp_all add: outputs_def)

lemma output_of_seal [simp]:
  "output_of (seal_envelope s m (Some mid) trace (PJobAccepted \<lparr>ja_job_id = Some (PluginJobId j)\<rparr>)) =
     [OutAccepted mid j]"
  "output_of (seal_envelope s m (Some mid) trace (PProtocolError pe)) = [OutRefused mid]"
  "output_of (seal_envelope s m (Some (pc_reply_to c)) (pc_trace c)
     (PCancelJobAcknowledged \<lparr>cja_job_id = Some (pc_job_id c)\<rparr>)) = [OutAcknowledged c]"
  "ju_job_id update = Some (PluginJobId j) \<Longrightarrow>
     output_of (seal_envelope s m reply trace (PJobUpdate update)) = [OutUpdated j]"
  by (simp_all add: output_of.simps seal_envelope_def)

text \<open>What a step of the manager, or of its tasks, adds to the output.\<close>

definition emits :: "job_output list \<Rightarrow> host_client \<Rightarrow> host_client \<Rightarrow> bool" where
  "emits outs h h' \<longleftrightarrow>
     client_step h h' \<and> (\<exists>es. client_wire h' = client_wire h @ es \<and> outputs es = outs)"

lemma emits_refl [simp, intro]: "emits [] h h"
  by (auto simp: emits_def)

lemma emits_trans: "emits xs h h' \<Longrightarrow> emits ys h' h'' \<Longrightarrow> emits (xs @ ys) h h''"
  unfolding emits_def using client_step_trans by fastforce

lemma client_step_send:
  "client_step hc (hc\<lparr>hc_sender := snd (send reply trace payload (hc_sender hc))\<rparr>)"
  using send_extends send_inv
  by (auto simp: client_step_def client_inv_def intro: request_on_wire_extends [OF _ send_extends])

lemma send_from_cases:
  assumes "send_from reply trace payload jm = (result, jm')"
  obtains (sent) hc where "result = Inr ()" "jm' = jm\<lparr>jm_host := hc\<rparr>"
      "emits (output_of (seal_envelope (client_identity (jm_host jm))
         (ss_next_message_id (hc_sender (jm_host jm))) reply trace payload)) (jm_host jm) hc"
    | (unsent) e hc where "result = Inl e" "jm' = jm\<lparr>jm_host := hc\<rparr>" "emits [] (jm_host jm) hc"
proof -
  obtain r s where send: "send reply trace payload (hc_sender (jm_host jm)) = (r, s)"
    by (cases "send reply trace payload (hc_sender (jm_host jm))")
  with client_step_send [of "jm_host jm" reply trace payload]
  have step: "client_step (jm_host jm) ((jm_host jm)\<lparr>hc_sender := s\<rparr>)" by simp
  have eq: "result = and_then r (\<lambda>_. Inr ())" "jm' = jm\<lparr>jm_host := (jm_host jm)\<lparr>hc_sender := s\<rparr>\<rparr>"
    using assms send by (auto simp: send_from_def)
  show thesis
  proof (cases r)
    case (Inl e)
    with send have "wire_envelopes s = client_wire (jm_host jm)"
      by (auto simp: send_eq wire_envelopes_def split: if_splits)
    with eq step Inl show ?thesis by (intro unsent) (auto simp: emits_def)
  next
    case (Inr mid)
    with send have "wire_envelopes s = client_wire (jm_host jm) @
        [seal_envelope (client_identity (jm_host jm)) (ss_next_message_id (hc_sender (jm_host jm)))
           reply trace payload]"
      by (auto simp: send_eq wire_envelopes_def split: if_splits)
    with eq step Inr show ?thesis by (intro sent) (auto simp: emits_def)
  qed
qed

text \<open>A world of tasks that respects the client and sends nothing in the manager's name.\<close>

definition orderly :: "(nat \<Rightarrow> host_client \<Rightarrow> host_client) \<Rightarrow> bool" where
  "orderly world \<longleftrightarrow> (\<forall>i h. emits [] h (world i h))"

lemma send_acknowledgements_ok:
  assumes "send_acknowledgements world i cs jm = (result, jm')" and "orderly world"
  shows "\<exists>hc ds. jm' = jm\<lparr>jm_host := hc\<rparr> \<and> emits (map OutAcknowledged ds) (jm_host jm) hc \<and>
    prefix ds cs \<and> (result = Inr () \<longrightarrow> ds = cs)"
  using assms(1)
proof (induction cs arbitrary: i jm)
  case Nil
  then show ?case by (intro exI [of _ "jm_host jm"] exI [of _ "[]"]) simp
next
  case (Cons c cs)
  let ?jm = "jm\<lparr>jm_host := world i (jm_host jm)\<rparr>"
  have world: "emits [] (jm_host jm) (jm_host ?jm)" using assms(2) by (simp add: orderly_def)
  obtain r jm1 where ack: "send_cancellation_acknowledgement c ?jm = (r, jm1)"
    by (cases "send_cancellation_acknowledgement c ?jm")
  from ack [unfolded send_cancellation_acknowledgement_def] show ?case
  proof (cases rule: send_from_cases)
    case (sent hc)
    from sent(1) ack Cons.prems have "send_acknowledgements world (Suc i) cs jm1 = (result, jm')"
      by simp
    from Cons.IH [OF this] obtain hc' ds where "jm' = jm1\<lparr>jm_host := hc'\<rparr>"
      "emits (map OutAcknowledged ds) (jm_host jm1) hc'" "prefix ds cs" "result = Inr () \<longrightarrow> ds = cs"
      by blast
    with emits_trans [OF world sent(3)] emits_trans [of "[OutAcknowledged c]" "jm_host jm" hc _ hc'] sent
    show ?thesis by (intro exI [of _ hc'] exI [of _ "c # ds"]) simp
  next
    case (unsent e hc)
    with emits_trans [OF world unsent(3)] ack Cons.prems show ?thesis
      by (intro exI [of _ hc] exI [of _ "[]"]) auto
  qed
qed

section \<open>The branches of the operations\<close>

lemma jobs_start_cases:
  assumes "jobs_start parse_uuid mid trace req jm = (result, jm')"
  obtains (failed) e hc where "result = Inl e" "jm' = jm\<lparr>jm_host := hc\<rparr>" "emits [] (jm_host jm) hc"
    | (refused) j hc where "result = Inr ()" "sj_job_id req = Some (PluginJobId j)"
        "canonical_uuid_v4 parse_uuid j" "hm_get (jm_active jm) j = None"
        "unat (jm_maximum jm) \<le> hm_len (jm_active jm)"
        "jm' = jm\<lparr>jm_host := hc\<rparr>" "emits [OutRefused mid] (jm_host jm) hc"
    | (accepted) j hc action arguments where "result = Inr ()" "sj_job_id req = Some (PluginJobId j)"
        "canonical_uuid_v4 parse_uuid j" "hm_get (jm_active jm) j = None"
        "hm_len (jm_active jm) < unat (jm_maximum jm)" "emits [OutAccepted mid j] (jm_host jm) hc"
        "jm' = jm\<lparr>jm_host := hc,
           jm_tokens := jm_tokens jm @ [ACTIVE],
           jm_tasks := jm_tasks jm @
             [\<lparr>jt_job_id = j, jt_controller = length (jm_tokens jm), jt_action = action,
               jt_context = \<lparr>ac_job_id = j, ac_deadline = sj_deadline req, ac_trace = trace,
                             ac_parent_call_id = mid\<rparr>,
               jt_arguments = arguments, jt_state = Running\<rparr>],
           jm_active := hm_insert j
             \<lparr>aj_controller = length (jm_tokens jm), aj_trace = trace, aj_cancellations = []\<rparr>
             (jm_active jm)\<rparr>"
proof (cases "validate_job_id parse_uuid (sj_job_id req)")
  case (Inl e)
  with assms show ?thesis by (intro failed [of e "jm_host jm"]) (auto simp: jobs_start_def)
next
  case jid: (Inr j)
  note j = jid [unfolded validate_job_id_Inr_iff]
  show ?thesis
  proof (cases "optional_timestamp (sj_deadline req) ''StartJobRequest deadline'' = Inr () \<and>
      \<not> hm_contains_key (jm_active jm) j \<and>
      (\<exists>invocation action. sj_invocation req = Some (ActionInvocation invocation) \<and>
         hm_get (jm_actions jm) (inv_action invocation) = Some action)")
    case False
    then have "\<exists>e. jobs_start parse_uuid mid trace req jm = (Inl e, jm)"
      using jid
      by (cases "optional_timestamp (sj_deadline req) ''StartJobRequest deadline''")
        (auto simp: jobs_start_def ok_or_def split: option.splits job_invocation.splits)
    with assms show ?thesis by (auto intro: failed [of _ "jm_host jm"])
  next
    case True
    then obtain invocation action where ok:
      "optional_timestamp (sj_deadline req) ''StartJobRequest deadline'' = Inr ()"
      "hm_get (jm_active jm) j = None"
      "sj_invocation req = Some (ActionInvocation invocation)"
      "hm_get (jm_actions jm) (inv_action invocation) = Some action"
      by (auto simp: hm_contains_key_def)
    show ?thesis
    proof (cases "unat (jm_maximum jm) \<le> hm_len (jm_active jm)")
      case full: True
      with assms jid ok
      have "send_from (Some mid) trace (PProtocolError (capacity_error (jm_maximum jm))) jm = (result, jm')"
        by (simp add: jobs_start_def hm_contains_key_def)
      then show ?thesis
      proof (cases rule: send_from_cases)
        case (sent hc)
        with full ok j show ?thesis by (intro refused [of j hc]) simp_all
      qed (auto intro: failed)
    next
      case False
      obtain r jm1 where send: "send_from (Some mid) trace
          (PJobAccepted \<lparr>ja_job_id = Some (PluginJobId j)\<rparr>) jm = (r, jm1)"
        by (cases "send_from (Some mid) trace (PJobAccepted \<lparr>ja_job_id = Some (PluginJobId j)\<rparr>) jm")
      note eq = assms [unfolded jobs_start_def jid]
      from send show ?thesis
      proof (cases rule: send_from_cases)
        case (sent hc)
        with eq send ok j False show ?thesis
          by (intro accepted [of j hc action "inv_arguments invocation"])
            (simp_all add: hm_contains_key_def Let_def)
      next
        case (unsent e hc)
        with eq send ok False show ?thesis
          by (intro failed [of e hc]) (simp_all add: hm_contains_key_def)
      qed
    qed
  qed
qed

lemma jobs_cancel_cases:
  assumes "jobs_cancel parse_uuid mid trace req jm = (result, jm')"
  obtains (failed) e hc where "result = Inl e" "jm' = jm\<lparr>jm_host := hc\<rparr>" "emits [] (jm_host jm) hc"
    | (active) j job where "result = Inr ()" "cj_job_id req = Some (PluginJobId j)"
        "canonical_uuid_v4 parse_uuid j" "cj_reason req \<noteq> 0" "hm_get (jm_active jm) j = Some job"
        "jm' = jm\<lparr>jm_tokens := fire_token cancel (aj_controller job) (jm_tokens jm),
           jm_active := hm_insert j
             (job\<lparr>aj_cancellations := aj_cancellations job @
                [\<lparr>pc_reply_to = mid, pc_trace = trace, pc_job_id = PluginJobId j\<rparr>]\<rparr>) (jm_active jm)\<rparr>"
    | (inactive) j hc where "result = Inr ()" "cj_job_id req = Some (PluginJobId j)"
        "canonical_uuid_v4 parse_uuid j" "cj_reason req \<noteq> 0" "hm_get (jm_active jm) j = None"
        "jm' = jm\<lparr>jm_host := hc\<rparr>"
        "emits [OutAcknowledged \<lparr>pc_reply_to = mid, pc_trace = trace, pc_job_id = PluginJobId j\<rparr>]
           (jm_host jm) hc"
proof (cases "validate_job_id parse_uuid (cj_job_id req)")
  case (Inl e)
  with assms show ?thesis by (intro failed [of e "jm_host jm"]) (auto simp: jobs_cancel_def)
next
  case jid: (Inr j)
  note j = jid [unfolded validate_job_id_Inr_iff]
  show ?thesis
  proof (cases "cancellation_reason (cj_reason req)")
    case (Inl e)
    with jid assms show ?thesis by (intro failed [of e "jm_host jm"]) (auto simp: jobs_cancel_def)
  next
    case reason: (Inr u)
    then have nonzero: "cj_reason req \<noteq> 0" by (simp add: cancellation_reason_ok_iff)
    show ?thesis
    proof (cases "hm_get (jm_active jm) j")
      case (Some job)
      with assms jid reason j nonzero show ?thesis
        by (intro active [of j job]) (auto simp: jobs_cancel_def Let_def)
    next
      case None
      let ?c = "\<lparr>pc_reply_to = mid, pc_trace = trace, pc_job_id = PluginJobId j\<rparr>"
      from None assms jid reason
      have "send_from (Some (pc_reply_to ?c)) (pc_trace ?c)
          (PCancelJobAcknowledged \<lparr>cja_job_id = Some (pc_job_id ?c)\<rparr>) jm = (result, jm')"
        by (simp add: jobs_cancel_def send_cancellation_acknowledgement_def)
      then show ?thesis
      proof (cases rule: send_from_cases)
        case (sent hc)
        with None j nonzero sent(3) [unfolded output_of_seal(3)] show ?thesis
          by (intro inactive [of j hc]) simp_all
      qed (auto intro: failed)
    qed
  qed
qed

text \<open>Outside the module a \<open>StoredArtifact\<close> comes from \<open>store_artifact\<close> only, so it has an ID.\<close>

definition identified :: "action_result sdk_result \<Rightarrow> bool" where
  "identified out \<longleftrightarrow>
     (\<forall>result. out = Inr result \<longrightarrow>
        (\<forall>a \<in> set (ar_artifacts result). art_artifact_id (sa_descriptor a) \<noteq> None))"

lemma jobs_settle_cases:
  assumes "hm_get (jm_active jm) (fa_job_id f) = Some job" and "identified (fa_output f)"
    and "orderly world"
  obtains (failed) e hc where "jobs_settle world f jm = Some (Inl e, jm\<lparr>jm_host := hc, jm_active :=
        hm_insert (fa_job_id f) (job\<lparr>aj_cancellations := []\<rparr>) (jm_active jm)\<rparr>)"
    | (updated) hc where "jobs_settle world f jm = Some (Inr (), jm\<lparr>jm_host := hc, jm_active :=
        hm_remove (fa_job_id f)
          (hm_insert (fa_job_id f) (job\<lparr>aj_cancellations := []\<rparr>) (jm_active jm))\<rparr>)"
        "aj_cancellations job = []" "emits [OutUpdated (fa_job_id f)] (jm_host jm) hc"
    | (acknowledged) hc where "jobs_settle world f jm = Some (Inr (), jm\<lparr>jm_host := hc, jm_active :=
        hm_remove (fa_job_id f)
          (hm_insert (fa_job_id f) (job\<lparr>aj_cancellations := []\<rparr>) (jm_active jm))\<rparr>)"
        "aj_cancellations job \<noteq> []"
        "emits (map OutAcknowledged (aj_cancellations job)) (jm_host jm) hc"
proof -
  let ?active = "hm_insert (fa_job_id f) (job\<lparr>aj_cancellations := []\<rparr>) (jm_active jm)"
  let ?jm1 = "jm\<lparr>jm_active := ?active\<rparr>"
  show thesis
  proof (cases "aj_cancellations job = []")
    case True
    from assms(2) obtain update where update: "terminal_update (fa_job_id f) (fa_output f) = Some update"
      "ju_job_id update = Some (PluginJobId (fa_job_id f))"
      using terminal_update_total [of "fa_output f" "fa_job_id f"] by (auto simp: identified_def)
    let ?jm2 = "?jm1\<lparr>jm_host := world 0 (jm_host ?jm1)\<rparr>"
    obtain r jm3 where send: "send_from None (aj_trace job) (PJobUpdate update) ?jm2 = (r, jm3)"
      by (cases "send_from None (aj_trace job) (PJobUpdate update) ?jm2")
    have world: "emits [] (jm_host jm) (jm_host ?jm2)" using assms(3) by (simp add: orderly_def)
    from send show thesis
    proof (cases rule: send_from_cases)
      case (sent hc)
      from emits_trans [OF world sent(3)] update(2)
      have "emits [OutUpdated (fa_job_id f)] (jm_host jm) hc" by simp
      with True assms(1) update send sent show thesis
        by (intro updated [of hc]) (simp_all add: jobs_settle_def hm.get_insert)
    next
      case (unsent e hc)
      with True assms(1) update send show thesis
        by (intro failed [of e hc]) (simp_all add: jobs_settle_def)
    qed
  next
    case False
    obtain r jm2 where send: "send_acknowledgements world 0 (aj_cancellations job) ?jm1 = (r, jm2)"
      by (cases "send_acknowledgements world 0 (aj_cancellations job) ?jm1")
    from send_acknowledgements_ok [OF send assms(3)] obtain hc ds where
      hc: "jm2 = ?jm1\<lparr>jm_host := hc\<rparr>" "emits (map OutAcknowledged ds) (jm_host jm) hc"
        "r = Inr () \<longrightarrow> ds = aj_cancellations job" by auto
    show thesis
    proof (cases r)
      case (Inl e)
      with False assms(1) send hc show thesis
        by (intro failed [of e hc]) (simp_all add: jobs_settle_def)
    next
      case (Inr u)
      with False assms(1) send hc show thesis
        by (intro acknowledged [of hc]) (simp_all add: jobs_settle_def hm.get_insert)
    qed
  qed
qed

lemma jobs_shutdown_cases:
  assumes "jobs_shutdown iter world jm = (result, jm')" and "orderly world"
  obtains (failed) e where "result = Inl e" "jm_tasks jm' = []"
    | (closed) hc cs where "result = Inr ()" "jm_tasks jm' = []" "jm_active jm' = hm_empty"
        "jm_maximum jm' = jm_maximum jm" "jm_host jm' = hc"
        "cs = concat (map (aj_cancellations \<circ> snd) (iter (jm_active jm)))"
        "emits (map OutAcknowledged cs) (jm_host jm) hc"
        "jm_tokens jm' = fold (\<lambda>t. fire_token finish (jt_controller t)) (jm_tasks jm)
           (fold (\<lambda>job. fire_token cancel (aj_controller job)) (map snd (iter (jm_active jm)))
              (jm_tokens jm))"
proof -
  define jm1 where "jm1 = jm\<lparr>jm_tokens :=
      fold (\<lambda>t. fire_token finish (jt_controller t)) (jm_tasks jm)
        (fold (\<lambda>job. fire_token cancel (aj_controller job)) (map snd (iter (jm_active jm)))
           (jm_tokens jm)),
      jm_tasks := [],
      jm_active := map (\<lambda>(jid, job). (jid, job\<lparr>aj_cancellations := []\<rparr>)) (jm_active jm)\<rparr>"
  define cs where "cs = concat (map (aj_cancellations \<circ> snd) (iter (jm_active jm)))"
  obtain r jm2 where send: "send_acknowledgements world 0 cs jm1 = (r, jm2)"
    by (cases "send_acknowledgements world 0 cs jm1")
  from send_acknowledgements_ok [OF send assms(2)] obtain hc ds where
    hc: "jm2 = jm1\<lparr>jm_host := hc\<rparr>" "emits (map OutAcknowledged ds) (jm_host jm) hc"
      "r = Inr () \<longrightarrow> ds = cs" by (auto simp: jm1_def)
  have "jobs_shutdown iter world jm =
      st_and_then (send_acknowledgements world 0 cs jm1) (\<lambda>_ jm2. (Inr (), jm2\<lparr>jm_active := hm_empty\<rparr>))"
    by (simp add: jobs_shutdown_def Let_def jm1_def cs_def)
  with assms(1) send have eq: "st_and_then (r, jm2) (\<lambda>_ jm2. (Inr (), jm2\<lparr>jm_active := hm_empty\<rparr>)) = (result, jm')"
    by simp
  show thesis
  proof (cases r)
    case (Inl e)
    with eq hc show thesis by (intro failed [of e]) (auto simp: jm1_def)
  next
    case (Inr u)
    with eq hc show thesis by (intro closed [of hc cs]) (auto simp: jm1_def cs_def)
  qed
qed

end
