(* ===== verification/Jobs_Refinement.thy ===== *)
theory Jobs_Refinement
  imports Jobs_Correct
begin

text \<open>
  The invariant of the job manager, the step relation of the manager together with the
  tasks it has spawned, and the simulation of every such step by the ledger.
\<close>

section \<open>The invariant\<close>

text \<open>
  \<open>hand\<close> holds the jobs whose task has been joined and whose output is not settled yet. A
  running action's token is cancelled exactly when a cancellation waits for it; the token
  of an action that has ended is closed.
\<close>

definition token_ok :: "u8 list \<Rightarrow> active_job \<Rightarrow> task_state \<Rightarrow> bool" where
  "token_ok tokens job state \<longleftrightarrow>
     (if state = Running
      then tokens ! aj_controller job = (if aj_cancellations job = [] then ACTIVE else CANCELLED)
      else tokens ! aj_controller job \<noteq> ACTIVE)"

definition task_ok :: "'h job_manager \<Rightarrow> 'h job_task \<Rightarrow> bool" where
  "task_ok jm t \<longleftrightarrow>
     (\<exists>job. hm_get (jm_active jm) (jt_job_id t) = Some job \<and>
        jt_controller t = aj_controller job \<and> token_ok (jm_tokens jm) job (jt_state t)) \<and>
     (\<forall>out. jt_state t = Completed out \<longrightarrow> identified out)"

definition own_tokens :: "'h job_manager \<Rightarrow> bool" where
  "own_tokens jm \<longleftrightarrow>
     (\<forall>j job. hm_get (jm_active jm) j = Some job \<longrightarrow> aj_controller job < length (jm_tokens jm)) \<and>
     (\<forall>j k job job'. hm_get (jm_active jm) j = Some job \<longrightarrow> hm_get (jm_active jm) k = Some job' \<longrightarrow>
        aj_controller job = aj_controller job' \<longrightarrow> j = k)"

definition jobs_inv :: "string list \<Rightarrow> 'h job_manager \<Rightarrow> bool" where
  "jobs_inv hand jm \<longleftrightarrow>
     client_inv (jm_host jm) \<and> hm_wf (jm_active jm) \<and>
     hm_len (jm_active jm) \<le> unat (jm_maximum jm) \<and>
     distinct (map jt_job_id (jm_tasks jm) @ hand) \<and>
     set (map jt_job_id (jm_tasks jm) @ hand) = dom (hm_get (jm_active jm)) \<and>
     own_tokens jm \<and> (\<forall>t \<in> set (jm_tasks jm). task_ok jm t)"

lemma jobs_inv_host:
  "jobs_inv hand jm \<Longrightarrow> emits outs (jm_host jm) hc \<Longrightarrow> jobs_inv hand (jm\<lparr>jm_host := hc\<rparr>)"
  by (auto simp: jobs_inv_def emits_def client_step_def own_tokens_def task_ok_def)

lemma new_job_manager_inv: "client_inv host \<Longrightarrow> jobs_inv [] (new_job_manager actions maximum host)"
  by (simp add: jobs_inv_def new_job_manager_def own_tokens_def hm.map_laws hm.len_empty)

text \<open>The \<open>expect\<close> of \<open>join_next\<close>: with an active job, there is a task to join.\<close>

lemma active_has_task: "jobs_inv [] jm \<Longrightarrow> has_active_jobs jm \<Longrightarrow> jm_tasks jm \<noteq> []"
  by (auto simp: jobs_inv_def has_active_jobs_def hm.len_card)

lemma jobs_start_inv:
  assumes "jobs_start parse_uuid mid trace req jm = (result, jm')" and "jobs_inv hand jm"
  shows "jobs_inv hand jm'"
  using assms(1)
proof (cases rule: jobs_start_cases)
  case (accepted j hc action arguments)
  have inv: "client_inv hc" "hm_wf (jm_active jm)" "own_tokens jm"
    "distinct (map jt_job_id (jm_tasks jm) @ hand)"
    "set (map jt_job_id (jm_tasks jm) @ hand) = dom (hm_get (jm_active jm))"
    "\<And>t. t \<in> set (jm_tasks jm) \<Longrightarrow> task_ok jm t"
    using assms(2) accepted(6) by (auto simp: jobs_inv_def emits_def client_step_def)
  then have fresh: "j \<notin> set (map jt_job_id (jm_tasks jm) @ hand)" using accepted(4) by auto
  have own: "own_tokens jm'"
    using inv(3) unfolding own_tokens_def accepted(7)
    by (auto simp: hm.get_insert less_Suc_eq split: if_splits) (metis less_irrefl)+
  have old: "task_ok jm' t" if "t \<in> set (jm_tasks jm)" for t
  proof -
    from that fresh have "jt_job_id t \<noteq> j" by auto
    with inv(6) [OF that] inv(3) accepted(7) show ?thesis
      by (auto simp: task_ok_def token_ok_def own_tokens_def hm.get_insert nth_append)
  qed
  have "task_ok jm' \<lparr>jt_job_id = j, jt_controller = length (jm_tokens jm), jt_action = action,
      jt_context = \<lparr>ac_job_id = j, ac_deadline = sj_deadline req, ac_trace = trace,
        ac_parent_call_id = mid\<rparr>, jt_arguments = arguments, jt_state = Running\<rparr>"
    by (simp add: accepted(7) task_ok_def token_ok_def hm.get_insert)
  with old own inv fresh accepted(4,5) show ?thesis
    unfolding jobs_inv_def
    by (auto simp: accepted(7) hm.wf_insert hm.len_insert_fresh hm.get_insert)
qed (use assms(2) jobs_inv_host in blast)+

lemma fire_token_nth:
  "k < length tokens \<Longrightarrow>
     fire_token fire k tokens ! i = (if i = k then fst (fire (tokens ! k)) else tokens ! i)"
  by (simp add: fire_token_def)

lemma length_fire_token [simp]: "length (fire_token fire k tokens) = length tokens"
  by (simp add: fire_token_def)

lemma cancel_word: "fst (cancel w) = (if w = ACTIVE then CANCELLED else w)"
  and finish_word: "fst (finish w) = (if w = ACTIVE then FINISHED else w)"
  by (auto simp: cancel_def finish_def compare_exchange_def)

lemma state_words_distinct [simp]:
  "CANCELLED \<noteq> ACTIVE" "FINISHED \<noteq> ACTIVE" "ACTIVE \<noteq> CANCELLED" "ACTIVE \<noteq> FINISHED"
  "CANCELLED \<noteq> FINISHED" "FINISHED \<noteq> CANCELLED"
  by (simp_all add: state_words)

lemma own_tokens_index:
  "own_tokens jm \<Longrightarrow> hm_get (jm_active jm) j = Some job \<Longrightarrow> aj_controller job < length (jm_tokens jm)"
  by (auto simp: own_tokens_def)

lemma own_tokens_inject:
  "own_tokens jm \<Longrightarrow> hm_get (jm_active jm) j = Some job \<Longrightarrow> hm_get (jm_active jm) k = Some job' \<Longrightarrow>
     aj_controller job = aj_controller job' \<longleftrightarrow> j = k"
  unfolding own_tokens_def by (metis option.inject)

lemma jobs_cancel_inv:
  assumes "jobs_cancel parse_uuid mid trace req jm = (result, jm')" and "jobs_inv hand jm"
  shows "jobs_inv hand jm'"
  using assms(1)
proof (cases rule: jobs_cancel_cases)
  case (active j job)
  have inv: "hm_wf (jm_active jm)" "own_tokens jm" "\<And>t. t \<in> set (jm_tasks jm) \<Longrightarrow> task_ok jm t"
    using assms(2) by (auto simp: jobs_inv_def)
  note index = own_tokens_index [OF inv(2) active(5)] and inject = own_tokens_inject [OF inv(2) active(5)]
  have "own_tokens jm'"
    using inv(2) active(5) unfolding own_tokens_def active(6)
    by (auto simp: hm.get_insert split: if_splits)
  moreover have "task_ok jm' t" if "t \<in> set (jm_tasks jm)" for t
  proof -
    from inv(3) [OF that] obtain job' where job': "hm_get (jm_active jm) (jt_job_id t) = Some job'"
      "jt_controller t = aj_controller job'" "token_ok (jm_tokens jm) job' (jt_state t)"
      "\<forall>out. jt_state t = Completed out \<longrightarrow> identified out" by (auto simp: task_ok_def)
    with inject [OF job'(1)] index active(5) show ?thesis
      by (cases "jt_job_id t = j")
        (auto simp: active(6) task_ok_def token_ok_def hm.get_insert fire_token_nth cancel_word
          split: if_splits)
  qed
  moreover have "dom (hm_get (jm_active jm')) = dom (hm_get (jm_active jm))"
    using active(5) by (auto simp: active(6) hm.get_insert)
  ultimately show ?thesis
    using assms(2) active(5) unfolding jobs_inv_def
    by (simp add: active(6) hm.wf_insert hm.len_insert_present)
qed (use assms(2) jobs_inv_host in blast)+

section \<open>Tasks end and are joined\<close>

text \<open>A task that ends, with a result or without, drops its \<open>FinishGuard\<close>.\<close>

definition set_task_state :: "nat \<Rightarrow> task_state \<Rightarrow> 'h job_manager \<Rightarrow> 'h job_manager" where
  "set_task_state k state jm =
     jm\<lparr>jm_tasks := (jm_tasks jm)[k := (jm_tasks jm ! k)\<lparr>jt_state := state\<rparr>],
        jm_tokens := fire_token finish (jt_controller (jm_tasks jm ! k)) (jm_tokens jm)\<rparr>"

lemma task_ends_eq:
  "task_ends k called jm = Some jm' \<longleftrightarrow>
     k < length (jm_tasks jm) \<and> jt_state (jm_tasks jm ! k) = Running \<and>
     (\<exists>out. run_action called = Some out \<and> jm' = set_task_state k (Completed out) jm)"
  by (auto simp: task_ends_def set_task_state_def)

lemma map_update_same: "f y = f (xs ! k) \<Longrightarrow> map f (xs[k := y]) = map f xs"
  by (metis list_update_id map_update)

lemma distinct_tasks:
  "jobs_inv hand jm \<Longrightarrow> i < length (jm_tasks jm) \<Longrightarrow> k < length (jm_tasks jm) \<Longrightarrow>
     jt_job_id (jm_tasks jm ! i) = jt_job_id (jm_tasks jm ! k) \<Longrightarrow> i = k"
  using nth_eq_iff_index_eq [of "map jt_job_id (jm_tasks jm)" i k] by (auto simp: jobs_inv_def)

lemma set_task_state_inv:
  assumes inv: "jobs_inv hand jm" and k: "k < length (jm_tasks jm)"
    and state: "state \<noteq> Running" "\<forall>out. state = Completed out \<longrightarrow> identified out"
  shows "jobs_inv hand (set_task_state k state jm)"
proof -
  let ?jm = "set_task_state k state jm" and ?t = "jm_tasks jm ! k"
  have own: "own_tokens jm" and ok: "\<And>t. t \<in> set (jm_tasks jm) \<Longrightarrow> task_ok jm t"
    using inv by (auto simp: jobs_inv_def)
  from ok [of ?t] k obtain job where job: "hm_get (jm_active jm) (jt_job_id ?t) = Some job"
    "jt_controller ?t = aj_controller job" by (auto simp: task_ok_def)
  note index = own_tokens_index [OF own job(1)] and inject = own_tokens_inject [OF own job(1)]
  have others: "task_ok ?jm (jm_tasks jm ! i)" if "i < length (jm_tasks jm)" "i \<noteq> k" for i
  proof -
    let ?u = "jm_tasks jm ! i"
    from ok [of ?u] that obtain job' where job': "hm_get (jm_active jm) (jt_job_id ?u) = Some job'"
      "jt_controller ?u = aj_controller job'" "token_ok (jm_tokens jm) job' (jt_state ?u)"
      "\<forall>out. jt_state ?u = Completed out \<longrightarrow> identified out" by (auto simp: task_ok_def)
    have "jt_job_id ?t \<noteq> jt_job_id ?u" using distinct_tasks [OF inv that(1) k] that(2) by auto
    with inject [OF job'(1)] job job' index show ?thesis
      by (auto simp: task_ok_def token_ok_def set_task_state_def fire_token_nth)
  qed
  have "task_ok ?jm (?t\<lparr>jt_state := state\<rparr>)"
    using job index state
    by (auto simp: task_ok_def token_ok_def set_task_state_def fire_token_nth finish_word)
  with others have "\<forall>t \<in> set (jm_tasks ?jm). task_ok ?jm t"
    using k by (auto simp: set_task_state_def in_set_conv_nth nth_list_update)
  moreover have "map jt_job_id (jm_tasks ?jm) = map jt_job_id (jm_tasks jm)"
    by (simp add: set_task_state_def map_update_same)
  moreover have "own_tokens ?jm"
    using own by (simp add: own_tokens_def set_task_state_def)
  ultimately show ?thesis
    using inv unfolding jobs_inv_def by (simp add: set_task_state_def)
qed

lemma jobs_join_next_cases:
  assumes "jobs_join_next k jm = Joins (result, jm')"
  obtains t where "k < length (jm_tasks jm)" "t = jm_tasks jm ! k" "jt_state t \<noteq> Running"
    "jm' = jm\<lparr>jm_tasks := remove_nth k (jm_tasks jm)\<rparr>"
    "\<And>f. result = Inr f \<Longrightarrow> jt_state t = Completed (fa_output f) \<and> fa_job_id f = jt_job_id t"
  using assms
  by (intro that [of "jm_tasks jm ! k"])
    (auto simp: jobs_join_next_def Let_def split: if_splits task_state.splits)

lemma mset_remove_nth: "k < length xs \<Longrightarrow> mset xs = add_mset (xs ! k) (mset (remove_nth k xs))"
  by (subst id_take_nth_drop) (auto simp: remove_nth_def)

lemma remove_nth_map: "map f (remove_nth k xs) = remove_nth k (map f xs)"
  by (simp add: remove_nth_def take_map drop_map)

lemma jobs_join_next_inv:
  assumes "jobs_join_next k jm = Joins (Inr f, jm')" and "jobs_inv hand jm"
  shows "jobs_inv (fa_job_id f # hand) jm'" and "identified (fa_output f)"
    and "jm_host jm' = jm_host jm" and "jm_active jm' = jm_active jm"
    and "jm_maximum jm' = jm_maximum jm"
proof -
  from assms(1) obtain t where t: "k < length (jm_tasks jm)" "t = jm_tasks jm ! k"
    "jm' = jm\<lparr>jm_tasks := remove_nth k (jm_tasks jm)\<rparr>" "jt_state t = Completed (fa_output f)"
    "fa_job_id f = jt_job_id t" by (auto elim: jobs_join_next_cases)
  have "task_ok jm t" using assms(2) t(1,2) by (simp add: jobs_inv_def)
  with t(4) show "identified (fa_output f)" by (auto simp: task_ok_def)
  have ids: "mset (map jt_job_id (jm_tasks jm)) =
      add_mset (fa_job_id f) (mset (map jt_job_id (remove_nth k (jm_tasks jm))))"
    using mset_remove_nth [of k "map jt_job_id (jm_tasks jm)"] t by (simp add: remove_nth_map)
  have "distinct (map jt_job_id (jm_tasks jm) @ hand) \<longleftrightarrow>
      distinct (map jt_job_id (jm_tasks jm') @ fa_job_id f # hand)"
    by (intro mset_eq_imp_distinct_iff) (simp add: ids [unfolded mset_map] t(3))
  moreover have "set (map jt_job_id (jm_tasks jm) @ hand) =
      set (map jt_job_id (jm_tasks jm') @ fa_job_id f # hand)"
    by (intro mset_eq_setD) (simp add: ids [unfolded mset_map] t(3))
  moreover have "set (jm_tasks jm') \<subseteq> set (jm_tasks jm)"
    by (auto simp: t(3) remove_nth_def dest: in_set_takeD in_set_dropD)
  ultimately show "jobs_inv (fa_job_id f # hand) jm'"
    using assms(2) unfolding jobs_inv_def
    by (auto simp: t(3) own_tokens_def task_ok_def)
  show "jm_host jm' = jm_host jm" and "jm_active jm' = jm_active jm"
    and "jm_maximum jm' = jm_maximum jm" by (simp_all add: t(3))
qed

section \<open>Settling\<close>

lemma jobs_inv_remove:
  assumes "jobs_inv (j # hand) jm" and "emits outs (jm_host jm) hc"
  shows "jobs_inv hand (jm\<lparr>jm_host := hc,
    jm_active := hm_remove j (hm_insert j job (jm_active jm))\<rparr>)"
proof -
  let ?active = "hm_remove j (hm_insert j job (jm_active jm))"
  have get: "hm_get ?active = (hm_get (jm_active jm))(j := None)"
    by (simp add: hm.get_remove hm.get_insert)
  have present: "hm_get (jm_active jm) j \<noteq> None" and wf: "hm_wf (jm_active jm)"
    using assms(1) unfolding jobs_inv_def by auto
  have "Suc (hm_len ?active) = hm_len (hm_insert j job (jm_active jm))"
    using wf by (intro hm.len_remove_present) (simp_all add: hm.wf_insert hm.get_insert)
  then have "hm_len ?active \<le> hm_len (jm_active jm)"
    using hm.len_insert_present [OF wf present] by simp
  moreover have "client_inv hc"
    using assms by (auto simp: jobs_inv_def emits_def client_step_def)
  moreover have fresh: "j \<notin> set (map jt_job_id (jm_tasks jm))"
    and "set (map jt_job_id (jm_tasks jm) @ hand) = dom (hm_get ?active)"
    using assms(1) unfolding jobs_inv_def get by auto
  moreover have "task_ok (jm\<lparr>jm_host := hc, jm_active := ?active\<rparr>) t" if "t \<in> set (jm_tasks jm)" for t
  proof -
    have "jt_job_id t \<noteq> j" using fresh that by auto
    moreover have "task_ok jm t" using assms(1) that by (simp add: jobs_inv_def)
    ultimately show ?thesis by (simp add: task_ok_def get)
  qed
  moreover have "own_tokens (jm\<lparr>jm_host := hc, jm_active := ?active\<rparr>)"
    using assms(1) unfolding jobs_inv_def own_tokens_def by (simp add: get)
  moreover have "distinct (map jt_job_id (jm_tasks jm) @ hand)"
    using assms(1) by (simp add: jobs_inv_def)
  ultimately show ?thesis
    using assms(1) wf unfolding jobs_inv_def by (simp add: hm.wf_remove hm.wf_insert)
qed

text \<open>Settling a joined action never panics, and removes its job.\<close>

lemma jobs_settle_inv:
  assumes "jobs_inv (fa_job_id f # hand) jm" and "identified (fa_output f)" and "orderly world"
  obtains result jm' where "jobs_settle world f jm = Some (result, jm')"
    "result = Inr () \<Longrightarrow> jobs_inv hand jm'"
proof -
  have "set (map jt_job_id (jm_tasks jm) @ fa_job_id f # hand) = dom (hm_get (jm_active jm))"
    using assms(1) by (simp add: jobs_inv_def)
  moreover have "fa_job_id f \<in> set (map jt_job_id (jm_tasks jm) @ fa_job_id f # hand)" by simp
  ultimately have "fa_job_id f \<in> dom (hm_get (jm_active jm))" by (simp only:)
  then obtain job where job: "hm_get (jm_active jm) (fa_job_id f) = Some job" by blast
  note removed = jobs_inv_remove [OF assms(1), of _ _ "job\<lparr>aj_cancellations := []\<rparr>"]
  from job assms(2,3) show thesis
  proof (cases rule: jobs_settle_cases)
    case (failed e hc)
    show thesis by (rule that [OF failed]) simp
  next
    case (updated hc)
    show thesis by (rule that [OF updated(1) removed [OF updated(3)]])
  next
    case (acknowledged hc)
    show thesis by (rule that [OF acknowledged(1) removed [OF acknowledged(3)]])
  qed
qed

section \<open>The manager and its tasks as a step relation\<close>

text \<open>
  The steps whose result is \<open>Ok\<close>: an \<open>Err\<close> ends the session and drops the manager. The
  label is the request with the envelopes the step appends to the output.
\<close>

inductive jobs_step ::
  "uuid_parser \<Rightarrow> 'h job_manager \<Rightarrow> job_request \<times> plugin_envelope list \<Rightarrow> 'h job_manager \<Rightarrow> bool"
  for parse_uuid where
  step_start:
    "jobs_start parse_uuid mid trace req jm = (Inr (), jm') \<Longrightarrow>
     sj_job_id req = Some (PluginJobId j) \<Longrightarrow>
     client_wire (jm_host jm') = client_wire (jm_host jm) @ es \<Longrightarrow>
     jobs_step parse_uuid jm (Admit mid j, es) jm'"
| step_cancel:
    "jobs_cancel parse_uuid mid trace req jm = (Inr (), jm') \<Longrightarrow>
     cj_job_id req = Some jid \<Longrightarrow>
     client_wire (jm_host jm') = client_wire (jm_host jm) @ es \<Longrightarrow>
     jobs_step parse_uuid jm
       (Withdraw \<lparr>pc_reply_to = mid, pc_trace = trace, pc_job_id = jid\<rparr>, es) jm'"
| step_task_ends:
    "task_ends k called jm = Some jm' \<Longrightarrow>
     \<forall>out. run_action called = Some out \<longrightarrow> identified out \<Longrightarrow>
     jobs_step parse_uuid jm (Other, []) jm'"
| step_task_lost:
    "k < length (jm_tasks jm) \<Longrightarrow>
     jobs_step parse_uuid jm (Other, []) (set_task_state k (EndedWithoutResult error) jm)"
| step_tasks_act:
    "emits [] (jm_host jm) hc \<Longrightarrow> client_wire hc = client_wire (jm_host jm) @ es \<Longrightarrow>
     jobs_step parse_uuid jm (Other, es) (jm\<lparr>jm_host := hc\<rparr>)"
| step_finish:
    "jobs_join_next k jm = Joins (Inr f, jm1) \<Longrightarrow> orderly world \<Longrightarrow>
     jobs_settle world f jm1 = Some (Inr (), jm') \<Longrightarrow>
     client_wire (jm_host jm') = client_wire (jm_host jm) @ es \<Longrightarrow>
     jobs_step parse_uuid jm (Conclude (fa_job_id f), es) jm'"
| step_shutdown:
    "hash_order iter \<Longrightarrow> orderly world \<Longrightarrow>
     jobs_shutdown iter world jm = (Inr (), jm') \<Longrightarrow>
     client_wire (jm_host jm') = client_wire (jm_host jm) @ es \<Longrightarrow>
     jobs_step parse_uuid jm (CloseAll, es) jm'"

definition abs_jobs :: "'h job_manager \<Rightarrow> job_ledger" where
  "abs_jobs jm = (\<lambda>j. map_option aj_cancellations (hm_get (jm_active jm) j))"

definition abs_label :: "job_request \<times> plugin_envelope list \<Rightarrow> job_request \<times> job_output list" where
  "abs_label l = (fst l, outputs (snd l))"

lemma dom_abs_jobs: "dom (abs_jobs jm) = dom (hm_get (jm_active jm))"
  by (auto simp: abs_jobs_def)

lemma card_abs_jobs: "hm_wf (jm_active jm) \<Longrightarrow> card (dom (abs_jobs jm)) = hm_len (jm_active jm)"
  by (simp add: dom_abs_jobs hm.len_card)

lemma abs_jobs_host [simp]: "abs_jobs (jm\<lparr>jm_host := hc\<rparr>) = abs_jobs jm"
  by (simp add: abs_jobs_def)

lemma abs_jobs_upd:
  assumes "hm_get (jm_active jm') = (hm_get (jm_active jm))(j := job)"
  shows "abs_jobs jm' = (abs_jobs jm)(j := map_option aj_cancellations job)"
  using assms by (auto simp: abs_jobs_def)

lemma emits_outputs:
  "emits outs h h' \<Longrightarrow> client_wire h' = client_wire h @ es \<Longrightarrow> outputs es = outs"
  by (auto simp: emits_def)

lemma owed_abs_jobs:
  assumes "hm_wf (jm_active jm)" and "hash_order iter"
  shows "mset (concat (map (aj_cancellations \<circ> snd) (iter (jm_active jm)))) = owed (abs_jobs jm)"
proof -
  let ?m = "jm_active jm" and ?g = "\<lambda>e. mset (aj_cancellations (snd e))"
  have concat: "mset (concat (map (aj_cancellations \<circ> snd) xs)) = sum_mset (image_mset ?g (mset xs))"
    for xs :: "(string \<times> active_job) list" by (induction xs) auto
  have distinct: "distinct ?m" and inj: "inj_on fst (set ?m)"
    using assms(1) by (auto simp: hm_wf_def distinct_map)
  have "mset (concat (map (aj_cancellations \<circ> snd) (iter ?m))) = sum_mset (image_mset ?g (mset ?m))"
    by (simp only: concat hash_order_mset [OF assms(2)])
  also have "\<dots> = (\<Sum>e \<in> set ?m. ?g e)"
    using distinct by (simp add: sum_unfold_sum_mset mset_set_set)
  also have "\<dots> = (\<Sum>j \<in> fst ` set ?m. mset (the (abs_jobs jm j)))"
    using hm_get_mem [OF assms(1)]
    by (subst sum.reindex [OF inj]) (auto intro!: sum.cong simp: abs_jobs_def)
  also have "fst ` set ?m = dom (abs_jobs jm)"
    by (simp add: dom_abs_jobs hm_get_def [abs_def] dom_map_of_conv_image_fst)
  finally show ?thesis unfolding owed_def .
qed

text \<open>Each step keeps the invariant and is a step of the ledger.\<close>

lemma jobs_step_start:
  assumes "jobs_start parse_uuid mid trace req jm = (Inr (), jm')" and "jobs_inv hand jm"
    and "sj_job_id req = Some (PluginJobId j)"
    and "client_wire (jm_host jm') = client_wire (jm_host jm) @ es"
  shows "ledger_step (unat (jm_maximum jm)) (abs_jobs jm) (Admit mid j, outputs es) (abs_jobs jm')"
    and "jm_maximum jm' = jm_maximum jm"
proof -
  have card: "card (dom (abs_jobs jm)) = hm_len (jm_active jm)"
    using assms(2) by (simp add: jobs_inv_def card_abs_jobs)
  from assms(1) have "ledger_step (unat (jm_maximum jm)) (abs_jobs jm) (Admit mid j, outputs es) (abs_jobs jm')
      \<and> jm_maximum jm' = jm_maximum jm"
  proof (cases rule: jobs_start_cases)
    case (refused k hc)
    with assms(3) have "abs_jobs jm j = None" by (simp add: abs_jobs_def)
    from refuse [where s = "abs_jobs jm", OF this, of "unat (jm_maximum jm)" mid] refused card emits_outputs [OF refused(7)] assms(4)
    show ?thesis by simp
  next
    case (accepted k hc action arguments)
    then have k: "k = j" using assms(3) by simp
    then have "abs_jobs jm j = None" using accepted by (simp add: abs_jobs_def)
    from admit [where s = "abs_jobs jm", OF this, of "unat (jm_maximum jm)" mid] accepted(5) card
    have "ledger_step (unat (jm_maximum jm)) (abs_jobs jm) (Admit mid j, [OutAccepted mid j])
      ((abs_jobs jm)(j \<mapsto> []))" by simp
    moreover have "abs_jobs jm' = (abs_jobs jm)(j \<mapsto> [])"
      using abs_jobs_upd [of jm' jm j "Some \<lparr>aj_controller = length (jm_tokens jm),
        aj_trace = trace, aj_cancellations = []\<rparr>"]
      by (simp add: accepted(7) k hm.get_insert)
    ultimately show ?thesis
      using emits_outputs [OF accepted(6)] assms(4) accepted(7) k by simp
  qed auto
  then show "ledger_step (unat (jm_maximum jm)) (abs_jobs jm) (Admit mid j, outputs es) (abs_jobs jm')"
    and "jm_maximum jm' = jm_maximum jm" by simp_all
qed

lemma jobs_step_cancel:
  assumes "jobs_cancel parse_uuid mid trace req jm = (Inr (), jm')"
    and "cj_job_id req = Some jid"
    and "client_wire (jm_host jm') = client_wire (jm_host jm) @ es"
  shows "ledger_step (unat (jm_maximum jm)) (abs_jobs jm)
      (Withdraw \<lparr>pc_reply_to = mid, pc_trace = trace, pc_job_id = jid\<rparr>, outputs es) (abs_jobs jm')"
    and "jm_maximum jm' = jm_maximum jm"
proof -
  let ?c = "\<lparr>pc_reply_to = mid, pc_trace = trace, pc_job_id = jid\<rparr>"
  from assms(1) have "ledger_step (unat (jm_maximum jm)) (abs_jobs jm) (Withdraw ?c, outputs es)
      (abs_jobs jm') \<and> jm_maximum jm' = jm_maximum jm"
  proof (cases rule: jobs_cancel_cases)
    case (active j job)
    then have old: "abs_jobs jm j = Some (aj_cancellations job)" and jid: "jid = PluginJobId j"
      using assms(2) by (simp_all add: abs_jobs_def)
    have "abs_jobs jm' = (abs_jobs jm)(j \<mapsto> aj_cancellations job @ [?c])"
      using abs_jobs_upd [of jm' jm j "Some (job\<lparr>aj_cancellations := aj_cancellations job @ [?c]\<rparr>)"]
      by (simp add: active(6) hm.get_insert jid)
    with withdraw_active [where s = "abs_jobs jm", OF old, of ?c] jid active(6) assms(3) show ?thesis by (simp add: outputs_def)
  next
    case (inactive j hc)
    then have "abs_jobs jm j = None" and jid: "jid = PluginJobId j"
      using assms(2) by (simp_all add: abs_jobs_def)
    with withdraw_inactive [of "abs_jobs jm" j ?c] inactive emits_outputs [OF inactive(7)] assms(3)
    show ?thesis by simp
  qed auto
  then show "ledger_step (unat (jm_maximum jm)) (abs_jobs jm) (Withdraw ?c, outputs es) (abs_jobs jm')"
    and "jm_maximum jm' = jm_maximum jm" by simp_all
qed

lemma jobs_step_finish:
  assumes "jobs_join_next k jm = Joins (Inr f, jm1)" and "orderly world"
    and "jobs_settle world f jm1 = Some (Inr (), jm')" and "jobs_inv hand jm"
    and "client_wire (jm_host jm') = client_wire (jm_host jm) @ es"
  shows "ledger_step maximum (abs_jobs jm) (Conclude (fa_job_id f), outputs es) (abs_jobs jm')"
    and "jm_maximum jm' = jm_maximum jm" and "jobs_inv hand jm'"
proof -
  note joined = jobs_join_next_inv [OF assms(1,4)]
  show "jobs_inv hand jm'"
    using jobs_settle_inv [OF joined(1,2) assms(2)] assms(3) by fastforce
  have "set (map jt_job_id (jm_tasks jm1) @ fa_job_id f # hand) = dom (hm_get (jm_active jm1))"
    using joined(1) by (simp add: jobs_inv_def)
  moreover have "fa_job_id f \<in> set (map jt_job_id (jm_tasks jm1) @ fa_job_id f # hand)" by simp
  ultimately have "fa_job_id f \<in> dom (hm_get (jm_active jm1))" by (simp only:)
  then obtain job where job: "hm_get (jm_active jm1) (fa_job_id f) = Some job" by blast
  then have old: "abs_jobs jm (fa_job_id f) = Some (aj_cancellations job)"
    by (simp add: abs_jobs_def joined(4))
  have wire: "client_wire (jm_host jm') = client_wire (jm_host jm1) @ es"
    using assms(5) by (simp add: joined(3))
  have new: "abs_jobs jm' = (abs_jobs jm)(fa_job_id f := None)"
    if "jm_active jm' = hm_remove (fa_job_id f)
      (hm_insert (fa_job_id f) (job\<lparr>aj_cancellations := []\<rparr>) (jm_active jm1))"
    using abs_jobs_upd [of jm' jm "fa_job_id f" None] that
    by (simp add: hm.get_remove hm.get_insert joined(4))
  from job joined(2) assms(2)
  have "ledger_step maximum (abs_jobs jm) (Conclude (fa_job_id f), outputs es) (abs_jobs jm') \<and>
      jm_maximum jm' = jm_maximum jm"
  proof (cases rule: jobs_settle_cases)
    case (failed e hc)
    with assms(3) show ?thesis by simp
  next
    case (updated hc)
    with assms(3) have eq: "jm' = jm1\<lparr>jm_host := hc, jm_active := hm_remove (fa_job_id f)
        (hm_insert (fa_job_id f) (job\<lparr>aj_cancellations := []\<rparr>) (jm_active jm1))\<rparr>" by simp
    with emits_outputs [OF updated(3)] wire have "outputs es = [OutUpdated (fa_job_id f)]" by simp
    with conclude [where s = "abs_jobs jm" and j = "fa_job_id f"] old updated(2) new eq joined(5)
    show ?thesis by simp
  next
    case (acknowledged hc)
    with assms(3) have eq: "jm' = jm1\<lparr>jm_host := hc, jm_active := hm_remove (fa_job_id f)
        (hm_insert (fa_job_id f) (job\<lparr>aj_cancellations := []\<rparr>) (jm_active jm1))\<rparr>" by simp
    with emits_outputs [OF acknowledged(3)] wire
    have "outputs es = map OutAcknowledged (aj_cancellations job)" by simp
    with conclude_cancelled [where s = "abs_jobs jm" and j = "fa_job_id f", OF old acknowledged(2)]
      new eq joined(5)
    show ?thesis by simp
  qed
  then show "ledger_step maximum (abs_jobs jm) (Conclude (fa_job_id f), outputs es) (abs_jobs jm')"
    and "jm_maximum jm' = jm_maximum jm" by simp_all
qed

lemma jobs_step_shutdown:
  assumes "hash_order iter" and "orderly world" and "jobs_shutdown iter world jm = (Inr (), jm')"
    and "jobs_inv [] jm" and "client_wire (jm_host jm') = client_wire (jm_host jm) @ es"
  shows "ledger_step maximum (abs_jobs jm) (CloseAll, outputs es) (abs_jobs jm')"
    and "jm_maximum jm' = jm_maximum jm" and "jobs_inv [] jm'"
proof -
  from assms(3,2) have "ledger_step maximum (abs_jobs jm) (CloseAll, outputs es) (abs_jobs jm') \<and>
      jm_maximum jm' = jm_maximum jm \<and> jobs_inv [] jm'"
  proof (cases rule: jobs_shutdown_cases)
    case (closed hc cs)
    have "hm_wf (jm_active jm)" and client: "client_inv (jm_host jm)"
      using assms(4) by (simp_all add: jobs_inv_def)
    with owed_abs_jobs [OF _ assms(1)] closed(6) have "mset cs = owed (abs_jobs jm)" by blast
    moreover have "outputs es = map OutAcknowledged cs"
      using emits_outputs [OF closed(7)] assms(5) closed(5) by simp
    moreover have "abs_jobs jm' = Map.empty"
      by (simp add: abs_jobs_def closed(3) hm.get_empty)
    moreover have "jobs_inv [] jm'"
      using client closed(7) unfolding jobs_inv_def own_tokens_def
      by (simp add: closed(2,3,5) hm.map_laws hm.len_empty emits_def client_step_def)
    ultimately show ?thesis using close_all closed(4) by simp
  qed simp
  then show "ledger_step maximum (abs_jobs jm) (CloseAll, outputs es) (abs_jobs jm')"
    and "jm_maximum jm' = jm_maximum jm" and "jobs_inv [] jm'" by simp_all
qed

lemma jobs_step_refines:
  assumes "jobs_step parse_uuid jm l jm'" and "jobs_inv [] jm"
  shows "ledger_step (unat (jm_maximum jm)) (abs_jobs jm) (abs_label l) (abs_jobs jm')"
    and "jm_maximum jm' = jm_maximum jm" and "jobs_inv [] jm'"
proof -
  have other: "ledger_step m s (abs_label (Other, es)) s" if "outputs es = []" for m s es
    using that ledger_step.other by (simp add: abs_label_def)
  from assms(1) have "ledger_step (unat (jm_maximum jm)) (abs_jobs jm) (abs_label l) (abs_jobs jm') \<and>
      jm_maximum jm' = jm_maximum jm \<and> jobs_inv [] jm'"
  proof cases
    case (step_start mid trace req j es)
    with jobs_step_start assms(2) jobs_start_inv show ?thesis by (auto simp: abs_label_def)
  next
    case (step_cancel mid trace req jid es)
    with jobs_step_cancel assms(2) jobs_cancel_inv show ?thesis by (auto simp: abs_label_def)
  next
    case (step_task_ends k called)
    then have "jobs_inv [] jm'"
      using assms(2) by (auto simp: task_ends_eq intro: set_task_state_inv)
    moreover have "abs_jobs jm' = abs_jobs jm" "jm_maximum jm' = jm_maximum jm"
      using step_task_ends by (auto simp: task_ends_eq set_task_state_def abs_jobs_def)
    ultimately show ?thesis using other [of "[]"] step_task_ends by simp
  next
    case (step_task_lost k error)
    then have "jobs_inv [] jm'" using assms(2) by (auto intro: set_task_state_inv)
    moreover have "abs_jobs jm' = abs_jobs jm" "jm_maximum jm' = jm_maximum jm"
      using step_task_lost by (auto simp: set_task_state_def abs_jobs_def)
    ultimately show ?thesis using other [of "[]"] step_task_lost by simp
  next
    case (step_tasks_act hc es)
    with assms(2) jobs_inv_host emits_outputs [OF step_tasks_act(3)] other show ?thesis by fastforce
  next
    case (step_finish k f jm1 world es)
    with jobs_step_finish [OF step_finish(2-4) assms(2) step_finish(5)]
    show ?thesis by (auto simp: abs_label_def)
  next
    case (step_shutdown iter world es)
    with jobs_step_shutdown [OF step_shutdown(2-4) assms(2) step_shutdown(5)]
    show ?thesis by (auto simp: abs_label_def)
  qed
  then show "ledger_step (unat (jm_maximum jm)) (abs_jobs jm) (abs_label l) (abs_jobs jm')"
    and "jm_maximum jm' = jm_maximum jm" and "jobs_inv [] jm'" by simp_all
qed

interpretation jobs: invariant_system
  "\<lambda>jm. \<exists>actions maximum host. client_inv host \<and> jm = new_job_manager actions maximum host"
  "jobs_step parse_uuid" "jobs_inv []" for parse_uuid
proof unfold_locales
  show "jobs_inv [] jm"
    if "\<exists>actions maximum host. client_inv host \<and> jm = new_job_manager actions maximum host"
    for jm :: "'h job_manager" using that new_job_manager_inv by blast
  show "jobs_step parse_uuid jm l jm' \<Longrightarrow> jobs_inv [] jm \<Longrightarrow> jobs_inv [] jm'"
    for jm jm' :: "'h job_manager" and l by (rule jobs_step_refines(3))
qed

lemma jobs_run_refines:
  assumes "run (jobs_step parse_uuid) jm ls jm'" and "jobs_inv [] jm"
  shows "run (ledger_step (unat (jm_maximum jm))) (abs_jobs jm) (map abs_label ls) (abs_jobs jm')"
    and "jm_maximum jm' = jm_maximum jm"
proof -
  from assms have "run (ledger_step (unat (jm_maximum jm))) (abs_jobs jm) (map abs_label ls) (abs_jobs jm')
      \<and> jm_maximum jm' = jm_maximum jm"
  proof (induction rule: run.induct)
    case run_nil
    then show ?case by (simp add: run.run_nil)
  next
    case (run_snoc ls jm1 l jm2)
    then have "jobs_inv [] jm1" using jobs.run_inv by blast
    from jobs_step_refines [OF run_snoc.hyps(2) this] run_snoc.IH [OF run_snoc.prems]
    show ?case by (auto intro: run.run_snoc)
  qed
  then show "run (ledger_step (unat (jm_maximum jm))) (abs_jobs jm) (map abs_label ls) (abs_jobs jm')"
    and "jm_maximum jm' = jm_maximum jm" by simp_all
qed

text \<open>The labels are honest: together they are what the output has grown by.\<close>

lemma jobs_step_wire:
  "jobs_step parse_uuid jm l jm' \<Longrightarrow>
     client_wire (jm_host jm') = client_wire (jm_host jm) @ snd l"
  by (induction rule: jobs_step.induct) (auto simp: task_ends_eq set_task_state_def)

lemma jobs_run_wire:
  "run (jobs_step parse_uuid) jm ls jm' \<Longrightarrow>
     client_wire (jm_host jm') = client_wire (jm_host jm) @ all_outputs ls"
  by (induction rule: run.induct) (auto simp: all_outputs_def dest: jobs_step_wire)

lemma all_outputs_abs: "all_outputs (map abs_label ls) = outputs (all_outputs ls)"
  by (induction ls) (auto simp: all_outputs_def abs_label_def outputs_def)

lemma withdrawn_abs: "withdrawn (map abs_label ls) = withdrawn ls"
  by (induction ls rule: withdrawn.induct) (auto simp: abs_label_def)

end
