(* ===== verification/Session.thy ===== *)
theory Session
  imports Jobs_Refinement
begin

text \<open>
  \<open>src/runtime/session.rs\<close>: the handshake, the loop that serves the host's messages and the
  actions that finish, and the wait for the host to close the stream. The gRPC stream is
  tonic's: \<open>incoming.message()\<close> yields an error, the end of the stream or an envelope, and
  each of them is a parameter of the step that awaits it. \<open>closed\<close> says whether the
  output channel's receiving half is gone when the handshake sends.
\<close>

section \<open>Envelopes\<close>

type_synonym stream_message = "error_source + plugin_envelope option"

record session_state =
  st_identity :: session_identity
  st_last_host_message_id :: u64
  st_maximum_call_depth :: u32
  st_maximum_causal_depth :: u32

definition host_closed_stream :: sdk_error where
  "host_closed_stream = Transport ''host closed the plugin stream''"

definition message_ids_increase :: sdk_error where
  "message_ids_increase = Protocol ''host message IDs must be nonzero and strictly increasing''"

definition receive_initial :: "stream_message \<Rightarrow> plugin_envelope sdk_result" where
  "receive_initial message =
     (case message of
        Inl error \<Rightarrow> Inl (runtime ''receive initial HostHello'' error)
      | Inr None \<Rightarrow> Inl host_closed_stream
      | Inr (Some envelope) \<Rightarrow>
          if message_id envelope = 0 then Inl message_ids_increase else Inr envelope)"

definition validate_envelope ::
  "plugin_envelope \<Rightarrow> session_state \<Rightarrow> trace_context sdk_result \<times> session_state" where
  "validate_envelope envelope session =
     (if message_id envelope = 0 \<or> message_id envelope \<le> st_last_host_message_id session
      then (Inl message_ids_increase, session)
      else if env_session_id envelope \<noteq> si_session_id (st_identity session) \<or>
              env_plugin_instance_id envelope \<noteq> si_instance_id (st_identity session)
      then (Inl (Protocol ''host envelope belongs to another plugin instance''), session)
      else
        st_and_then
          (validate_trace envelope (st_maximum_call_depth session) (st_maximum_causal_depth session),
           session)
          (\<lambda>trace session.
             (Inr trace, session\<lparr>st_last_host_message_id := message_id envelope\<rparr>)))"

definition receive ::
  "stream_message \<Rightarrow> session_state \<Rightarrow> plugin_envelope sdk_result \<times> session_state" where
  "receive message session =
     (case message of
        Inl error \<Rightarrow> (Inl (runtime ''receive handshake envelope'' error), session)
      | Inr None \<Rightarrow> (Inl host_closed_stream, session)
      | Inr (Some envelope) \<Rightarrow>
          st_and_then (validate_envelope envelope session)
            (\<lambda>_ session. (Inr envelope, session)))"

section \<open>The handshake\<close>

definition check_hello ::
  "uuid_parser \<Rightarrow> 'h plugin \<Rightarrow> stream_message \<Rightarrow>
   (host_hello \<times> trace_context \<times> session_state) sdk_result" where
  "check_hello parse_uuid plugin message =
     and_then (receive_initial message) (\<lambda>first.
       if env_session_id first = [] \<or> env_plugin_instance_id first = []
       then Inl (Protocol ''HostHello envelope omitted its session or instance identity'')
       else if reply_to first \<noteq> None
       then Inl (Protocol ''HostHello must not reply to another message'')
       else case env_payload first of
         Some (PHostHello hello) \<Rightarrow>
           and_then (validate_host_hello parse_uuid (pl_plugin_id plugin) hello) (\<lambda>_.
           and_then (validate_trace first (hh_maximum_call_depth hello) (hh_maximum_causal_depth hello))
             (\<lambda>trace.
                Inr (hello, trace,
                  \<lparr>st_identity =
                     \<lparr>si_session_id = env_session_id first,
                      si_instance_id = env_plugin_instance_id first\<rparr>,
                   st_last_host_message_id = message_id first,
                   st_maximum_call_depth = hh_maximum_call_depth hello,
                   st_maximum_causal_depth = hh_maximum_causal_depth hello\<rparr>)))
       | _ \<Rightarrow> Inl (Protocol ''HostHello must be the first host message''))"

definition plugin_hello_for ::
  "((string, 'h registered_action) hash_map \<Rightarrow> (string \<times> 'h registered_action) list) \<Rightarrow>
   'h plugin \<Rightarrow> string \<Rightarrow> plugin_hello" where
  "plugin_hello_for iter plugin effective_name =
     \<lparr>ph_plugin_id = Some (PluginId (pl_plugin_id plugin)),
      ph_plugin_name = Some (PluginName effective_name),
      ph_actions = map (\<lambda>(name, action). \<lparr>ad_name = name, ad_description = ra_description action\<rparr>)
        (iter (pl_actions plugin)),
      ph_plugin_version = pl_version plugin\<rparr>"

text \<open>
  The session up to the call of \<open>serve\<close>, with the sender it leaves. \<^const>\<open>None\<close>: the
  \<open>expect\<close> of the validated plugin name panics.
\<close>

definition handshake ::
  "uuid_parser \<Rightarrow>
   ((string, 'h registered_action) hash_map \<Rightarrow> (string \<times> 'h registered_action) list) \<Rightarrow>
   (nat \<Rightarrow> bool) \<Rightarrow> 'h plugin \<Rightarrow> stream_message \<Rightarrow> stream_message \<Rightarrow>
   ((session_state \<times> host_client) sdk_result \<times> session_sender option) option" where
  "handshake parse_uuid iter closed plugin first second =
     (case check_hello parse_uuid plugin first of
        Inl e \<Rightarrow> Some (Inl e, None)
      | Inr (hello, trace, session) \<Rightarrow>
          (case hh_plugin_name hello of
             None \<Rightarrow> None
           | Some name \<Rightarrow>
               let sender = (new_sender (st_identity session))\<lparr>ss_closed := closed 0\<rparr>;
                   effective_name = plugin_name_value name
               in Some (case send None trace
                          (PPluginHello (plugin_hello_for iter plugin effective_name)) sender of
                    (Inl e, sender1) \<Rightarrow> (Inl e, Some sender1)
                  | (Inr _, sender1) \<Rightarrow>
                      (case receive second session of
                         (Inl e, session1) \<Rightarrow> (Inl e, Some sender1)
                       | (Inr ready, session1) \<Rightarrow>
                           if reply_to ready \<noteq> None \<or> env_trace ready \<noteq> Some trace \<or>
                              env_payload ready \<noteq> Some PReady
                           then (Inl (Protocol
                             ''host SessionReady must follow PluginHello with the HostHello trace''),
                             Some sender1)
                           else
                             (case send None trace PReady (sender1\<lparr>ss_closed := closed 1\<rparr>) of
                                (Inl e, sender2) \<Rightarrow> (Inl e, Some sender2)
                              | (Inr _, sender2) \<Rightarrow>
                                  (Inr (session1,
                                     new_host_client sender2 (si_session_id (st_identity session1))
                                       (hh_maximum_artifact_chunk_bytes hello)
                                       (hh_maximum_call_depth hello)),
                                   Some sender2))))))"

section \<open>Serving\<close>

record 'h serve_state =
  sv_jobs :: "'h job_manager"
  sv_session :: session_state

datatype serve_flow = Continue | Stop timestamp

text \<open>
  What the two branches of the loop's \<open>select!\<close> await, with what the environment decides
  for the handlers: the order of a map's values, what the tasks do while acknowledgements
  are sent, and the fate of the final acknowledgement.
\<close>

record serve_env =
  sn_iter :: "(string, active_job) hash_map \<Rightarrow> (string \<times> active_job) list"
  sn_world :: "nat \<Rightarrow> host_client \<Rightarrow> host_client"
  sn_consumed :: nat
  sn_acknowledgment :: "error_source + unit"

datatype serve_event = FinishedBranch nat | MessageBranch stream_message

definition on_jobs ::
  "unit sdk_result \<times> 'h job_manager \<Rightarrow> session_state \<Rightarrow> serve_flow sdk_result \<times> 'h serve_state" where
  "on_jobs step session =
     (and_then (fst step) (\<lambda>_. Inr Continue), \<lparr>sv_jobs = snd step, sv_session = session\<rparr>)"

definition route_to_jobs ::
  "u64 \<Rightarrow> trace_context \<Rightarrow> payload \<Rightarrow> 'h job_manager \<Rightarrow> unit sdk_result \<times> 'h job_manager" where
  "route_to_jobs reply trace payload jm =
     (let (result, host) = route reply trace payload (jm_host jm)
      in (result, jm\<lparr>jm_host := host\<rparr>))"

definition handle_response ::
  "u64 \<Rightarrow> trace_context \<Rightarrow> payload option \<Rightarrow> 'h job_manager \<Rightarrow> unit sdk_result \<times> 'h job_manager" where
  "handle_response reply trace payload jm =
     st_and_then (ok_or (Protocol ''response payload is required'') payload, jm) (\<lambda>payload jm.
     st_and_then
       (case payload of PProtocolError error \<Rightarrow> validate_protocol_error error | _ \<Rightarrow> Inr (), jm)
       (\<lambda>_ jm. route_to_jobs reply trace payload jm))"

definition handle_shutdown ::
  "serve_env \<Rightarrow> u64 \<Rightarrow> trace_context \<Rightarrow> shutdown_request \<Rightarrow> 'h job_manager \<Rightarrow>
   timestamp sdk_result \<times> 'h job_manager" where
  "handle_shutdown env mid trace req jm =
     st_and_then (validate_shutdown req, jm) (\<lambda>deadline jm.
     st_and_then (jobs_shutdown (sn_iter env) (sn_world env) jm) (\<lambda>_ jm.
       let (result, sender) =
             send_and_wait_for_consumption (sn_consumed env) (sn_acknowledgment env)
               (Some mid) trace PShutdownAcknowledged (hc_sender (jm_host jm))
       in (and_then result (\<lambda>_. Inr deadline),
           jm\<lparr>jm_host := (jm_host jm)\<lparr>hc_sender := sender\<rparr>\<rparr>)))"

definition handle_request ::
  "uuid_parser \<Rightarrow> serve_env \<Rightarrow> u64 \<Rightarrow> trace_context \<Rightarrow> payload option \<Rightarrow> session_state \<Rightarrow>
   'h job_manager \<Rightarrow> serve_flow sdk_result \<times> 'h serve_state" where
  "handle_request parse_uuid env mid trace payload session jm =
     (case payload of
        Some (PStartJob req) \<Rightarrow> on_jobs (jobs_start parse_uuid mid trace req jm) session
      | Some (PCancelJob req) \<Rightarrow> on_jobs (jobs_cancel parse_uuid mid trace req jm) session
      | Some (PHeartbeat heartbeat) \<Rightarrow>
          on_jobs (send_from (Some mid) trace (PHeartbeat heartbeat) jm) session
      | Some (PShutdown req) \<Rightarrow>
          (let (result, jm1) = handle_shutdown env mid trace req jm
           in (and_then result (\<lambda>deadline. Inr (Stop deadline)),
               \<lparr>sv_jobs = jm1, sv_session = session\<rparr>))
      | Some (PProtocolError error) \<Rightarrow>
          (and_then (validate_protocol_error error) (\<lambda>_. Inl (Host error)),
           \<lparr>sv_jobs = jm, sv_session = session\<rparr>)
      | Some _ \<Rightarrow>
          (Inl (Protocol ''unexpected host-initiated message''), \<lparr>sv_jobs = jm, sv_session = session\<rparr>)
      | None \<Rightarrow> (Inl (Protocol ''payload is required''), \<lparr>sv_jobs = jm, sv_session = session\<rparr>))"

definition handle_message ::
  "uuid_parser \<Rightarrow> serve_env \<Rightarrow> stream_message \<Rightarrow> 'h serve_state \<Rightarrow>
   serve_flow sdk_result \<times> 'h serve_state" where
  "handle_message parse_uuid env message s =
     (case message of
        Inl error \<Rightarrow> (Inl (runtime ''receive plugin runtime envelope'' error), s)
      | Inr None \<Rightarrow> (Inl host_closed_stream, s)
      | Inr (Some envelope) \<Rightarrow>
          (case validate_envelope envelope (sv_session s) of
             (Inl e, session) \<Rightarrow> (Inl e, s\<lparr>sv_session := session\<rparr>)
           | (Inr trace, session) \<Rightarrow>
               (case reply_to envelope of
                  Some reply \<Rightarrow>
                    on_jobs (handle_response reply trace (env_payload envelope) (sv_jobs s)) session
                | None \<Rightarrow>
                    handle_request parse_uuid env (message_id envelope) trace (env_payload envelope)
                      session (sv_jobs s))))"

text \<open>
  One turn of the loop. The \<open>join_next\<close> branch is disabled while no job is active, and is
  not taken before the task it waits for has ended: such a turn changes nothing.
  \<^const>\<open>None\<close>: an \<open>expect\<close> of the job manager panics.
\<close>

definition serve_step ::
  "uuid_parser \<Rightarrow> serve_env \<Rightarrow> serve_event \<Rightarrow> 'h serve_state \<Rightarrow>
   (serve_flow sdk_result \<times> 'h serve_state) option" where
  "serve_step parse_uuid env event s =
     (case event of
        MessageBranch message \<Rightarrow> Some (handle_message parse_uuid env message s)
      | FinishedBranch k \<Rightarrow>
          if \<not> has_active_jobs (sv_jobs s) then Some (Inr Continue, s)
          else (case jobs_join_next k (sv_jobs s) of
                  Panics \<Rightarrow> None
                | Waits \<Rightarrow> Some (Inr Continue, s)
                | Joins (Inl e, jm) \<Rightarrow> Some (Inl e, s\<lparr>sv_jobs := jm\<rparr>)
                | Joins (Inr finished, jm) \<Rightarrow>
                    map_option (\<lambda>settled. on_jobs settled (sv_session s))
                      (jobs_settle (sn_world env) finished jm)))"

text \<open>
  The loop over a finite list of turns. Before each turn the tasks run: \<open>tasks\<close> is what
  they do to what they share with the manager. \<open>Serving\<close>: the loop is still running after
  these turns.
\<close>

datatype serve_outcome = Serving | Stopped timestamp | Failed sdk_error | Panicked

type_synonym 'h serve_turn = "('h job_manager \<Rightarrow> 'h job_manager) \<times> serve_env \<times> serve_event"

fun serve ::
  "uuid_parser \<Rightarrow> 'h serve_turn list \<Rightarrow> 'h serve_state \<Rightarrow> serve_outcome \<times> 'h serve_state" where
  "serve parse_uuid [] s = (Serving, s)"
| "serve parse_uuid ((tasks, env, event) # turns) s =
     (case serve_step parse_uuid env event (s\<lparr>sv_jobs := tasks (sv_jobs s)\<rparr>) of
        None \<Rightarrow> (Panicked, s)
      | Some (Inl e, s1) \<Rightarrow> (Failed e, s1)
      | Some (Inr (Stop deadline), s1) \<Rightarrow> (Stopped deadline, s1)
      | Some (Inr Continue, s1) \<Rightarrow> serve parse_uuid turns s1)"

section \<open>After the shutdown\<close>

text \<open>
  \<open>to_system_time\<close> is the conversion of \<open>prost_types\<close>, in nanoseconds, \<open>now\<close> the system
  clock, and \<open>next_within d\<close> what \<open>timeout(d, incoming.next())\<close> yields: \<^const>\<open>None\<close> when
  it elapses.
\<close>

definition wait_for_host_close ::
  "(timestamp \<Rightarrow> error_source + int) \<Rightarrow> int \<Rightarrow> (nat \<Rightarrow> (error_source + plugin_envelope) option option) \<Rightarrow>
   timestamp \<Rightarrow> unit sdk_result" where
  "wait_for_host_close to_system_time now next_within deadline =
     (case to_system_time deadline of
        Inl error \<Rightarrow> Inl (Protocol (''invalid shutdown deadline: '' @ error))
      | Inr t \<Rightarrow>
          (case next_within (nat (t - now)) of
             None \<Rightarrow> Inr ()
           | Some None \<Rightarrow> Inr ()
           | Some (Some (Inl _)) \<Rightarrow> Inr ()
           | Some (Some (Inr _)) \<Rightarrow>
               Inl (Protocol ''host sent a message after ShutdownRequest'')))"

end
