(* ===== verification/Session_Correct.thy ===== *)
theory Session_Correct
  imports Session
begin

text \<open>
  What a session guarantees: the envelopes it accepts belong to it and come in order, a
  completed handshake has announced the plugin and agreed on the limits, no turn of the loop
  panics, each turn is a step of the job manager, and a shutdown leaves no request
  unanswered.
\<close>

section \<open>Accepted envelopes\<close>

definition acceptable :: "session_state \<Rightarrow> plugin_envelope \<Rightarrow> trace_context \<Rightarrow> bool" where
  "acceptable session e trace \<longleftrightarrow>
     env_session_id e = si_session_id (st_identity session) \<and>
     env_plugin_instance_id e = si_instance_id (st_identity session) \<and>
     env_trace e = Some trace \<and> correlation_id trace \<noteq> [] \<and>
     call_depth trace \<le> st_maximum_call_depth session \<and>
     causal_depth trace \<le> st_maximum_causal_depth session"

lemma validate_envelope_Inr_iff:
  "validate_envelope e session = (Inr trace, session') \<longleftrightarrow>
     st_last_host_message_id session < message_id e \<and> acceptable session e trace \<and>
     session' = session\<lparr>st_last_host_message_id := message_id e\<rparr>"
proof -
  have "0 < message_id e" if "st_last_host_message_id session < message_id e"
    using that by (rule le_less_trans [rotated]) simp
  then show ?thesis
    by (auto simp: validate_envelope_def acceptable_def result_simps validate_trace_Inr_iff)
qed

lemma validate_envelope_Inl:
  "validate_envelope e session = (Inl err, session') \<Longrightarrow> session' = session"
  by (auto simp: validate_envelope_def result_simps split: if_splits)

section \<open>The handshake\<close>

lemma receive_initial_Inr_iff:
  "receive_initial message = Inr first \<longleftrightarrow> message = Inr (Some first) \<and> message_id first \<noteq> 0"
  by (auto simp: receive_initial_def split: sum.splits option.splits)

lemma case_hello_Inr_iff:
  "(case x of Some (PHostHello hello) \<Rightarrow> f hello | _ \<Rightarrow> Inl e) = Inr y \<longleftrightarrow>
     (\<exists>hello. x = Some (PHostHello hello) \<and> f hello = Inr y)"
proof (cases x)
  case (Some payload)
  then show ?thesis by (cases payload) simp_all
qed simp

lemma check_hello_Inr_iff:
  "check_hello p plugin message = Inr (hello, trace, session) \<longleftrightarrow>
     (\<exists>first. message = Inr (Some first) \<and> message_id first \<noteq> 0 \<and>
        env_session_id first \<noteq> [] \<and> env_plugin_instance_id first \<noteq> [] \<and>
        reply_to first = None \<and> env_payload first = Some (PHostHello hello) \<and>
        validate_host_hello p (pl_plugin_id plugin) hello = Inr () \<and>
        validate_trace first (hh_maximum_call_depth hello) (hh_maximum_causal_depth hello) = Inr trace \<and>
        session = \<lparr>st_identity = \<lparr>si_session_id = env_session_id first,
            si_instance_id = env_plugin_instance_id first\<rparr>,
          st_last_host_message_id = message_id first,
          st_maximum_call_depth = hh_maximum_call_depth hello,
          st_maximum_causal_depth = hh_maximum_causal_depth hello\<rparr>)"
proof -
  have guard: "(if a \<or> b then Inl x else if c then Inl y else z) = Inr w \<longleftrightarrow>
      \<not> a \<and> \<not> b \<and> \<not> c \<and> z = Inr w" for a b c and x y :: sdk_error and z and w :: 'z
    by auto
  show ?thesis
    unfolding check_hello_def and_then_Inr_iff receive_initial_Inr_iff guard case_hello_Inr_iff
    by (auto simp: is_ok_unit_iff)
qed

lemma check_hello_named:
  assumes "check_hello p plugin message = Inr (hello, trace, session)"
  shows "\<exists>name. hh_plugin_name hello = Some (PluginName name) \<and> valid_dns_label name"
  using assms validate_host_hello_okD(5) by (auto simp: check_hello_Inr_iff)

lemma handshake_total: "handshake p iter closed plugin first second \<noteq> None"
  using check_hello_named [of p plugin first]
  by (auto simp: handshake_def Let_def split: sum.splits option.splits prod.splits)

text \<open>A session that comes out of the handshake.\<close>

lemma handshake_ok:
  assumes "handshake p iter closed plugin first second = Some (Inr (session, host), sender)"
  obtains hello trace name ready where
    "check_hello p plugin first = Inr (hello, trace, session\<lparr>st_last_host_message_id :=
       message_id (the (projr first))\<rparr>)"
    "hh_plugin_name hello = Some (PluginName name)"
    "second = Inr (Some ready)" "reply_to ready = None" "env_trace ready = Some trace"
    "env_payload ready = Some PReady"
    "message_id (the (projr first)) < message_id ready"
    "st_last_host_message_id session = message_id ready"
    "client_wire host =
       [seal_envelope (st_identity session) 1 None trace
          (PPluginHello (plugin_hello_for iter plugin name)),
        seal_envelope (st_identity session) 2 None trace PReady]"
    "client_inv host" "hc_session_id host = si_session_id (st_identity session)"
    "hc_maximum_call_depth host = hh_maximum_call_depth hello"
    "hc_maximum_artifact_chunk_bytes host = hh_maximum_artifact_chunk_bytes hello"
proof -
  from assms obtain hello trace session0 where
    hello: "check_hello p plugin first = Inr (hello, trace, session0)"
    by (auto simp: handshake_def split: sum.splits prod.splits)
  from check_hello_named [OF this] obtain name where
    name: "hh_plugin_name hello = Some (PluginName name)" by blast
  from hello have session0: "st_last_host_message_id session0 = message_id (the (projr first))"
    by (auto simp: check_hello_Inr_iff)
  let ?s0 = "(new_sender (st_identity session0))\<lparr>ss_closed := closed 0\<rparr>"
  let ?hello = "PPluginHello (plugin_hello_for iter plugin name)"
  obtain r1 s1 where send1: "send None trace ?hello ?s0 = (r1, s1)"
    by (cases "send None trace ?hello ?s0")
  note eq = assms [unfolded handshake_def hello sum.case prod.case name option.case Let_def
      plugin_name.sel, unfolded send1 prod.case]
  from eq obtain mid1 where r1: "r1 = Inr mid1" by (cases r1) auto
  from send1 r1 have s1: "ss_identity s1 = st_identity session0" "ss_next_message_id s1 = 2"
    "wire_envelopes s1 = [seal_envelope (st_identity session0) 1 None trace ?hello]"
    by (auto simp: send_eq new_sender_def wire_envelopes_def split: if_splits)
  obtain r2 session1 where receive: "receive second session0 = (r2, session1)"
    by (cases "receive second session0")
  from eq r1 receive obtain ready where r2: "r2 = Inr ready" by (cases r2) auto
  from receive r2 obtain trace' where second: "second = Inr (Some ready)"
    and env: "validate_envelope ready session0 = (Inr trace', session1)"
    by (auto simp: receive_def result_simps split: sum.splits option.splits)
  let ?s1 = "s1\<lparr>ss_closed := closed 1\<rparr>"
  obtain r3 s3 where send2: "send None trace PReady ?s1 = (r3, s3)" by (cases "send None trace PReady ?s1")
  from eq r1 receive r2 send2 have ready: "reply_to ready = None" "env_trace ready = Some trace"
    "env_payload ready = Some PReady" by (auto split: if_splits)
  with eq r1 receive r2 send2 obtain mid3 where r3: "r3 = Inr mid3"
    and host: "session = session1" "host = new_host_client s3 (si_session_id (st_identity session1))
       (hh_maximum_artifact_chunk_bytes hello) (hh_maximum_call_depth hello)"
    by (cases r3) auto
  from send2 r3 s1 have wire: "wire_envelopes s3 =
      [seal_envelope (st_identity session0) 1 None trace ?hello,
       seal_envelope (st_identity session0) 2 None trace PReady]"
    by (auto simp: send_eq wire_envelopes_def split: if_splits)
  have inv: "sender_inv (s\<lparr>ss_closed := c\<rparr>)" if "sender_inv s" for s c
    using that by (simp add: sender_inv_def sent_ids_def wire_envelopes_def)
  have "sender_inv s1" using send_inv [OF inv [OF new_sender_inv]] send1 by (metis snd_conv)
  from send_inv [OF inv [OF this]] send2 have "sender_inv s3" by (metis snd_conv)
  then have "client_inv host" unfolding host(2) by (rule new_host_client_inv)
  moreover have "st_identity session = st_identity session0"
    "st_last_host_message_id session0 < message_id ready"
    "session0 = session\<lparr>st_last_host_message_id := message_id (the (projr first))\<rparr>"
    "st_last_host_message_id session = message_id ready"
    using env host(1) session0 by (auto simp: validate_envelope_Inr_iff)
  ultimately show thesis
    using hello name second ready wire host session0
    by (intro that [of hello trace name ready]) (simp_all add: new_host_client_def)
qed

section \<open>One turn of the loop\<close>

lemma route_emits: "emits [] hc (snd (route reply trace payload hc))"
proof -
  have "hc_session_id (snd (route reply trace payload hc)) = hc_session_id hc"
    by (auto simp: route_def Let_def split: option.splits)
  then show ?thesis
    using route_inv by (auto simp: emits_def client_step_def route_sender intro: exI [of _ "[]"])
qed

lemma handle_response_cases:
  assumes "handle_response reply trace payload jm = (result, jm')"
  obtains "jm' = jm" "\<exists>e. result = Inl e"
  | p where "payload = Some p" "result = fst (route reply trace p (jm_host jm))"
      "jm' = jm\<lparr>jm_host := snd (route reply trace p (jm_host jm))\<rparr>"
proof (cases payload)
  case None
  with assms show ?thesis by (intro that(1)) (auto simp: handle_response_def)
next
  case (Some p)
  define c where "c = (case p of PProtocolError error \<Rightarrow> validate_protocol_error error | _ \<Rightarrow> Inr ())"
  have c: "handle_response reply trace payload jm =
      st_and_then (c, jm) (\<lambda>_ jm. route_to_jobs reply trace p jm)"
    by (simp add: handle_response_def Some c_def)
  show ?thesis
  proof (cases c)
    case (Inl e)
    with assms c show ?thesis by (intro that(1)) auto
  next
    case (Inr u)
    with assms c Some show ?thesis
      by (intro that(2) [of p]) (auto simp: route_to_jobs_def split: prod.splits)
  qed
qed

text \<open>The cancellations an event brings in.\<close>

definition cancellation_requests :: "serve_event \<Rightarrow> pending_cancellation list" where
  "cancellation_requests event =
     (case event of
        MessageBranch (Inr (Some e)) \<Rightarrow>
          (case (reply_to e, env_trace e, env_payload e) of
             (None, Some trace, Some (PCancelJob req)) \<Rightarrow>
               (case cj_job_id req of
                  Some jid \<Rightarrow> [\<lparr>pc_reply_to = message_id e, pc_trace = trace, pc_job_id = jid\<rparr>]
                | None \<Rightarrow> [])
           | _ \<Rightarrow> [])
      | _ \<Rightarrow> [])"

definition well_behaved :: "serve_env \<Rightarrow> bool" where
  "well_behaved env \<longleftrightarrow> hash_order (sn_iter env) \<and> orderly (sn_world env)"

text \<open>A turn that goes on is a step of the manager; one that ends well is a shutdown.\<close>

definition manager_turn ::
  "uuid_parser \<Rightarrow> serve_event \<Rightarrow> 'h job_manager \<Rightarrow> 'h job_manager \<Rightarrow> bool" where
  "manager_turn parse_uuid event jm jm' \<longleftrightarrow>
     (\<exists>req es. jobs_step parse_uuid jm (req, es) jm' \<and>
        withdrawn [(req, es)] = mset (cancellation_requests event))"

lemma manager_turn_silent:
  assumes "emits [] (jm_host jm) hc" and "cancellation_requests event = []"
  shows "manager_turn parse_uuid event jm (jm\<lparr>jm_host := hc\<rparr>)"
proof -
  from assms(1) obtain es where "client_wire hc = client_wire (jm_host jm) @ es"
    by (auto simp: emits_def)
  from step_tasks_act [OF assms(1) this] assms(2) show ?thesis
    unfolding manager_turn_def by (intro exI [of _ Other] exI [of _ es]) simp
qed

lemma emits_wire: "emits outs h h' \<Longrightarrow> \<exists>es. client_wire h' = client_wire h @ es"
  by (auto simp: emits_def)

lemma jobs_start_wire:
  assumes "jobs_start p mid trace req jm = (result, jm')"
  shows "\<exists>es. client_wire (jm_host jm') = client_wire (jm_host jm) @ es"
  using assms by (cases rule: jobs_start_cases) (auto dest: emits_wire)

lemma jobs_cancel_wire:
  assumes "jobs_cancel p mid trace req jm = (result, jm')"
  shows "\<exists>es. client_wire (jm_host jm') = client_wire (jm_host jm) @ es"
  using assms by (cases rule: jobs_cancel_cases) (auto dest: emits_wire)

lemma jobs_start_request:
  "jobs_start p mid trace req jm = (Inr (), jm') \<Longrightarrow> \<exists>j. sj_job_id req = Some (PluginJobId j)"
  by (erule jobs_start_cases) auto

lemma jobs_cancel_request:
  "jobs_cancel p mid trace req jm = (Inr (), jm') \<Longrightarrow> \<exists>jid. cj_job_id req = Some jid"
  by (erule jobs_cancel_cases) auto

lemma heartbeat_emits:
  assumes "send_from (Some mid) trace (PHeartbeat heartbeat) jm = (Inr (), jm')"
  shows "\<exists>hc. jm' = jm\<lparr>jm_host := hc\<rparr> \<and> emits [] (jm_host jm) hc \<and>
    client_wire hc = client_wire (jm_host jm) @
      [seal_envelope (client_identity (jm_host jm)) (ss_next_message_id (hc_sender (jm_host jm)))
         (Some mid) trace (PHeartbeat heartbeat)]"
proof -
  have silent: "output_of (seal_envelope s i (Some mid) trace (PHeartbeat heartbeat)) = []" for s i
    by (simp add: output_of.simps seal_envelope_def)
  have wire: "client_wire (jm_host jm') = client_wire (jm_host jm) @
      [seal_envelope (client_identity (jm_host jm)) (ss_next_message_id (hc_sender (jm_host jm)))
         (Some mid) trace (PHeartbeat heartbeat)]"
    using assms by (auto simp: send_from_def send_eq wire_envelopes_def split: if_splits)
  from assms show ?thesis
  proof (cases rule: send_from_cases)
    case (sent hc)
    then show ?thesis using wire silent by (intro exI [of _ hc]) simp
  qed simp
qed

lemma handle_request_ok:
  assumes "handle_request p env mid trace payload session jm = (Inr flow, s')"
  obtains (start) req where "payload = Some (PStartJob req)" "flow = Continue"
      "jobs_start p mid trace req jm = (Inr (), sv_jobs s')"
    | (cancel) req where "payload = Some (PCancelJob req)" "flow = Continue"
      "jobs_cancel p mid trace req jm = (Inr (), sv_jobs s')"
    | (heartbeat) heartbeat where "payload = Some (PHeartbeat heartbeat)" "flow = Continue"
      "send_from (Some mid) trace (PHeartbeat heartbeat) jm = (Inr (), sv_jobs s')"
    | (shutdown) req deadline where "payload = Some (PShutdown req)" "flow = Stop deadline"
      "handle_shutdown env mid trace req jm = (Inr deadline, sv_jobs s')"
proof (cases payload)
  case None
  with assms show ?thesis by (simp add: handle_request_def)
next
  case (Some q)
  have ok: "flow = Continue \<and> step = (Inr (), sv_jobs s')"
    if "on_jobs step session = (Inr flow, s')" for step :: "unit sdk_result \<times> 'a job_manager"
    using that by (cases step) (auto simp: on_jobs_def result_simps)
  show ?thesis
  proof (cases q)
    case (PStartJob req)
    with assms Some ok show ?thesis by (intro start [of req]) (auto simp: handle_request_def)
  next
    case (PCancelJob req)
    with assms Some ok show ?thesis by (intro cancel [of req]) (auto simp: handle_request_def)
  next
    case (PHeartbeat h)
    with assms Some ok show ?thesis by (intro heartbeat [of h]) (auto simp: handle_request_def)
  next
    case (PShutdown req)
    with assms Some obtain deadline where "flow = Stop deadline"
      "handle_shutdown env mid trace req jm = (Inr deadline, sv_jobs s')"
      by (auto simp: handle_request_def result_simps split: prod.splits)
    with PShutdown Some show ?thesis by (intro shutdown [of req deadline]) simp_all
  qed (use assms Some in \<open>auto simp: handle_request_def result_simps\<close>)
qed

lemma handle_message_ok:
  assumes "handle_message p env message s = (Inr flow, s')"
  obtains e trace where "message = Inr (Some e)"
    "st_last_host_message_id (sv_session s) < message_id e" "acceptable (sv_session s) e trace"
    "sv_session s' = (sv_session s)\<lparr>st_last_host_message_id := message_id e\<rparr>"
    "(\<exists>reply q. reply_to e = Some reply \<and> env_payload e = Some q \<and> flow = Continue \<and>
        fst (route reply trace q (jm_host (sv_jobs s))) = Inr () \<and>
        sv_jobs s' = (sv_jobs s)\<lparr>jm_host := snd (route reply trace q (jm_host (sv_jobs s)))\<rparr>) \<or>
     reply_to e = None \<and>
       handle_request p env (message_id e) trace (env_payload e)
         ((sv_session s)\<lparr>st_last_host_message_id := message_id e\<rparr>) (sv_jobs s) = (Inr flow, s')"
proof -
  from assms obtain e where message: "message = Inr (Some e)"
    by (auto simp: handle_message_def split: sum.splits option.splits)
  from assms message obtain trace session where
    env: "validate_envelope e (sv_session s) = (Inr trace, session)"
    by (auto simp: handle_message_def split: sum.splits prod.splits)
  note valid = env [unfolded validate_envelope_Inr_iff]
  show thesis
  proof (cases "reply_to e")
    case None
    with assms message env have req: "handle_request p env (message_id e) trace (env_payload e)
        session (sv_jobs s) = (Inr flow, s')"
      by (simp add: handle_message_def)
    then have "sv_session s' = session"
      by (auto simp: handle_request_def on_jobs_def Let_def split: option.splits payload.splits prod.splits)
    with None req message valid show thesis by (intro that [of e trace]) auto
  next
    case (Some reply)
    with assms message env
    have "on_jobs (handle_response reply trace (env_payload e) (sv_jobs s)) session = (Inr flow, s')"
      by (simp add: handle_message_def)
    then obtain jm' where response:
      "handle_response reply trace (env_payload e) (sv_jobs s) = (Inr (), jm')"
      and flow: "flow = Continue" "s' = \<lparr>sv_jobs = jm', sv_session = session\<rparr>"
      by (cases "handle_response reply trace (env_payload e) (sv_jobs s)")
        (auto simp: on_jobs_def result_simps)
    from response show thesis
    proof (cases rule: handle_response_cases)
      case 1
      then show thesis by simp
    next
      case (2 q)
      with Some message valid flow show thesis by (intro that [of e trace]) auto
    qed
  qed
qed

lemma manager_turn_message:
  assumes "handle_message p env message s = (Inr Continue, s')"
  shows "manager_turn p (MessageBranch message) (sv_jobs s) (sv_jobs s')"
  using assms
proof (cases rule: handle_message_ok)
  case (1 e trace)
  let ?event = "MessageBranch message" and ?jm = "sv_jobs s" and ?jm' = "sv_jobs s'"
  from 1(5) consider (response) reply q where "reply_to e = Some reply"
      "?jm' = ?jm\<lparr>jm_host := snd (route reply trace q (jm_host ?jm))\<rparr>"
    | (req) "reply_to e = None" "handle_request p env (message_id e) trace (env_payload e)
        ((sv_session s)\<lparr>st_last_host_message_id := message_id e\<rparr>) ?jm = (Inr Continue, s')"
    by metis
  then show ?thesis
  proof cases
    case (response reply q)
    then have "cancellation_requests ?event = []" by (simp add: cancellation_requests_def 1(1))
    from manager_turn_silent [OF route_emits this] response(2) show ?thesis by simp
  next
    case req
    have trace: "env_trace e = Some trace" using 1(3) by (simp add: acceptable_def)
    from req(2) show ?thesis
    proof (cases rule: handle_request_ok)
      case (start r)
      from jobs_start_request [OF start(3)] jobs_start_wire [OF start(3)] obtain j es where
        "sj_job_id r = Some (PluginJobId j)"
        "client_wire (jm_host ?jm') = client_wire (jm_host ?jm) @ es" by blast
      from step_start [OF start(3) this] req(1) start(1) trace show ?thesis
        by (auto simp: manager_turn_def cancellation_requests_def 1(1)
            intro!: exI [of _ "Admit (message_id e) j"] exI [of _ es])
    next
      case (cancel r)
      from jobs_cancel_request [OF cancel(3)] jobs_cancel_wire [OF cancel(3)] obtain jid es where
        jid: "cj_job_id r = Some jid"
        and wire: "client_wire (jm_host ?jm') = client_wire (jm_host ?jm) @ es" by blast
      let ?c = "\<lparr>pc_reply_to = message_id e, pc_trace = trace, pc_job_id = jid\<rparr>"
      have "cancellation_requests ?event = [?c]"
        by (simp add: cancellation_requests_def 1(1) req(1) trace cancel(1) jid)
      with step_cancel [OF cancel(3) jid wire] show ?thesis
        unfolding manager_turn_def by (intro exI [of _ "Withdraw ?c"] exI [of _ es]) simp
    next
      case (heartbeat h)
      have none: "cancellation_requests ?event = []"
        by (simp add: cancellation_requests_def 1(1) req(1) trace heartbeat(1))
      from heartbeat_emits [OF heartbeat(3)] obtain hc where
        "?jm' = ?jm\<lparr>jm_host := hc\<rparr>" "emits [] (jm_host ?jm) hc" by blast
      with manager_turn_silent [OF _ none] show ?thesis by metis
    qed simp
  qed
qed

lemma serve_step_continue:
  assumes "serve_step p env event s = Some (Inr Continue, s')"
    and "jobs_inv [] (sv_jobs s)" and "well_behaved env"
  shows "manager_turn p event (sv_jobs s) (sv_jobs s')"
proof (cases event)
  case (MessageBranch message)
  with assms(1) manager_turn_message show ?thesis by (simp add: serve_step_def)
next
  case (FinishedBranch k)
  have none: "cancellation_requests event = []"
    by (simp add: cancellation_requests_def FinishedBranch)
  have idle: ?thesis if "s' = s"
    using manager_turn_silent [OF emits_refl none, of p "sv_jobs s"] that by simp
  show ?thesis
  proof (cases "has_active_jobs (sv_jobs s)")
    case False
    with assms(1) FinishedBranch idle show ?thesis by (simp add: serve_step_def)
  next
    case True
    show ?thesis
    proof (cases "jobs_join_next k (sv_jobs s)")
      case Waits
      with True assms(1) FinishedBranch idle show ?thesis by (simp add: serve_step_def)
    next
      case Panics
      with True assms(1) FinishedBranch show ?thesis by (simp add: serve_step_def)
    next
      case (Joins rj)
      obtain r jm where rj: "rj = (r, jm)" by (cases rj)
      show ?thesis
      proof (cases r)
        case (Inl e)
        with Joins rj True assms(1) FinishedBranch show ?thesis by (simp add: serve_step_def)
      next
        case (Inr f)
        note joined = Joins [unfolded rj Inr]
        with rj Inr True assms(1) FinishedBranch obtain jm' where
          settled: "jobs_settle (sn_world env) f jm = Some (Inr (), jm')" "sv_jobs s' = jm'"
          by (auto simp: serve_step_def on_jobs_def result_simps)
        note inv = jobs_join_next_inv [OF joined assms(2)]
        have world: "orderly (sn_world env)" using assms(3) by (simp add: well_behaved_def)
        from inv(1) have "fa_job_id f \<in> dom (hm_get (jm_active jm))"
          unfolding jobs_inv_def by (metis in_set_conv_decomp)
        then obtain job where "hm_get (jm_active jm) (fa_job_id f) = Some job" by blast
        from this inv(2) world have "\<exists>es. client_wire (jm_host jm') = client_wire (jm_host jm) @ es"
          by (cases rule: jobs_settle_cases) (use settled(1) in \<open>auto dest: emits_wire\<close>)
        then obtain es where "client_wire (jm_host jm') = client_wire (jm_host (sv_jobs s)) @ es"
          using inv(3) by auto
        from step_finish [OF joined world settled(1) this] none settled(2) show ?thesis
          unfolding manager_turn_def by (intro exI [of _ "Conclude (fa_job_id f)"] exI [of _ es]) simp
      qed
    qed
  qed
qed

text \<open>None of the manager's \<open>expect\<close>s can panic in the loop.\<close>

lemma serve_step_total:
  assumes "jobs_inv [] (sv_jobs s)" and "well_behaved env"
  shows "serve_step p env event s \<noteq> None"
proof (cases event)
  case (MessageBranch message)
  then show ?thesis by (simp add: serve_step_def)
next
  case (FinishedBranch k)
  show ?thesis
  proof (cases "has_active_jobs (sv_jobs s)")
    case True
    then have tasks: "jm_tasks (sv_jobs s) \<noteq> []" by (rule active_has_task [OF assms(1)])
    have settle: "jobs_settle (sn_world env) f jm \<noteq> None"
      if "jobs_join_next k (sv_jobs s) = Joins (Inr f, jm)" for f jm
      using jobs_join_next_inv [OF that assms(1)] assms(2)
      by (auto simp: well_behaved_def elim: jobs_settle_inv)
    show ?thesis
    proof (cases "jobs_join_next k (sv_jobs s)")
      case Panics
      with tasks show ?thesis
        by (auto simp: jobs_join_next_def Let_def split: if_splits task_state.splits)
    next
      case (Joins rj)
      obtain r jm where "rj = (r, jm)" by (cases rj)
      with Joins settle True FinishedBranch show ?thesis
        by (cases r) (simp_all add: serve_step_def)
    qed (simp add: serve_step_def FinishedBranch)
  qed (simp add: serve_step_def FinishedBranch)
qed

section \<open>The loop\<close>

definition background :: "uuid_parser \<Rightarrow> 'h job_manager \<Rightarrow> 'h job_manager \<Rightarrow> bool" where
  "background p jm jm' \<longleftrightarrow>
     (\<exists>ls. run (jobs_step p) jm ls jm' \<and> (\<forall>l \<in> set ls. fst l = Other))"

definition lawful :: "uuid_parser \<Rightarrow> 'h serve_turn list \<Rightarrow> bool" where
  "lawful p turns \<longleftrightarrow>
     (\<forall>(tasks, env, event) \<in> set turns. well_behaved env \<and> (\<forall>jm. background p jm (tasks jm)))"

definition requested :: "'h serve_turn list \<Rightarrow> pending_cancellation multiset" where
  "requested turns = mset (concat (map (\<lambda>(tasks, env, event). cancellation_requests event) turns))"

fun received :: "'h serve_turn list \<Rightarrow> plugin_envelope list" where
  "received [] = []"
| "received ((tasks, env, event) # turns) =
     (case event of MessageBranch (Inr (Some e)) \<Rightarrow> e # received turns | _ \<Rightarrow> received turns)"

lemma withdrawn_others: "\<forall>l \<in> set ls. fst l = Other \<Longrightarrow> withdrawn ls = {#}"
  by (induction ls rule: withdrawn.induct) auto

lemma background_inv: "background p jm jm' \<Longrightarrow> jobs_inv [] jm \<Longrightarrow> jobs_inv [] jm'"
  using jobs.run_inv by (auto simp: background_def)

lemma manager_turn_inv: "manager_turn p event jm jm' \<Longrightarrow> jobs_inv [] jm \<Longrightarrow> jobs_inv [] jm'"
  using jobs_step_refines(3) by (auto simp: manager_turn_def)

text \<open>The background before a turn and the turn, as one run of the manager.\<close>

lemma turn_run:
  assumes "background p jm jm1" and "manager_turn p event jm1 jm2"
  shows "\<exists>ls. run (jobs_step p) jm ls jm2 \<and> withdrawn ls = mset (cancellation_requests event)"
proof -
  from assms(1) obtain ls where ls: "run (jobs_step p) jm ls jm1" "withdrawn ls = {#}"
    using withdrawn_others by (auto simp: background_def)
  from assms(2) obtain l where l: "jobs_step p jm1 l jm2"
    "withdrawn [l] = mset (cancellation_requests event)" by (auto simp: manager_turn_def)
  from run_snoc [where step = "jobs_step p", OF ls(1) l(1)] ls(2) l(2) show ?thesis
    by (intro exI [of _ "ls @ [l]"]) simp
qed

lemma serve_Cons_Serving:
  "serve p ((tasks, env, event) # turns) s = (Serving, s') \<longleftrightarrow>
     (\<exists>s1. serve_step p env event (s\<lparr>sv_jobs := tasks (sv_jobs s)\<rparr>) = Some (Inr Continue, s1) \<and>
        serve p turns s1 = (Serving, s'))"
  by (auto split: option.splits prod.splits sum.splits serve_flow.splits)

lemma lawful_Cons:
  "lawful p ((tasks, env, event) # turns) \<longleftrightarrow>
     well_behaved env \<and> (\<forall>jm. background p jm (tasks jm)) \<and> lawful p turns"
  by (simp add: lawful_def)

lemma serve_runs:
  assumes "serve p turns s = (Serving, s')" and "jobs_inv [] (sv_jobs s)" and "lawful p turns"
  shows "jobs_inv [] (sv_jobs s') \<and>
    (\<exists>ls. run (jobs_step p) (sv_jobs s) ls (sv_jobs s') \<and> withdrawn ls = requested turns)"
  using assms
proof (induction turns arbitrary: s)
  case Nil
  then show ?case by (auto simp: requested_def intro!: exI [of _ "[]"] run.run_nil)
next
  case (Cons turn turns)
  obtain tasks env event where turn: "turn = (tasks, env, event)" by (cases turn)
  let ?jm = "tasks (sv_jobs s)"
  from Cons.prems(1) [unfolded turn serve_Cons_Serving] obtain s1 where
    step: "serve_step p env event (s\<lparr>sv_jobs := ?jm\<rparr>) = Some (Inr Continue, s1)"
    and rest: "serve p turns s1 = (Serving, s')" by blast
  from Cons.prems(3) have env: "well_behaved env" and bg: "background p (sv_jobs s) ?jm"
    and lawful: "lawful p turns" by (auto simp: turn lawful_Cons)
  have inv: "jobs_inv [] ?jm" using background_inv [OF bg Cons.prems(2)] .
  from serve_step_continue [OF step _ env] inv
  have mturn: "manager_turn p event ?jm (sv_jobs s1)" by simp
  from Cons.IH [OF rest manager_turn_inv [OF mturn inv] lawful] obtain ls where
    ls: "jobs_inv [] (sv_jobs s')" "run (jobs_step p) (sv_jobs s1) ls (sv_jobs s')"
      "withdrawn ls = requested turns" by blast
  from turn_run [OF bg mturn] obtain ks where
    ks: "run (jobs_step p) (sv_jobs s) ks (sv_jobs s1)"
      "withdrawn ks = mset (cancellation_requests event)" by blast
  from run_append [OF ls(2) ks(1)] ls ks(2) show ?case
    by (auto simp: requested_def turn intro!: exI [of _ "ks @ ls"])
qed

lemma serve_never_panics:
  assumes "jobs_inv [] (sv_jobs s)" and "lawful p turns"
  shows "fst (serve p turns s) \<noteq> Panicked"
  using assms
proof (induction turns arbitrary: s)
  case Nil
  then show ?case by simp
next
  case (Cons turn turns)
  obtain tasks env event where turn: "turn = (tasks, env, event)" by (cases turn)
  let ?s = "s\<lparr>sv_jobs := tasks (sv_jobs s)\<rparr>"
  from Cons.prems have env: "well_behaved env" and bg: "background p (sv_jobs s) (sv_jobs ?s)"
    and lawful: "lawful p turns" by (auto simp: turn lawful_Cons)
  have inv: "jobs_inv [] (sv_jobs ?s)" using background_inv [OF bg Cons.prems(1)] .
  obtain r s1 where step: "serve_step p env event ?s = Some (r, s1)"
    using serve_step_total [OF inv env] by fastforce
  show ?case
  proof (cases "r = Inr Continue")
    case True
    with serve_step_continue [OF _ inv env] step have "manager_turn p event (sv_jobs ?s) (sv_jobs s1)"
      by simp
    from Cons.IH [OF manager_turn_inv [OF this inv] lawful] step True show ?thesis
      by (simp add: turn)
  next
    case False
    with step show ?thesis
      by (simp add: turn split: sum.splits serve_flow.splits)
  qed
qed

lemma serve_step_session:
  assumes "serve_step p env event s = Some (Inr flow, s')"
  shows "case event of
      MessageBranch message \<Rightarrow> \<exists>e trace. message = Inr (Some e) \<and>
        st_last_host_message_id (sv_session s) < message_id e \<and> acceptable (sv_session s) e trace \<and>
        sv_session s' = (sv_session s)\<lparr>st_last_host_message_id := message_id e\<rparr>
    | FinishedBranch k \<Rightarrow> sv_session s' = sv_session s"
proof (cases event)
  case (MessageBranch message)
  with assms have "handle_message p env message s = (Inr flow, s')" by (simp add: serve_step_def)
  then obtain e trace where "message = Inr (Some e)"
    "st_last_host_message_id (sv_session s) < message_id e" "acceptable (sv_session s) e trace"
    "sv_session s' = (sv_session s)\<lparr>st_last_host_message_id := message_id e\<rparr>"
    by (rule handle_message_ok)
  then show ?thesis by (auto simp: MessageBranch)
next
  case (FinishedBranch k)
  with assms show ?thesis
    by (auto simp: serve_step_def on_jobs_def split: if_splits joined.splits prod.splits sum.splits)
qed

lemma acceptable_last [simp]:
  "acceptable (session\<lparr>st_last_host_message_id := i\<rparr>) e trace \<longleftrightarrow> acceptable session e trace"
  by (simp add: acceptable_def)

lemma serve_accepts:
  assumes "serve p turns s = (Serving, s')"
  shows "sorted_wrt (<) (st_last_host_message_id (sv_session s) # map message_id (received turns))"
    and "\<forall>e \<in> set (received turns). \<exists>trace. acceptable (sv_session s) e trace"
    and "sv_session s' = (sv_session s)\<lparr>st_last_host_message_id :=
       last (st_last_host_message_id (sv_session s) # map message_id (received turns))\<rparr>"
proof -
  from assms have "sorted_wrt (<) (st_last_host_message_id (sv_session s) # map message_id (received turns)) \<and>
    (\<forall>e \<in> set (received turns). \<exists>trace. acceptable (sv_session s) e trace) \<and>
    sv_session s' = (sv_session s)\<lparr>st_last_host_message_id :=
       last (st_last_host_message_id (sv_session s) # map message_id (received turns))\<rparr>"
  proof (induction turns arbitrary: s)
    case Nil
    then show ?case by simp
  next
    case (Cons turn turns)
    obtain tasks env event where turn: "turn = (tasks, env, event)" by (cases turn)
    from Cons.prems [unfolded turn serve_Cons_Serving] obtain s1 where
      step: "serve_step p env event (s\<lparr>sv_jobs := tasks (sv_jobs s)\<rparr>) = Some (Inr Continue, s1)"
      and rest: "serve p turns s1 = (Serving, s')" by blast
    note IH = Cons.IH [OF rest]
    show ?case
    proof (cases event)
      case (FinishedBranch k)
      with serve_step_session [OF step] have "sv_session s1 = sv_session s" by simp
      with IH show ?thesis by (simp add: turn FinishedBranch)
    next
      case (MessageBranch message)
      with serve_step_session [OF step] obtain e trace where
        e: "message = Inr (Some e)" "st_last_host_message_id (sv_session s) < message_id e"
          "acceptable (sv_session s) e trace"
          "sv_session s1 = (sv_session s)\<lparr>st_last_host_message_id := message_id e\<rparr>" by auto
      with IH show ?thesis by (auto simp: turn MessageBranch intro: less_trans)
    qed
  qed
  then show "sorted_wrt (<) (st_last_host_message_id (sv_session s) # map message_id (received turns))"
    and "\<forall>e \<in> set (received turns). \<exists>trace. acceptable (sv_session s) e trace"
    and "sv_session s' = (sv_session s)\<lparr>st_last_host_message_id :=
       last (st_last_host_message_id (sv_session s) # map message_id (received turns))\<rparr>"
    by blast+
qed

section \<open>Shutting down\<close>

lemma handle_shutdown_ok:
  assumes "handle_shutdown env mid trace req jm = (Inr deadline, jm')" and "well_behaved env"
  obtains jm1 es where "jobs_step p jm (CloseAll, es) jm1" "jm_tasks jm' = []"
    "jm_active jm' = hm_empty" "valid_timestamp deadline"
    "client_wire (jm_host jm') = client_wire (jm_host jm1) @
       [seal_envelope (client_identity (jm_host jm1)) (ss_next_message_id (hc_sender (jm_host jm1)))
          (Some mid) trace PShutdownAcknowledged]"
proof -
  obtain q jm1 where shut: "jobs_shutdown (sn_iter env) (sn_world env) jm = (q, jm1)"
    by (cases "jobs_shutdown (sn_iter env) (sn_world env) jm")
  let ?s = "hc_sender (jm_host jm1)"
  obtain r s where send: "send_and_wait_for_consumption (sn_consumed env) (sn_acknowledgment env)
      (Some mid) trace PShutdownAcknowledged ?s = (r, s)"
    by (cases "send_and_wait_for_consumption (sn_consumed env) (sn_acknowledgment env)
      (Some mid) trace PShutdownAcknowledged ?s")
  from assms(1) shut send obtain mid' where deadline: "validate_shutdown req = Inr deadline"
    and q: "q = Inr ()" and "r = Inr mid'"
    and jm': "jm' = jm1\<lparr>jm_host := (jm_host jm1)\<lparr>hc_sender := s\<rparr>\<rparr>"
    by (auto simp: handle_shutdown_def result_simps)
  with send have wire: "wire_envelopes s = wire_envelopes ?s @
      [seal_envelope (ss_identity ?s) (ss_next_message_id ?s) (Some mid) trace PShutdownAcknowledged]"
    by (auto simp: send_and_wait_for_consumption_def send_with_eq wire_envelopes_def result_simps
        split: if_splits sum.splits)
  from assms(2) have env: "hash_order (sn_iter env)" "orderly (sn_world env)"
    by (simp_all add: well_behaved_def)
  from shut [unfolded q] env(2) show thesis
  proof (cases rule: jobs_shutdown_cases)
    case (closed hc cs)
    from closed(7) closed(5) obtain es where
      "client_wire (jm_host jm1) = client_wire (jm_host jm) @ es" by (auto simp: emits_def)
    from step_shutdown [OF env shut [unfolded q] this] closed deadline wire show thesis
      by (intro that [of es jm1]) (auto simp: jm' validate_shutdown_Inr_iff)
  qed simp
qed

text \<open>The ledger of a session that has been served and then shut down is balanced.\<close>

lemma shutdown_balances:
  assumes "run (jobs_step p) jm ls (sv_jobs s1)" and "jobs_inv [] jm"
    and "abs_jobs jm = Map.empty" and "well_behaved env"
    and "serve_step p env event s1 = Some (Inr (Stop deadline), s2)"
  obtains e trace es ack where "event = MessageBranch (Inr (Some e))" "env_trace e = Some trace"
    "client_wire (jm_host (sv_jobs s2)) = client_wire (jm_host jm) @ es @ [ack]"
    "acknowledged (outputs es) = withdrawn ls"
    "reply_to ack = Some (message_id e)" "env_trace ack = Some trace"
    "env_payload ack = Some PShutdownAcknowledged"
    "jm_tasks (sv_jobs s2) = []" "jm_active (sv_jobs s2) = hm_empty" "valid_timestamp deadline"
proof -
  have inv: "jobs_inv [] (sv_jobs s1)" using jobs.run_inv assms(1,2) by blast
  from assms(5) obtain message where event: "event = MessageBranch message"
    and handled: "handle_message p env message s1 = (Inr (Stop deadline), s2)"
    by (auto simp: serve_step_def on_jobs_def result_simps
        split: serve_event.splits if_splits joined.splits prod.splits sum.splits)
  from handled show thesis
  proof (cases rule: handle_message_ok)
    case (1 e trace)
    then have "handle_request p env (message_id e) trace (env_payload e)
        ((sv_session s1)\<lparr>st_last_host_message_id := message_id e\<rparr>) (sv_jobs s1) = (Inr (Stop deadline), s2)"
      by auto
    then show thesis
    proof (cases rule: handle_request_ok)
      case (shutdown req d)
      from shutdown(3) assms(4) obtain jm1 es where step: "jobs_step p (sv_jobs s1) (CloseAll, es) jm1"
        "jm_tasks (sv_jobs s2) = []" "jm_active (sv_jobs s2) = hm_empty" "valid_timestamp d"
        "client_wire (jm_host (sv_jobs s2)) = client_wire (jm_host jm1) @
           [seal_envelope (client_identity (jm_host jm1)) (ss_next_message_id (hc_sender (jm_host jm1)))
              (Some (message_id e)) trace PShutdownAcknowledged]"
        by (rule handle_shutdown_ok [where p = p])
      let ?ls = "ls @ [(CloseAll, es)]" and ?m = "unat (jm_maximum jm)"
      have run: "run (jobs_step p) jm ?ls jm1"
        using run_snoc [where step = "jobs_step p", OF assms(1) step(1)] .
      have "abs_jobs jm1 = Map.empty"
      proof -
        from jobs_step_refines(1) [OF step(1) inv]
        have "ledger_step (unat (jm_maximum (sv_jobs s1))) (abs_jobs (sv_jobs s1))
            (CloseAll, outputs es) (abs_jobs jm1)" by (simp add: abs_label_def)
        then show ?thesis by (auto elim: ledger_stepE)
      qed
      moreover have "acknowledged (all_outputs (map abs_label ?ls)) + owed (abs_jobs jm1) =
          owed (abs_jobs jm) + withdrawn (map abs_label ?ls)"
        using jobs_run_refines(1) [OF run assms(2)] assms(3)
        by (intro ledger_run_owed) (simp_all add: ledger_inv_def)
      ultimately have "acknowledged (outputs (all_outputs ?ls)) = withdrawn ls"
        using assms(3) by (simp only: all_outputs_abs withdrawn_abs) simp
      with jobs_run_wire [OF run] step shutdown(2) 1 event show thesis
        by (intro that [of e trace "all_outputs ?ls"
          "seal_envelope (client_identity (jm_host jm1)) (ss_next_message_id (hc_sender (jm_host jm1)))
              (Some (message_id e)) trace PShutdownAcknowledged"])
          (simp_all add: acceptable_def seal_envelope_def)
    qed simp_all
  qed
qed

lemma serve_Stopped:
  "serve p turns s = (Stopped deadline, s') \<longleftrightarrow>
     (\<exists>pre tasks env event rest s1. turns = pre @ (tasks, env, event) # rest \<and>
        serve p pre s = (Serving, s1) \<and>
        serve_step p env event (s1\<lparr>sv_jobs := tasks (sv_jobs s1)\<rparr>) = Some (Inr (Stop deadline), s'))"
proof (induction turns arbitrary: s)
  case Nil
  then show ?case by simp
next
  case (Cons turn turns)
  obtain tasks env event where turn: "turn = (tasks, env, event)" by (cases turn)
  let ?step = "serve_step p env event (s\<lparr>sv_jobs := tasks (sv_jobs s)\<rparr>)"
  show ?case
  proof (cases "\<exists>s1. ?step = Some (Inr Continue, s1)")
    case True
    then obtain s1 where step: "?step = Some (Inr Continue, s1)" by blast
    have "serve p (turn # turns) s = (Stopped deadline, s') \<longleftrightarrow> serve p turns s1 = (Stopped deadline, s')"
      by (simp add: turn step)
    also have "\<dots> \<longleftrightarrow> (\<exists>pre tasks env event rest s2. turns = pre @ (tasks, env, event) # rest \<and>
        serve p (turn # pre) s = (Serving, s2) \<and>
        serve_step p env event (s2\<lparr>sv_jobs := tasks (sv_jobs s2)\<rparr>) = Some (Inr (Stop deadline), s'))"
      unfolding Cons.IH by (simp add: turn step)
    also have "\<dots> \<longleftrightarrow> (\<exists>pre tasks env event rest s2. turn # turns = pre @ (tasks, env, event) # rest \<and>
        serve p pre s = (Serving, s2) \<and>
        serve_step p env event (s2\<lparr>sv_jobs := tasks (sv_jobs s2)\<rparr>) = Some (Inr (Stop deadline), s'))"
      (is "?L = ?R")
    proof
      assume ?L
      then show ?R by (metis append_Cons)
    next
      assume ?R
      then obtain pre tasks' env' event' rest s2 where R: "turn # turns = pre @ (tasks', env', event') # rest"
        "serve p pre s = (Serving, s2)"
        "serve_step p env' event' (s2\<lparr>sv_jobs := tasks' (sv_jobs s2)\<rparr>) = Some (Inr (Stop deadline), s')"
        by blast
      show ?L
      proof (cases pre)
        case Nil
        with R step turn show ?thesis by simp
      next
        case (Cons t pre')
        with R(1) have "t = turn" "turns = pre' @ (tasks', env', event') # rest" by auto
        with R(2,3) Cons show ?thesis by blast
      qed
    qed
    finally show ?thesis .
  next
    case False
    show ?thesis
    proof
      assume "serve p (turn # turns) s = (Stopped deadline, s')"
      with False have "?step = Some (Inr (Stop deadline), s')"
        by (auto simp: turn split: option.splits prod.splits sum.splits serve_flow.splits)
      then show "\<exists>pre tasks env event rest s1. turn # turns = pre @ (tasks, env, event) # rest \<and>
          serve p pre s = (Serving, s1) \<and>
          serve_step p env event (s1\<lparr>sv_jobs := tasks (sv_jobs s1)\<rparr>) = Some (Inr (Stop deadline), s')"
        by (intro exI [of _ "[]"]) (auto simp: turn)
    next
      assume "\<exists>pre tasks env event rest s1. turn # turns = pre @ (tasks, env, event) # rest \<and>
          serve p pre s = (Serving, s1) \<and>
          serve_step p env event (s1\<lparr>sv_jobs := tasks (sv_jobs s1)\<rparr>) = Some (Inr (Stop deadline), s')"
      then obtain pre tasks' env' event' rest s1 where R: "turn # turns = pre @ (tasks', env', event') # rest"
        "serve p pre s = (Serving, s1)"
        "serve_step p env' event' (s1\<lparr>sv_jobs := tasks' (sv_jobs s1)\<rparr>) = Some (Inr (Stop deadline), s')"
        by blast
      show "serve p (turn # turns) s = (Stopped deadline, s')"
      proof (cases pre)
        case Nil
        with R turn show ?thesis by simp
      next
        case (Cons t pre')
        with R(1) have pre: "pre = (tasks, env, event) # pre'" by (simp add: turn)
        from R(2) [unfolded pre serve_Cons_Serving] False show ?thesis by blast
      qed
    qed
  qed
qed

text \<open>
  The whole of a session that stops: the turns before the shutdown, which is the last.
\<close>

lemma serve_stopped_balances:
  assumes "serve p turns s = (Stopped deadline, s')" and "lawful p turns"
    and "jobs_inv [] (sv_jobs s)" and "abs_jobs (sv_jobs s) = Map.empty"
  obtains pre tasks env e rest trace es ack where
    "turns = pre @ (tasks, env, MessageBranch (Inr (Some e))) # rest" "env_trace e = Some trace"
    "client_wire (jm_host (sv_jobs s')) = client_wire (jm_host (sv_jobs s)) @ es @ [ack]"
    "acknowledged (outputs es) = requested pre"
    "reply_to ack = Some (message_id e)" "env_trace ack = Some trace"
    "env_payload ack = Some PShutdownAcknowledged"
    "jm_tasks (sv_jobs s') = []" "jm_active (sv_jobs s') = hm_empty" "valid_timestamp deadline"
proof -
  from assms(1) [unfolded serve_Stopped] obtain pre tasks env event rest s1 where
    turns: "turns = pre @ (tasks, env, event) # rest" and pre: "serve p pre s = (Serving, s1)"
    and stop: "serve_step p env event (s1\<lparr>sv_jobs := tasks (sv_jobs s1)\<rparr>) = Some (Inr (Stop deadline), s')"
    by blast
  from assms(2) have lawful: "lawful p pre" "well_behaved env" "background p (sv_jobs s1) (tasks (sv_jobs s1))"
    by (auto simp: lawful_def turns)
  from serve_runs [OF pre assms(3) lawful(1)] obtain ls where
    ls: "run (jobs_step p) (sv_jobs s) ls (sv_jobs s1)" "withdrawn ls = requested pre" by blast
  from lawful(3) obtain ks where ks: "run (jobs_step p) (sv_jobs s1) ks (tasks (sv_jobs s1))"
    "withdrawn ks = {#}" using withdrawn_others by (auto simp: background_def)
  let ?s1 = "s1\<lparr>sv_jobs := tasks (sv_jobs s1)\<rparr>"
  have run: "run (jobs_step p) (sv_jobs s) (ls @ ks) (sv_jobs ?s1)"
    using run_append [OF ks(1) ls(1)] by simp
  show thesis
    using run assms(3,4) lawful(2) stop
  proof (rule shutdown_balances)
    fix e trace es ack
    assume "event = MessageBranch (Inr (Some e))" "env_trace e = Some trace"
      "client_wire (jm_host (sv_jobs s')) = client_wire (jm_host (sv_jobs s)) @ es @ [ack]"
      "acknowledged (outputs es) = withdrawn (ls @ ks)"
      "reply_to ack = Some (message_id e)" "env_trace ack = Some trace"
      "env_payload ack = Some PShutdownAcknowledged"
      "jm_tasks (sv_jobs s') = []" "jm_active (sv_jobs s') = hm_empty" "valid_timestamp deadline"
    with ls(2) ks(2) turns that [of pre tasks env e rest trace es ack] show thesis by simp
  qed
qed

end
