(* ===== verification/Liveness.thy ===== *)
theory Liveness
  imports Errors Polling
begin

text \<open>
  \<open>src/runtime/session/liveness.rs\<close>: the thread that watches the pipe to the parent
  process. What the operating system answers in each pass of its loop is the environment:
  the loads of the stop flag, the results of \<open>poll\<close> and \<open>read\<close>, and the error behind a
  negative result. \<open>unix\<close> and other targets have a watcher each.
\<close>

definition POLL_INTERVAL_MILLISECONDS :: int where
  "POLL_INTERVAL_MILLISECONDS = 50"

datatype io_error_kind = Interrupted | WouldBlock | OtherKind

record io_error =
  io_kind :: io_error_kind
  io_text :: error_source

type_synonym io_result = "io_error + unit"

record watch_pass =
  wp_stop :: bool
  wp_ready :: int
  wp_poll_error :: io_error
  wp_stop_after_poll :: bool
  wp_read :: int
  wp_read_error :: io_error

text \<open>One pass of the \<open>while\<close> loop; \<^const>\<open>None\<close>: another pass follows.\<close>

definition descriptor_pass :: "(nat \<Rightarrow> watch_pass) \<Rightarrow> nat \<Rightarrow> io_result option" where
  "descriptor_pass os k =
     (let p = os k
      in if wp_stop p then Some (Inr ())
         else if wp_ready p = 0 then None
         else if wp_ready p < 0
         then (if io_kind (wp_poll_error p) = Interrupted then None else Some (Inl (wp_poll_error p)))
         else if wp_stop_after_poll p then Some (Inr ())
         else if wp_read p = 0 then Some (Inr ())
         else if wp_read p < 0
         then (if io_kind (wp_read_error p) \<in> {Interrupted, WouldBlock} then None
               else Some (Inl (wp_read_error p)))
         else None)"

partial_function (option) watch_descriptor :: "(nat \<Rightarrow> watch_pass) \<Rightarrow> nat \<Rightarrow> io_result option" where
  "watch_descriptor os k =
     (case descriptor_pass os k of
        Some result \<Rightarrow> Some result
      | None \<Rightarrow> watch_descriptor os (Suc k))"

text \<open>The loop of the portable watcher: a blocking read of one byte per pass.\<close>

record read_pass =
  rp_stop :: bool
  rp_read :: "io_error + nat"

definition portable_pass :: "(nat \<Rightarrow> read_pass) \<Rightarrow> nat \<Rightarrow> io_result option" where
  "portable_pass os k =
     (if rp_stop (os k) then Some (Inr ())
      else case rp_read (os k) of
        Inr 0 \<Rightarrow> Some (Inr ())
      | Inr (Suc _) \<Rightarrow> None
      | Inl error \<Rightarrow> if io_kind error = Interrupted then None else Some (Inl error))"

partial_function (option) watch_portable :: "(nat \<Rightarrow> read_pass) \<Rightarrow> nat \<Rightarrow> io_result option" where
  "watch_portable os k =
     (case portable_pass os k of
        Some result \<Rightarrow> Some result
      | None \<Rightarrow> watch_portable os (Suc k))"

text \<open>What a watcher sends when its loop has ended: nothing once it has been stopped.\<close>

definition report :: "bool \<Rightarrow> io_result \<Rightarrow> io_result option" where
  "report stop result = (if stop then None else Some result)"

definition watch_stdin :: "(nat \<Rightarrow> watch_pass) \<Rightarrow> bool \<Rightarrow> io_result option option" where
  "watch_stdin os stop = map_option (report stop) (watch_descriptor os 0)"

definition watch_stdin_portable :: "(nat \<Rightarrow> read_pass) \<Rightarrow> bool \<Rightarrow> io_result option option" where
  "watch_stdin_portable os stop = map_option (report stop) (watch_portable os 0)"

text \<open>
  \<open>ParentLiveness::wait\<close>, on what awaiting the one-shot yields: the watcher's result, or an
  error when the watcher ended without sending one.
\<close>

definition parent_wait :: "error_source + io_result \<Rightarrow> unit sdk_result" where
  "parent_wait received =
     (case received of
        Inl error \<Rightarrow> Inl (runtime ''wait for parent-liveness watcher'' error)
      | Inr (Inl error) \<Rightarrow> Inl (runtime ''watch parent-liveness pipe'' (io_text error))
      | Inr (Inr _) \<Rightarrow> Inr ())"

section \<open>Both watchers are polling loops\<close>

lemma watch_descriptor_waits:
  assumes "\<And>i. descriptor_pass os i = None"
  shows "watch_descriptor os k = None"
proof (rule ccontr)
  assume "watch_descriptor os k \<noteq> None"
  then obtain r where "watch_descriptor os k = Some r" by auto
  have "\<exists>i. descriptor_pass os i \<noteq> None"
  proof (rule watch_descriptor.raw_induct
      [where P = "\<lambda>os k r. \<exists>i. descriptor_pass os i \<noteq> None", OF _ \<open>watch_descriptor os k = Some r\<close>])
    fix rec and os :: "nat \<Rightarrow> watch_pass" and k r
    assume "\<And>os k r. rec os k = Some r \<Longrightarrow> \<exists>i. descriptor_pass os i \<noteq> None"
      and "(case descriptor_pass os k of None \<Rightarrow> rec os (Suc k) | Some result \<Rightarrow> Some result) = Some r"
    then show "\<exists>i. descriptor_pass os i \<noteq> None"
      by (cases "descriptor_pass os k") (auto simp del: not_None_eq intro: exI [of _ k])
  qed
  with assms show False by simp
qed

lemma watch_portable_waits:
  assumes "\<And>i. portable_pass os i = None"
  shows "watch_portable os k = None"
proof (rule ccontr)
  assume "watch_portable os k \<noteq> None"
  then obtain r where "watch_portable os k = Some r" by auto
  have "\<exists>i. portable_pass os i \<noteq> None"
  proof (rule watch_portable.raw_induct
      [where P = "\<lambda>os k r. \<exists>i. portable_pass os i \<noteq> None", OF _ \<open>watch_portable os k = Some r\<close>])
    fix rec and os :: "nat \<Rightarrow> read_pass" and k r
    assume "\<And>os k r. rec os k = Some r \<Longrightarrow> \<exists>i. portable_pass os i \<noteq> None"
      and "(case portable_pass os k of None \<Rightarrow> rec os (Suc k) | Some result \<Rightarrow> Some result) = Some r"
    then show "\<exists>i. portable_pass os i \<noteq> None"
      by (cases "portable_pass os k") (auto simp del: not_None_eq intro: exI [of _ k])
  qed
  with assms show False by simp
qed

interpretation descriptor: polling descriptor_pass watch_descriptor
proof unfold_locales
  show "watch_descriptor os k = Some r" if "descriptor_pass os k = Some r" for os k r
    using that by (subst watch_descriptor.simps) simp
  show "watch_descriptor os k = watch_descriptor os (Suc k)" if "descriptor_pass os k = None" for os k
    using that by (subst watch_descriptor.simps) simp
qed (rule watch_descriptor_waits)

interpretation portable: polling portable_pass watch_portable
proof unfold_locales
  show "watch_portable os k = Some r" if "portable_pass os k = Some r" for os k r
    using that by (subst watch_portable.simps) simp
  show "watch_portable os k = watch_portable os (Suc k)" if "portable_pass os k = None" for os k
    using that by (subst watch_portable.simps) simp
qed (rule watch_portable_waits)

text \<open>
  What ends a watcher: the stop flag, the end of the pipe, or an error that is not to be
  retried. Data and retryable errors do not.
\<close>

lemma descriptor_pass_decides:
  "descriptor_pass os k = Some result \<longleftrightarrow>
     (let p = os k in
        (result = Inr () \<and> (wp_stop p \<or> 0 < wp_ready p \<and> (wp_stop_after_poll p \<or> wp_read p = 0))) \<or>
        (\<not> wp_stop p \<and> wp_ready p < 0 \<and> io_kind (wp_poll_error p) \<noteq> Interrupted \<and>
           result = Inl (wp_poll_error p)) \<or>
        (\<not> wp_stop p \<and> 0 < wp_ready p \<and> \<not> wp_stop_after_poll p \<and> wp_read p < 0 \<and>
           io_kind (wp_read_error p) = OtherKind \<and> result = Inl (wp_read_error p)))"
  by (cases "io_kind (wp_read_error (os k))") (auto simp: descriptor_pass_def Let_def)

lemma descriptor_stops:
  assumes "wp_stop (os k)"
  shows "\<exists>m r. m \<le> k \<and> descriptor_pass os m = Some r \<and> watch_descriptor os 0 = Some r"
proof -
  from assms have "descriptor_pass os (0 + k) \<noteq> None" by (simp add: descriptor_pass_def Let_def)
  from descriptor.loop_returns [OF this] show ?thesis by auto
qed

end
