(* ===== verification/Watcher.thy ===== *)
theory Watcher
  imports Liveness
begin

text \<open>
  \<open>ParentLiveness\<close> of \<open>src/runtime/session/liveness.rs\<close> as two parties that share a stop
  flag and a one-shot channel: the thread that \<open>start\<close> spawns, one step per call or load of
  its loop, and the owner, which awaits the channel in the \<open>select!\<close> of \<open>run\<close> and may be
  dropped at any moment. A step of the thread stands for a call of the operating system
  that has returned; \<open>poll\<close> does so within its interval.
\<close>

section \<open>The shared state\<close>

datatype target = Unix | Portable

datatype oneshot = Unsent | Sent io_result | SenderDropped

text \<open>Where the thread is; the number is that of the pass of its loop.\<close>

datatype watcher_pc =
  LoadStop nat | Poll nat | LoadStopAgain nat | Read nat
| Leaving io_result | Sending io_result | ThreadEnded

datatype owner = OwnerWaiting | OwnerWaited "unit sdk_result" | OwnerJoining | OwnerDropped

record parent_liveness =
  lv_closed :: oneshot
  lv_stop :: bool
  lv_thread :: watcher_pc
  lv_owner :: owner

fun in_loop :: "watcher_pc \<Rightarrow> bool" where
  "in_loop (LoadStop _) = True"
| "in_loop (Poll _) = True"
| "in_loop (LoadStopAgain _) = True"
| "in_loop (Read _) = True"
| "in_loop _ = False"

section \<open>The operations\<close>

definition parent_start :: "error_source + unit \<Rightarrow> parent_liveness sdk_result" where
  "parent_start spawned =
     (case spawned of
        Inl error \<Rightarrow> Inl (runtime ''start parent-liveness watcher'' error)
      | Inr _ \<Rightarrow> Inr \<lparr>lv_closed = Unsent, lv_stop = False, lv_thread = LoadStop 0,
                        lv_owner = OwnerWaiting\<rparr>)"

text \<open>One step of the loop of \<open>watch_descriptor\<close>, the flag being what the load sees.\<close>

fun descriptor_code :: "(nat \<Rightarrow> watch_pass) \<Rightarrow> bool \<Rightarrow> watcher_pc \<Rightarrow> watcher_pc" where
  "descriptor_code os stop (LoadStop k) = (if stop then Leaving (Inr ()) else Poll k)"
| "descriptor_code os stop (Poll k) =
     (if wp_ready (os k) = 0 then LoadStop (Suc k)
      else if wp_ready (os k) < 0
      then (if io_kind (wp_poll_error (os k)) = Interrupted then LoadStop (Suc k)
            else Leaving (Inl (wp_poll_error (os k))))
      else LoadStopAgain k)"
| "descriptor_code os stop (LoadStopAgain k) = (if stop then Leaving (Inr ()) else Read k)"
| "descriptor_code os stop (Read k) =
     (if wp_read (os k) = 0 then Leaving (Inr ())
      else if wp_read (os k) < 0
      then (if io_kind (wp_read_error (os k)) \<in> {Interrupted, WouldBlock} then LoadStop (Suc k)
            else Leaving (Inl (wp_read_error (os k))))
      else LoadStop (Suc k))"
| "descriptor_code os stop pc = pc"

fun portable_code :: "(nat \<Rightarrow> read_pass) \<Rightarrow> bool \<Rightarrow> watcher_pc \<Rightarrow> watcher_pc" where
  "portable_code os stop (LoadStop k) = (if stop then Leaving (Inr ()) else Read k)"
| "portable_code os stop (Read k) =
     (case rp_read (os k) of
        Inr 0 \<Rightarrow> Leaving (Inr ())
      | Inr (Suc _) \<Rightarrow> LoadStop (Suc k)
      | Inl error \<Rightarrow>
          if io_kind error = Interrupted then LoadStop (Suc k) else Leaving (Inl error))"
| "portable_code os stop pc = pc"

text \<open>
  The thread: its loop, then the last load of the flag and the send. Without the send the
  sending half is dropped when the function returns.
\<close>

definition thread_step ::
  "(bool \<Rightarrow> watcher_pc \<Rightarrow> watcher_pc) \<Rightarrow> parent_liveness \<Rightarrow> parent_liveness" where
  "thread_step code s =
     (case lv_thread s of
        Leaving result \<Rightarrow>
          (if \<not> lv_stop s then s\<lparr>lv_thread := Sending result\<rparr>
           else s\<lparr>lv_thread := ThreadEnded, lv_closed := SenderDropped\<rparr>)
      | Sending result \<Rightarrow> s\<lparr>lv_thread := ThreadEnded, lv_closed := Sent result\<rparr>
      | ThreadEnded \<Rightarrow> s
      | pc \<Rightarrow> s\<lparr>lv_thread := code (lv_stop s) pc\<rparr>)"

text \<open>Polling \<open>wait\<close>; \<open>closed\<close> is the one-shot's error for a sender that is gone.\<close>

definition poll_wait :: "error_source \<Rightarrow> oneshot \<Rightarrow> unit sdk_result option" where
  "poll_wait closed channel =
     (case channel of
        Unsent \<Rightarrow> None
      | Sent result \<Rightarrow> Some (parent_wait (Inr result))
      | SenderDropped \<Rightarrow> Some (parent_wait (Inl closed)))"

text \<open>\<open>drop\<close> up to the join, which exists on \<open>unix\<close> only.\<close>

definition drop_parent :: "target \<Rightarrow> parent_liveness \<Rightarrow> parent_liveness" where
  "drop_parent target s =
     s\<lparr>lv_stop := True,
       lv_owner := (case target of Unix \<Rightarrow> OwnerJoining | Portable \<Rightarrow> OwnerDropped)\<rparr>"

datatype watcher_label = ThreadRuns | WaitReturns | DropBegins | JoinReturns

inductive watcher_step ::
  "target \<Rightarrow> (bool \<Rightarrow> watcher_pc \<Rightarrow> watcher_pc) \<Rightarrow> error_source \<Rightarrow>
   parent_liveness \<Rightarrow> watcher_label \<Rightarrow> parent_liveness \<Rightarrow> bool"
  for target code closed where
  thread_runs:
    "lv_thread s \<noteq> ThreadEnded \<Longrightarrow> watcher_step target code closed s ThreadRuns (thread_step code s)"
| wait_returns:
    "lv_owner s = OwnerWaiting \<Longrightarrow> poll_wait closed (lv_closed s) = Some result \<Longrightarrow>
     watcher_step target code closed s WaitReturns (s\<lparr>lv_owner := OwnerWaited result\<rparr>)"
| drop_begins:
    "lv_owner s \<notin> {OwnerJoining, OwnerDropped} \<Longrightarrow>
     watcher_step target code closed s DropBegins (drop_parent target s)"
| join_returns:
    "lv_owner s = OwnerJoining \<Longrightarrow> lv_thread s = ThreadEnded \<Longrightarrow>
     watcher_step target code closed s JoinReturns (s\<lparr>lv_owner := OwnerDropped\<rparr>)"

inductive_cases watcher_stepE: "watcher_step target code closed s l t"

definition started :: "parent_liveness \<Rightarrow> bool" where
  "started s \<longleftrightarrow> parent_start (Inr ()) = Inr s"

section \<open>What the thread's code has to keep\<close>

text \<open>
  The interface between a watcher's loop and the thread around it: at every point of the
  loop nothing has been decided yet, and a step that leaves the loop does so with the
  verdict of the loop that is never stopped, or because it was stopped.
\<close>

locale watcher_code =
  fixes code :: "bool \<Rightarrow> watcher_pc \<Rightarrow> watcher_pc"
    and verdict :: "io_result \<Rightarrow> bool"
    and undecided :: "watcher_pc \<Rightarrow> bool"
  assumes undecided_start: "undecided (LoadStop 0)"
    and code_step: "in_loop pc \<Longrightarrow> undecided pc \<Longrightarrow>
      in_loop (code stop pc) \<and> undecided (code stop pc) \<or>
      (\<exists>r. code stop pc = Leaving r \<and> (stop \<or> verdict r))"
begin

text \<open>
  The invariant: what the thread is about to send is the verdict; the channel loses its
  sender only after the flag is set; and the flag is set only by a drop.
\<close>

definition watcher_inv :: "parent_liveness \<Rightarrow> bool" where
  "watcher_inv s \<longleftrightarrow>
     (in_loop (lv_thread s) \<longrightarrow> undecided (lv_thread s)) \<and>
     (\<forall>r. lv_thread s = Leaving r \<longrightarrow> lv_stop s \<or> verdict r) \<and>
     (\<forall>r. lv_thread s = Sending r \<longrightarrow> verdict r) \<and>
     (lv_closed s = Unsent \<longleftrightarrow> lv_thread s \<noteq> ThreadEnded) \<and>
     (\<forall>r. lv_closed s = Sent r \<longrightarrow> verdict r) \<and>
     (lv_closed s = SenderDropped \<longrightarrow> lv_stop s) \<and>
     (lv_stop s \<longleftrightarrow> lv_owner s \<in> {OwnerJoining, OwnerDropped}) \<and>
     (\<forall>x. lv_owner s = OwnerWaited x \<longrightarrow> (\<exists>r. verdict r \<and> x = parent_wait (Inr r)))"

lemma started_inv: "started s \<Longrightarrow> watcher_inv s"
  using undecided_start by (auto simp: started_def parent_start_def watcher_inv_def)

lemma thread_step_loop:
  "in_loop (lv_thread s) \<Longrightarrow> thread_step code s = s\<lparr>lv_thread := code (lv_stop s) (lv_thread s)\<rparr>"
  by (cases "lv_thread s") (simp_all add: thread_step_def)

lemma thread_step_inv:
  assumes "watcher_inv s" and "lv_thread s \<noteq> ThreadEnded"
  shows "watcher_inv (thread_step code s)"
proof (cases "in_loop (lv_thread s)")
  case True
  with assms(1) have "undecided (lv_thread s)" by (simp add: watcher_inv_def)
  from code_step [OF True this, of "lv_stop s"] consider
    (stays) "in_loop (code (lv_stop s) (lv_thread s))" "undecided (code (lv_stop s) (lv_thread s))"
  | (leaves) r where "code (lv_stop s) (lv_thread s) = Leaving r" "lv_stop s \<or> verdict r"
    by blast
  then show ?thesis
  proof cases
    case stays
    with assms True show ?thesis
      by (cases "code (lv_stop s) (lv_thread s)") (auto simp: thread_step_loop watcher_inv_def)
  next
    case leaves
    with assms True show ?thesis by (auto simp: thread_step_loop watcher_inv_def)
  qed
next
  case False
  with assms show ?thesis
    by (cases "lv_thread s") (auto simp: thread_step_def watcher_inv_def)
qed

lemma watcher_step_inv:
  assumes "watcher_step target code closed s l t" and "watcher_inv s"
  shows "watcher_inv t"
  using assms
proof (cases rule: watcher_step.cases)
  case thread_runs
  with assms(2) thread_step_inv show ?thesis by simp
qed (auto simp: watcher_inv_def poll_wait_def drop_parent_def split: oneshot.splits target.splits)

sublocale watcher: invariant_system started "watcher_step target code closed" watcher_inv
  for target closed
proof unfold_locales
  show "started s \<Longrightarrow> watcher_inv s" for s by (rule started_inv)
  show "watcher_step target code closed s l t \<Longrightarrow> watcher_inv s \<Longrightarrow> watcher_inv t" for s l t
    by (rule watcher_step_inv)
qed

lemma waited_for_the_verdict:
  assumes "run (watcher_step target code closed) s ls t" and "started s"
    and "lv_owner t = OwnerWaited result"
  shows "\<exists>r. verdict r \<and> result = parent_wait (Inr r)"
  using watcher.reachable_inv [OF assms(2,1)] assms(3) by (auto simp: watcher_inv_def)

end

section \<open>Both watchers keep it\<close>

text \<open>What the operating system answers, to a loop whose flag stays clear.\<close>

definition unstopped :: "(nat \<Rightarrow> watch_pass) \<Rightarrow> nat \<Rightarrow> watch_pass" where
  "unstopped os = (\<lambda>k. (os k)\<lparr>wp_stop := False, wp_stop_after_poll := False\<rparr>)"

definition unstopped_reads :: "(nat \<Rightarrow> read_pass) \<Rightarrow> nat \<Rightarrow> read_pass" where
  "unstopped_reads os = (\<lambda>k. (os k)\<lparr>rp_stop := False\<rparr>)"

fun descriptor_undecided :: "(nat \<Rightarrow> watch_pass) \<Rightarrow> watcher_pc \<Rightarrow> bool" where
  "descriptor_undecided os (LoadStop k) \<longleftrightarrow> (\<forall>i < k. descriptor_pass (unstopped os) i = None)"
| "descriptor_undecided os (Poll k) \<longleftrightarrow> (\<forall>i < k. descriptor_pass (unstopped os) i = None)"
| "descriptor_undecided os (LoadStopAgain k) \<longleftrightarrow>
     0 < wp_ready (os k) \<and> (\<forall>i < k. descriptor_pass (unstopped os) i = None)"
| "descriptor_undecided os (Read k) \<longleftrightarrow>
     0 < wp_ready (os k) \<and> (\<forall>i < k. descriptor_pass (unstopped os) i = None)"
| "descriptor_undecided os _ \<longleftrightarrow> True"

fun portable_undecided :: "(nat \<Rightarrow> read_pass) \<Rightarrow> watcher_pc \<Rightarrow> bool" where
  "portable_undecided os (LoadStop k) \<longleftrightarrow> (\<forall>i < k. portable_pass (unstopped_reads os) i = None)"
| "portable_undecided os (Read k) \<longleftrightarrow> (\<forall>i < k. portable_pass (unstopped_reads os) i = None)"
| "portable_undecided os (Poll k) \<longleftrightarrow> False"
| "portable_undecided os (LoadStopAgain k) \<longleftrightarrow> False"
| "portable_undecided os _ \<longleftrightarrow> True"

text \<open>The step that ends a pass does what the pass says.\<close>

lemma descriptor_code_pass:
  "0 < wp_ready (os k) \<Longrightarrow> descriptor_code os stop (Read k) =
     (case descriptor_pass (unstopped os) k of None \<Rightarrow> LoadStop (Suc k) | Some r \<Rightarrow> Leaving r)"
  "\<not> 0 < wp_ready (os k) \<Longrightarrow> descriptor_code os stop (Poll k) =
     (case descriptor_pass (unstopped os) k of None \<Rightarrow> LoadStop (Suc k) | Some r \<Rightarrow> Leaving r)"
  "0 < wp_ready (os k) \<Longrightarrow> descriptor_code os stop (Poll k) = LoadStopAgain k"
  by (auto simp: descriptor_pass_def unstopped_def)

lemma portable_code_pass:
  "portable_code os stop (Read k) =
     (case portable_pass (unstopped_reads os) k of None \<Rightarrow> LoadStop (Suc k) | Some r \<Rightarrow> Leaving r)"
  by (auto simp: portable_pass_def unstopped_reads_def split: sum.splits nat.splits)

interpretation unix_watcher: watcher_code
  "descriptor_code os" "\<lambda>r. watch_descriptor (unstopped os) 0 = Some r" "descriptor_undecided os"
  for os
proof unfold_locales
  show "descriptor_undecided os (LoadStop 0)" by simp
  show "in_loop (descriptor_code os stop pc) \<and> descriptor_undecided os (descriptor_code os stop pc) \<or>
      (\<exists>r. descriptor_code os stop pc = Leaving r \<and>
        (stop \<or> watch_descriptor (unstopped os) 0 = Some r))"
    if "in_loop pc" and "descriptor_undecided os pc" for stop pc
  proof (cases pc)
    case (Poll k)
    with that show ?thesis
      by (cases "0 < wp_ready (os k)"; cases "descriptor_pass (unstopped os) k")
        (auto simp: descriptor_code_pass descriptor.loop_start_Some_iff less_Suc_eq
          simp del: descriptor_code.simps)
  next
    case (Read k)
    with that show ?thesis
      by (cases "descriptor_pass (unstopped os) k")
        (auto simp: descriptor_code_pass descriptor.loop_start_Some_iff less_Suc_eq
          simp del: descriptor_code.simps)
  qed (use that in auto)
qed

interpretation portable_watcher: watcher_code
  "portable_code os" "\<lambda>r. watch_portable (unstopped_reads os) 0 = Some r" "portable_undecided os"
  for os
proof unfold_locales
  show "portable_undecided os (LoadStop 0)" by simp
  show "in_loop (portable_code os stop pc) \<and> portable_undecided os (portable_code os stop pc) \<or>
      (\<exists>r. portable_code os stop pc = Leaving r \<and>
        (stop \<or> watch_portable (unstopped_reads os) 0 = Some r))"
    if "in_loop pc" and "portable_undecided os pc" for stop pc
  proof (cases pc)
    case (Read k)
    with that show ?thesis
      by (cases "portable_pass (unstopped_reads os) k")
        (auto simp: portable_code_pass portable.loop_start_Some_iff less_Suc_eq
          simp del: portable_code.simps)
  qed (use that in auto)
qed

section \<open>The join in drop returns\<close>

fun steps_to_end :: "watcher_pc \<Rightarrow> nat" where
  "steps_to_end ThreadEnded = 0"
| "steps_to_end (Leaving _) = 1"
| "steps_to_end (Sending _) = 1"
| "steps_to_end (LoadStop _) = 2"
| "steps_to_end (LoadStopAgain _) = 2"
| "steps_to_end (Poll _) = 3"
| "steps_to_end (Read _) = 3"

definition drop_inv :: "parent_liveness \<Rightarrow> bool" where
  "drop_inv s \<longleftrightarrow> lv_stop s \<and>
     (lv_owner s = OwnerJoining \<or> lv_owner s = OwnerDropped \<and> lv_thread s = ThreadEnded)"

definition steps_to_drop :: "parent_liveness \<Rightarrow> nat" where
  "steps_to_drop s = steps_to_end (lv_thread s) + (if lv_owner s = OwnerJoining then 1 else 0)"

lemma steps_to_drop_le: "steps_to_drop s \<le> 4"
  by (cases "lv_thread s") (simp_all add: steps_to_drop_def)

lemma stopping_thread_step:
  assumes "lv_stop s" and "lv_thread s \<noteq> ThreadEnded"
  shows "steps_to_end (lv_thread (thread_step (descriptor_code os) s)) < steps_to_end (lv_thread s)"
    and "lv_stop (thread_step (descriptor_code os) s)"
    and "lv_owner (thread_step (descriptor_code os) s) = lv_owner s"
  using assms by (cases "lv_thread s"; simp add: thread_step_def)+

lemma drop_step:
  assumes "watcher_step Unix (descriptor_code os) closed s l t" and "drop_inv s"
  shows "drop_inv t" and "steps_to_drop t < steps_to_drop s"
  using assms
  by (auto elim!: watcher_stepE simp: drop_inv_def steps_to_drop_def stopping_thread_step)

lemma drop_run:
  assumes "run (watcher_step Unix (descriptor_code os) closed) s ls t" and "drop_inv s"
  shows "drop_inv t \<and> length ls + steps_to_drop t \<le> steps_to_drop s"
  using assms
proof (induction rule: run.induct)
  case run_nil
  then show ?case by simp
next
  case (run_snoc ls t l u)
  with drop_step [OF run_snoc(2)] show ?case by fastforce
qed

lemma drop_stuck:
  assumes "drop_inv s" and "\<And>l t. \<not> watcher_step Unix code closed s l t"
  shows "lv_owner s = OwnerDropped" and "lv_thread s = ThreadEnded"
proof -
  show ended: "lv_thread s = ThreadEnded" using thread_runs assms(2) by blast
  show "lv_owner s = OwnerDropped"
    using join_returns [OF _ ended, of Unix code closed] assms by (auto simp: drop_inv_def)
qed

section \<open>What the pipe says reaches the owner\<close>

text \<open>The steps left to the thread when pass \<open>n\<close> of its loop is the decisive one.\<close>

fun steps_to_send :: "nat \<Rightarrow> watcher_pc \<Rightarrow> nat" where
  "steps_to_send n (LoadStop k) = 4 * (n - k) + 6"
| "steps_to_send n (Poll k) = 4 * (n - k) + 5"
| "steps_to_send n (LoadStopAgain k) = 4 * (n - k) + 4"
| "steps_to_send n (Read k) = 4 * (n - k) + 3"
| "steps_to_send n (Leaving _) = 2"
| "steps_to_send n (Sending _) = 1"
| "steps_to_send n ThreadEnded = 0"

lemma steps_to_send_le: "steps_to_send n pc \<le> 4 * n + 6"
  by (cases pc) auto

lemma undecided_before:
  assumes "descriptor_pass os n \<noteq> None" and "\<forall>i < k. descriptor_pass os i = None"
    and "descriptor_pass os k = None"
  shows "k < n"
  using assms by (metis linorder_neqE_nat)

lemma watching_loop_step:
  assumes "in_loop pc" and "descriptor_undecided os pc" and "descriptor_pass (unstopped os) n \<noteq> None"
  shows "steps_to_send n (descriptor_code os False pc) < steps_to_send n pc"
proof (cases pc)
  case (Poll k)
  with assms undecided_before [OF assms(3), of k] show ?thesis
    by (cases "0 < wp_ready (os k)"; cases "descriptor_pass (unstopped os) k")
      (auto simp: descriptor_code_pass simp del: descriptor_code.simps)
next
  case (Read k)
  with assms undecided_before [OF assms(3), of k] show ?thesis
    by (cases "descriptor_pass (unstopped os) k")
      (auto simp: descriptor_code_pass simp del: descriptor_code.simps)
qed (use assms(1) in auto)

lemma watching_thread_step:
  assumes "unix_watcher.watcher_inv os s" and "\<not> lv_stop s" and "lv_thread s \<noteq> ThreadEnded"
    and "descriptor_pass (unstopped os) n \<noteq> None"
  shows "steps_to_send n (lv_thread (thread_step (descriptor_code os) s)) < steps_to_send n (lv_thread s)"
proof (cases "in_loop (lv_thread s)")
  case True
  with assms(1) have "descriptor_undecided os (lv_thread s)" by (simp add: unix_watcher.watcher_inv_def)
  from watching_loop_step [OF True this assms(4)] True assms(2) show ?thesis
    by (simp add: unix_watcher.thread_step_loop)
next
  case False
  with assms(2,3) show ?thesis by (cases "lv_thread s") (simp_all add: thread_step_def)
qed

lemma thread_step_frame:
  "lv_owner (thread_step code s) = lv_owner s" "lv_stop (thread_step code s) = lv_stop s"
  by (cases "lv_thread s"; simp add: thread_step_def)+

lemma watching_thread_sends:
  assumes "unix_watcher.watcher_inv os s" and "lv_owner s = OwnerWaiting"
    and "descriptor_pass (unstopped os) n \<noteq> None"
  shows "\<exists>m t. m \<le> steps_to_send n (lv_thread s) \<and>
    run (watcher_step target (descriptor_code os) closed) s (replicate m ThreadRuns) t \<and>
    unix_watcher.watcher_inv os t \<and> lv_owner t = OwnerWaiting \<and> lv_thread t = ThreadEnded"
  using assms(1,2)
proof (induction "steps_to_send n (lv_thread s)" arbitrary: s rule: less_induct)
  case less
  show ?case
  proof (cases "lv_thread s = ThreadEnded")
    case True
    with less.prems show ?thesis by (intro exI [of _ 0] exI [of _ s]) (auto intro: run.run_nil)
  next
    case False
    let ?t = "thread_step (descriptor_code os) s"
    from less.prems have "\<not> lv_stop s" by (auto simp: unix_watcher.watcher_inv_def)
    note closer = watching_thread_step [OF less.prems(1) this False assms(3)]
    obtain m u where "m \<le> steps_to_send n (lv_thread ?t)"
      and "run (watcher_step target (descriptor_code os) closed) ?t (replicate m ThreadRuns) u"
      and "unix_watcher.watcher_inv os u \<and> lv_owner u = OwnerWaiting \<and> lv_thread u = ThreadEnded"
      using less.hyps [OF closer] unix_watcher.thread_step_inv [OF less.prems(1) False] less.prems(2)
      by (auto simp: thread_step_frame)
    moreover from run_cons [where step = "watcher_step target (descriptor_code os) closed",
        OF thread_runs [OF False] this(2)]
    have "run (watcher_step target (descriptor_code os) closed) s (replicate (Suc m) ThreadRuns) u"
      by simp
    ultimately show ?thesis using closer by (intro exI [of _ "Suc m"] exI [of _ u]) auto
  qed
qed

lemma watching_owner_hears:
  assumes "unix_watcher.watcher_inv os s" and "lv_owner s = OwnerWaiting"
    and "descriptor_pass (unstopped os) n \<noteq> None"
  shows "\<exists>m t r. m \<le> 4 * n + 6 \<and>
    run (watcher_step target (descriptor_code os) closed) s (replicate m ThreadRuns @ [WaitReturns]) t \<and>
    watch_descriptor (unstopped os) 0 = Some r \<and> lv_owner t = OwnerWaited (parent_wait (Inr r))"
proof -
  obtain m t where m: "m \<le> 4 * n + 6"
    and ran: "run (watcher_step target (descriptor_code os) closed) s (replicate m ThreadRuns) t"
    and t: "unix_watcher.watcher_inv os t" "lv_owner t = OwnerWaiting" "lv_thread t = ThreadEnded"
    using watching_thread_sends [OF assms] steps_to_send_le order_trans by blast
  from t obtain r where "lv_closed t = Sent r" and verdict: "watch_descriptor (unstopped os) 0 = Some r"
    by (cases "lv_closed t") (auto simp: unix_watcher.watcher_inv_def)
  then have "watcher_step target (descriptor_code os) closed t WaitReturns
      (t\<lparr>lv_owner := OwnerWaited (parent_wait (Inr r))\<rparr>)"
    using t(2) by (intro wait_returns) (simp_all add: poll_wait_def)
  from run_snoc [OF ran this] m verdict show ?thesis by (intro exI conjI) auto
qed

end
