(* ===== verification/Runtime.thy ===== *)
theory Runtime
  imports Session_Correct Watcher
begin

text \<open>
  The entry points: \<open>run_session\<close> and \<open>run\<close> of \<open>src/runtime/session.rs\<close> and \<open>Plugin::run\<close> of
  \<open>src/runtime/plugin.rs\<close>. They put the components together: the endpoint, the watcher of
  the parent, the handshake, the loop, and the wait for the end of the stream.
\<close>

text \<open>Everything a session meets: tonic's connection and stream, the clock, the tasks.\<close>

record 'h session_world =
  sw_connected :: "error_source + unit"
  sw_opened :: "error_source + unit"
  sw_action_order :: "(string, 'h registered_action) hash_map \<Rightarrow> (string \<times> 'h registered_action) list"
  sw_closed :: "nat \<Rightarrow> bool"
  sw_first :: stream_message
  sw_second :: stream_message
  sw_turns :: "'h serve_turn list"
  sw_to_system_time :: "timestamp \<Rightarrow> error_source + int"
  sw_now :: int
  sw_next_within :: "nat \<Rightarrow> (error_source + plugin_envelope) option option"

text \<open>
  \<open>Unfinished\<close>: the turns are used up and the loop still runs. \<open>Crashed\<close>: an \<open>expect\<close>
  panicked. The second component is what the session has put on the wire.
\<close>

datatype session_outcome = Ended "unit sdk_result" | Unfinished | Crashed

definition initial_serve_state ::
  "'h plugin \<Rightarrow> session_state \<Rightarrow> host_client \<Rightarrow> 'h serve_state" where
  "initial_serve_state plugin session host =
     \<lparr>sv_jobs = new_job_manager (pl_actions plugin) (pl_maximum_concurrent_jobs plugin) host,
      sv_session = session\<rparr>"

definition run_session ::
  "uuid_parser \<Rightarrow> 'h session_world \<Rightarrow> 'h plugin \<Rightarrow> session_outcome \<times> plugin_envelope list" where
  "run_session parse_uuid w plugin =
     (case sw_connected w of
        Inl error \<Rightarrow> (Ended (Inl (runtime ''connect to oll plugin endpoint'' error)), [])
      | Inr _ \<Rightarrow>
          (case sw_opened w of
             Inl error \<Rightarrow> (Ended (Inl (runtime ''open plugin runtime stream'' error)), [])
           | Inr _ \<Rightarrow>
               (case handshake parse_uuid (sw_action_order w) (sw_closed w) plugin
                       (sw_first w) (sw_second w) of
                  None \<Rightarrow> (Crashed, [])
                | Some (Inl e, sender) \<Rightarrow>
                    (Ended (Inl e), case sender of Some s \<Rightarrow> wire_envelopes s | None \<Rightarrow> [])
                | Some (Inr (session, host), _) \<Rightarrow>
                    (let (outcome, s) =
                           serve parse_uuid (sw_turns w) (initial_serve_state plugin session host)
                     in (case outcome of
                           Serving \<Rightarrow> Unfinished
                         | Panicked \<Rightarrow> Crashed
                         | Failed e \<Rightarrow> Ended (Inl e)
                         | Stopped deadline \<Rightarrow>
                             Ended (wait_for_host_close (sw_to_system_time w) (sw_now w)
                               (sw_next_within w) deadline),
                         client_wire (jm_host (sv_jobs s)))))))"

text \<open>Which branch of the \<open>select!\<close> in \<open>run\<close> is ready first.\<close>

datatype run_branch = SessionBranch "unit sdk_result" | ParentBranch "error_source + io_result"

definition run_plugin ::
  "uri_parser \<Rightarrow> string \<Rightarrow> error_source + unit \<Rightarrow> run_branch \<Rightarrow> unit sdk_result" where
  "run_plugin parse_uri value spawned branch =
     and_then (endpoint parse_uri value) (\<lambda>_.
     and_then (parent_start spawned)
       (\<lambda>_. case branch of
          SessionBranch result \<Rightarrow> result
        | ParentBranch watched \<Rightarrow> parent_wait watched))"

definition plugin_run ::
  "uri_parser \<Rightarrow> error_source + string \<Rightarrow> error_source + unit \<Rightarrow> run_branch \<Rightarrow> unit sdk_result" where
  "plugin_run parse_uri variable spawned branch =
     and_then
       (case variable of
          Inl error \<Rightarrow> Inl (runtime ''read OLL_PLUGIN_ENDPOINT'' error)
        | Inr value \<Rightarrow> Inr value)
       (\<lambda>value. run_plugin parse_uri value spawned branch)"

section \<open>From the first message to the last\<close>

lemma initial_serve_state_inv:
  assumes "client_inv host"
  shows "jobs_inv [] (sv_jobs (initial_serve_state plugin session host))"
    and "abs_jobs (sv_jobs (initial_serve_state plugin session host)) = Map.empty"
    and "jm_host (sv_jobs (initial_serve_state plugin session host)) = host"
  using new_job_manager_inv [OF assms]
  by (auto simp: initial_serve_state_def abs_jobs_def new_job_manager_def hm.get_empty)

lemma handshake_client:
  "handshake p iter closed plugin first second = Some (Inr (session, host), sender) \<Longrightarrow> client_inv host"
  by (erule handshake_ok)

lemma run_session_never_crashes:
  assumes "lawful p (sw_turns w)"
  shows "fst (run_session p w plugin) \<noteq> Crashed"
proof (cases "handshake p (sw_action_order w) (sw_closed w) plugin (sw_first w) (sw_second w)")
  case None
  then show ?thesis using handshake_total by blast
next
  case (Some rs)
  obtain r sender where rs: "rs = (r, sender)" by (cases rs)
  show ?thesis
  proof (cases r)
    case (Inl e)
    with Some rs show ?thesis by (auto simp: run_session_def split: sum.splits)
  next
    case (Inr sh)
    obtain session host where sh: "sh = (session, host)" by (cases sh)
    note shaken = Some [unfolded rs Inr sh]
    have "fst (serve p (sw_turns w) (initial_serve_state plugin session host)) \<noteq> Panicked"
      using handshake_client [OF shaken] assms
      by (intro serve_never_panics initial_serve_state_inv)
    with shaken show ?thesis
      by (auto simp: run_session_def split: sum.splits prod.splits serve_outcome.splits)
  qed
qed

text \<open>What a session that ended well has said and heard.\<close>

lemma run_session_ok:
  assumes "run_session p w plugin = (Ended (Inr ()), wire)" and "lawful p (sw_turns w)"
  obtains session host sender deadline s' where
    "handshake p (sw_action_order w) (sw_closed w) plugin (sw_first w) (sw_second w) =
       Some (Inr (session, host), sender)"
    "serve p (sw_turns w) (initial_serve_state plugin session host) = (Stopped deadline, s')"
    "wait_for_host_close (sw_to_system_time w) (sw_now w) (sw_next_within w) deadline = Inr ()"
    "wire = client_wire (jm_host (sv_jobs s'))"
proof -
  from assms(1) obtain session host sender where
    hs: "handshake p (sw_action_order w) (sw_closed w) plugin (sw_first w) (sw_second w) =
       Some (Inr (session, host), sender)"
    and opened: "\<exists>u. sw_connected w = Inr u" "\<exists>u. sw_opened w = Inr u"
    by (auto simp: run_session_def split: sum.splits option.splits prod.splits)
  obtain outcome s' where served:
    "serve p (sw_turns w) (initial_serve_state plugin session host) = (outcome, s')"
    by (cases "serve p (sw_turns w) (initial_serve_state plugin session host)")
  with assms(1) hs opened show thesis
    by (cases outcome) (auto simp: run_session_def intro: that)
qed

end
