(* ===== verification/Task_Conduct.thy ===== *)
theory Task_Conduct
  imports Jobs_Correct
begin

text \<open>
  What the tasks do to the state they share with the job manager: whatever an action calls on
  its context, it keeps the client's invariant, only appends to the output, and adds no
  message that the manager alone may send. This is what the steps of the tasks are allowed
  in \<^theory_text>\<open>Jobs_Refinement\<close>.
\<close>

text \<open>
  A relation between the client before and after: reflexive and transitive, kept by whatever
  leaves the output alone, and kept by a message of a kind that is \<open>said\<close>, which must include
  every message an action can send. All operations of a context then keep it, if what other
  tasks do meanwhile does.
\<close>

definition log_ok :: "log_record \<Rightarrow> bool" where
  "log_ok r \<longleftrightarrow>
     is_some_and (log_timestamp r) valid_timestamp \<and>
     log_level_field r \<noteq> log_level_i32 LogUnspecified \<and> log_target r \<noteq> [] \<and>
     validate_fields (log_fields r) = Inr ()"

locale action_conduct =
  fixes parse_uuid :: uuid_parser
    and keeps :: "host_client \<Rightarrow> host_client \<Rightarrow> bool"
    and said :: "host_client \<Rightarrow> payload \<Rightarrow> bool"
  assumes keeps_trans: "keeps h h' \<Longrightarrow> keeps h' h'' \<Longrightarrow> keeps h h''"
    and keeps_silent: "client_step h h' \<Longrightarrow> client_wire h' = client_wire h \<Longrightarrow> keeps h h'"
    and keeps_said: "client_step h h' \<Longrightarrow>
      client_wire h' = client_wire h @ [seal_envelope (client_identity h) mid reply trace payload] \<Longrightarrow>
      said h payload \<Longrightarrow> keeps h h'"
    and said_call: "validate_call c (hc_session_id h) = Inr (kind_of_call c) \<Longrightarrow>
      said h (PHostCall \<lparr>hcr_call = Some c\<rparr>)"
    and said_log: "log_ok r \<Longrightarrow> said h (PLog r)"
    and said_start: "is_ok (validate_descriptor parse_uuid d) \<Longrightarrow>
      said h (PArtifactStart \<lparr>ats_job_id = Some jid, ats_artifact = Some d, ats_chunk_count = n\<rparr>)"
    and said_chunk: "said h (chunk_message aid index data)"
    and said_complete: "said h (PArtifactComplete \<lparr>atc_artifact_id = Some aid\<rparr>)"
begin

definition kept_await :: "await_env \<Rightarrow> bool" where
  "kept_await env \<longleftrightarrow> (\<forall>mid h. keeps h (snd (ae_world env mid h)))"

definition kept_store :: "store_env \<Rightarrow> bool" where
  "kept_store env \<longleftrightarrow> kept_await (se_start env) \<and> kept_await (se_complete env) \<and>
     (\<forall>i h. keeps h (ce_world (se_chunks env i) h))"

lemma keeps_refl: "keeps h h"
  by (rule keeps_silent) simp_all

lemma select_request_keeps:
  assumes "select_request trace payload env hc = (result, hc')" and "kept_await env" and "said hc payload"
  shows "keeps hc hc'"
  using assms(1)
proof (cases rule: select_request_cases)
  case (unsent e)
  then show ?thesis by (intro keeps_silent)
next
  case (sent hc1 guard)
  have "keeps hc hc1" using begin_request_step [OF sent(1)] sent(2) assms(3) by (rule keeps_said)
  moreover have "keeps hc1 hc'" using assms(2) sent(3) by (simp add: kept_await_def)
  ultimately show ?thesis by (rule keeps_trans)
qed

lemma context_request_keeps:
  assumes "context_request ctx payload env hc = (result, hc')" and "kept_await env" and "said hc payload"
  shows "keeps hc hc'"
proof (cases "ensure_active (ae_word env)")
  case (Inl e)
  with assms(1) keeps_refl show ?thesis by (auto simp: context_request_def)
next
  case (Inr u)
  with assms show ?thesis by (intro select_request_keeps) (simp_all add: context_request_def)
qed

lemma select_send_keeps:
  assumes "select_send trace payload fate hc = (result, hc')" and "said hc payload"
  shows "keeps hc hc'"
  using assms(1)
  by (cases rule: select_send_cases) (auto intro: keeps_silent keeps_said [OF _ _ assms(2)])

lemma host_call_keeps:
  assumes "host_call ctx c env hc = (result, hc')" and "kept_await env"
  shows "keeps hc hc'"
  using assms(1)
proof (cases rule: host_call_cases)
  case (refused e)
  with keeps_refl show ?thesis by simp
next
  case (requested answer)
  from requested(3) assms(2) show ?thesis
    by (rule select_request_keeps) (use requested(2) in \<open>simp add: host_call_allowed_def said_call\<close>)
qed

lemma log_keeps:
  assumes "log ctx level target message attributes now word fate hc = (result, hc')"
  shows "keeps hc hc'"
proof (cases "ensure_active word = Inr () \<and> level \<noteq> LogUnspecified \<and> target \<noteq> [] \<and>
    validate_fields attributes = Inr () \<and> valid_timestamp now")
  case True
  let ?entry = "\<lparr>log_timestamp = Some now, log_level_field = log_level_i32 level,
    log_target = target, log_message = message, log_fields = attributes\<rparr>"
  from True have "log_ok ?entry" by (cases level) (simp_all add: log_ok_def is_some_and_def)
  then have "said hc (PLog ?entry)" by (rule said_log)
  moreover have "select_send (ac_trace ctx) (PLog ?entry) fate hc = (result, hc')"
    using assms True by (simp add: log_def system_timestamp_def)
  ultimately show ?thesis by (rule select_send_keeps [rotated])
next
  case False
  then have "hc' = hc"
    using assms
    by (cases "ensure_active word"; cases "validate_fields attributes")
      (auto simp: log_def system_timestamp_def split: if_splits)
  then show ?thesis by (simp add: keeps_refl)
qed

lemma transfer_chunks_keeps:
  assumes "transfer_chunks src ctx aid c env index n remaining hc source = (r, hc', source')"
    and "\<And>i h. keeps h (ce_world (env i) h)"
  shows "keeps hc hc'"
  using assms(1)
proof (induction n arbitrary: index remaining hc source)
  case 0
  then show ?case by (simp add: keeps_refl)
next
  case (Suc n)
  note eq = Suc.prems [unfolded transfer_chunks_Suc]
  let ?len = "unat (min remaining c)" and ?w = "ce_world (env index) hc"
  obtain q source1 where read: "read_chunk src (ce_read_cancelled (env index)) ?len source = (q, source1)"
    by (cases "read_chunk src (ce_read_cancelled (env index)) ?len source")
  show ?case
  proof (cases "ensure_active (ce_word (env index)) = Inr () \<and> (\<exists>data. q = Inr data)")
    case False
    with eq read keeps_refl show ?thesis
      by (cases "ensure_active (ce_word (env index))"; cases q) auto
  next
    case True
    then obtain data where data: "q = Inr data" "ensure_active (ce_word (env index)) = Inr ()" by blast
    obtain r1 hc1 where send: "select_send (ac_trace ctx) (chunk_message aid index data)
        (ce_fate (env index)) ?w = (r1, hc1)"
      by (cases "select_send (ac_trace ctx) (chunk_message aid index data) (ce_fate (env index)) ?w")
    from assms(2) select_send_keeps [OF send said_chunk] have first: "keeps hc hc1" by (rule keeps_trans)
    show ?thesis
    proof (cases r1)
      case (Inl e)
      with eq read data send first show ?thesis by auto
    next
      case (Inr u)
      with eq read data send have "transfer_chunks src ctx aid c env (Suc index) n
          (remaining - min remaining c) hc1 source1 = (r, hc', source')" by simp
      from keeps_trans [OF first Suc.IH [OF this]] show ?thesis .
    qed
  qed
qed

lemma transfer_artifact_keeps:
  assumes "transfer_artifact src ctx d aid env hc source = (r, hc', source')" and "kept_store env"
    and "is_ok (validate_descriptor parse_uuid d)"
  shows "keeps hc hc'"
proof (cases "artifact_plan (art_size_bytes d) (hc_maximum_artifact_chunk_bytes hc)")
  case (Inl e)
  with assms(1) keeps_refl show ?thesis by (simp add: transfer_artifact_def)
next
  case (Inr plan)
  define first where "first = PArtifactStart \<lparr>ats_job_id = Some (PluginJobId (ac_job_id ctx)),
    ats_artifact = Some d, ats_chunk_count = ap_chunk_count plan\<rparr>"
  note env = assms(2) [unfolded kept_store_def]
  obtain r1 hc1 where start: "context_request ctx first (se_start env) hc = (r1, hc1)"
    by (cases "context_request ctx first (se_start env) hc")
  have k1: "keeps hc hc1"
    using start by (rule context_request_keeps) (use env said_start [OF assms(3)] in \<open>simp_all add: first_def\<close>)
  note eq = assms(1) [unfolded transfer_artifact_def Inr sum.case, folded first_def,
      unfolded start prod.case]
  show ?thesis
  proof (cases "\<exists>started. r1 = Inr started \<and> accepts_transfer aid started")
    case False
    with eq k1 show ?thesis by (cases r1) auto
  next
    case True
    then obtain started where r1: "r1 = Inr started" "accepts_transfer aid started" by blast
    obtain r2 hc2 source2 where loop: "transfer_chunks src ctx aid (ap_chunk_bytes plan) (se_chunks env) 0
        (unat (ap_chunk_count plan)) (art_size_bytes d) hc1 source = (r2, hc2, source2)"
      by (cases "transfer_chunks src ctx aid (ap_chunk_bytes plan) (se_chunks env) 0
        (unat (ap_chunk_count plan)) (art_size_bytes d) hc1 source")
    have k2: "keeps hc hc2" using keeps_trans [OF k1 transfer_chunks_keeps [OF loop]] env by simp
    show ?thesis
    proof (cases r2)
      case (Inl e)
      with eq r1 loop k2 show ?thesis by simp
    next
      case (Inr u)
      obtain r3 hc3 where complete:
        "context_request ctx (PArtifactComplete \<lparr>atc_artifact_id = Some aid\<rparr>) (se_complete env) hc2 = (r3, hc3)"
        by (cases "context_request ctx (PArtifactComplete \<lparr>atc_artifact_id = Some aid\<rparr>) (se_complete env) hc2")
      have "keeps hc2 hc3"
        using complete by (rule context_request_keeps) (use env said_complete in simp_all)
      with keeps_trans [OF k2 this] eq r1 loop Inr complete show ?thesis
        by (cases r3) auto
    qed
  qed
qed

lemma store_artifact_keeps:
  assumes "store_artifact parse_uuid sha src ctx d env hc source = Some (r, hc', source')"
    and "kept_store env"
  shows "keeps hc hc'"
proof -
  from assms(1) have "hc' = hc \<or> is_ok (validate_descriptor parse_uuid d) \<and> (\<exists>aid source1.
      transfer_artifact src ctx d aid env hc source1 = (r, hc', source'))"
    by (auto simp: store_artifact_def is_ok_def and_then_def
        split: sum.splits option.splits prod.splits)
  with transfer_artifact_keeps [OF _ assms(2)] keeps_refl show ?thesis by auto
qed

end

section \<open>Actions do not speak for the job manager\<close>

definition peaceful :: "await_env \<Rightarrow> bool" where
  "peaceful env \<longleftrightarrow> (\<forall>mid h. emits [] h (snd (ae_world env mid h)))"

definition peaceful_store :: "store_env \<Rightarrow> bool" where
  "peaceful_store env \<longleftrightarrow>
     peaceful (se_start env) \<and> peaceful (se_complete env) \<and>
     (\<forall>i h. emits [] h (ce_world (se_chunks env i) h))"

text \<open>The payloads of an action: calls, logs and artifact transfers.\<close>

fun task_payload :: "payload \<Rightarrow> bool" where
  "task_payload (PHostCall _) \<longleftrightarrow> True"
| "task_payload (PLog _) \<longleftrightarrow> True"
| "task_payload (PArtifactStart _) \<longleftrightarrow> True"
| "task_payload (PArtifactChunk _) \<longleftrightarrow> True"
| "task_payload (PArtifactComplete _) \<longleftrightarrow> True"
| "task_payload _ \<longleftrightarrow> False"

lemma task_payload_output:
  "task_payload payload \<Longrightarrow> output_of (seal_envelope s mid reply trace payload) = []"
  by (cases payload) (simp_all add: output_of.simps seal_envelope_def)

interpretation conduct: action_conduct parse_uuid "emits []" "\<lambda>_. task_payload" for parse_uuid
proof unfold_locales
  show "emits [] h h' \<Longrightarrow> emits [] h' h'' \<Longrightarrow> emits [] h h''" for h h' h''
    using emits_trans [of "[]" h h' "[]" h''] by simp
  show "client_step h h' \<Longrightarrow> client_wire h' = client_wire h \<Longrightarrow> emits [] h h'" for h h'
    by (auto simp: emits_def)
  show "client_step h h' \<Longrightarrow>
      client_wire h' = client_wire h @ [seal_envelope (client_identity h) mid reply trace payload] \<Longrightarrow>
      task_payload payload \<Longrightarrow> emits [] h h'" for h h' mid reply trace payload
    by (auto simp: emits_def task_payload_output)
qed (simp_all add: chunk_message_def)

lemma peaceful_kept: "conduct.kept_await env \<longleftrightarrow> peaceful env"
  "conduct.kept_store senv \<longleftrightarrow> peaceful_store senv"
  by (simp_all add: conduct.kept_await_def conduct.kept_store_def peaceful_def peaceful_store_def)

lemmas host_call_emits = conduct.host_call_keeps [unfolded peaceful_kept]
lemmas log_emits = conduct.log_keeps
lemmas store_artifact_emits = conduct.store_artifact_keeps [unfolded peaceful_kept]

text \<open>An artifact handed back to the action names its job, and has an ID.\<close>

lemma store_artifact_identified:
  assumes "store_artifact p sha src ctx d env hc source = Some (Inr stored, hc', source')"
  shows "sa_job_id stored = ac_job_id ctx \<and> sa_descriptor stored = d \<and> art_artifact_id d \<noteq> None"
proof -
  from assms obtain aid where "validate_descriptor p d = Inr aid"
    by (auto simp: store_artifact_def result_simps split: sum.splits)
  then have "art_artifact_id d \<noteq> None" by (simp add: validate_descriptor_Inr_iff)
  moreover have "sa_job_id stored = ac_job_id ctx \<and> sa_descriptor stored = d"
    using assms
    by (auto simp: store_artifact_def transfer_artifact_def
        split: sum.splits option.splits prod.splits if_splits)
  ultimately show ?thesis by blast
qed

end
