(* ===== verification/Outgoing.thy ===== *)
theory Outgoing
  imports Host_Client
begin

text \<open>
  The interleaved execution of \<open>SessionSender::enqueue\<close>. Any number of tasks call it; each
  awaits the sender's lock, allocates and registers under it, awaits room in the channel
  of \<open>og_capacity\<close> slots, and may be dropped at either await. The request stream
  takes envelopes out of the channel, and the host answers those it has been given. The
  channel is the part of the wire that has not been taken yet. The theory shows that all
  of this is indistinguishable from the atomic \<^const>\<open>enqueue\<close> and \<^const>\<open>abandon_enqueue\<close>.
\<close>

definition OUTGOING_CAPACITY :: nat where
  "OUTGOING_CAPACITY = 256"

section \<open>State and steps\<close>

text \<open>A message on its way; \<open>om_response\<close> is the one-shot of a request, none for a send.\<close>

record outgoing_message =
  om_reply :: "u64 option"
  om_trace :: trace_context
  om_payload :: payload
  om_response :: "nat option"

type_synonym registration = "(nat \<times> pending_guard) option"

definition register_for ::
  "outgoing_message \<Rightarrow> u64 \<Rightarrow> pending_table \<Rightarrow> (registration \<times> pending_table) sdk_result" where
  "register_for m mid p =
     (case om_response m of
        None \<Rightarrow> Inr (None, p)
      | Some response \<Rightarrow>
          and_then (register_request (om_trace m) response mid p)
            (\<lambda>(registered, p1). Inr (Some registered, p1)))"

definition release_for :: "registration \<Rightarrow> pending_table \<Rightarrow> pending_table" where
  "release_for reg p = (case reg of None \<Rightarrow> p | Some registered \<Rightarrow> release_registered registered p)"

datatype enqueue_pc =
  NotSending | AwaitingLock outgoing_message | AwaitingRoom outgoing_message u64 registration

record outgoing_state =
  og_capacity :: nat
  og_sender :: session_sender
  og_taken :: nat
  og_lock :: "nat option"
  og_tasks :: "nat \<Rightarrow> enqueue_pc"
  og_pending :: pending_table

definition backlog :: "outgoing_state \<Rightarrow> nat" where
  "backlog c = length (ss_wire (og_sender c)) - og_taken c"

definition outbound :: "session_sender \<Rightarrow> outgoing_message \<Rightarrow> u64 \<Rightarrow> outbound_envelope" where
  "outbound s m mid =
     \<lparr>oe_envelope = seal_envelope (ss_identity s) mid (om_reply m) (om_trace m) (om_payload m),
      oe_consumed = None\<rparr>"

datatype outgoing_label =
  Call nat | Acquire nat | Refuse nat | Push nat | PushFails nat | DropWaiting nat | DropReserved nat
| Take | Answer u64 | CloseStream

inductive outgoing_step :: "outgoing_state \<Rightarrow> outgoing_label \<Rightarrow> outgoing_state \<Rightarrow> bool" where
  call_enqueue:
    "og_tasks c i = NotSending \<Longrightarrow>
     outgoing_step c (Call i) (c\<lparr>og_tasks := (og_tasks c)(i := AwaitingLock m)\<rparr>)"
| acquire:
    "og_tasks c i = AwaitingLock m \<Longrightarrow> og_lock c = None \<Longrightarrow>
     reserve (register_for m) (og_sender c, og_pending c) = (Inr (mid, reg), (s, p)) \<Longrightarrow>
     outgoing_step c (Acquire i)
       (c\<lparr>og_sender := s, og_pending := p, og_lock := Some i,
          og_tasks := (og_tasks c)(i := AwaitingRoom m mid reg)\<rparr>)"
| refuse:
    "og_tasks c i = AwaitingLock m \<Longrightarrow> og_lock c = None \<Longrightarrow>
     reserve (register_for m) (og_sender c, og_pending c) = (Inl e, (s, p)) \<Longrightarrow>
     outgoing_step c (Refuse i)
       (c\<lparr>og_sender := s, og_pending := p, og_tasks := (og_tasks c)(i := NotSending)\<rparr>)"
| push:
    "og_tasks c i = AwaitingRoom m mid reg \<Longrightarrow> \<not> ss_closed (og_sender c) \<Longrightarrow>
     backlog c < og_capacity c \<Longrightarrow>
     outgoing_step c (Push i)
       (c\<lparr>og_sender := (og_sender c)\<lparr>ss_wire := ss_wire (og_sender c) @ [outbound (og_sender c) m mid]\<rparr>,
          og_lock := None, og_tasks := (og_tasks c)(i := NotSending)\<rparr>)"
| push_fails:
    "og_tasks c i = AwaitingRoom m mid reg \<Longrightarrow> ss_closed (og_sender c) \<Longrightarrow>
     outgoing_step c (PushFails i)
       (c\<lparr>og_pending := release_for reg (og_pending c),
          og_lock := None, og_tasks := (og_tasks c)(i := NotSending)\<rparr>)"
| drop_waiting:
    "og_tasks c i = AwaitingLock m \<Longrightarrow>
     outgoing_step c (DropWaiting i) (c\<lparr>og_tasks := (og_tasks c)(i := NotSending)\<rparr>)"
| drop_reserved:
    "og_tasks c i = AwaitingRoom m mid reg \<Longrightarrow>
     outgoing_step c (DropReserved i)
       (c\<lparr>og_pending := release_for reg (og_pending c),
          og_lock := None, og_tasks := (og_tasks c)(i := NotSending)\<rparr>)"
| take_out:
    "og_taken c < length (ss_wire (og_sender c)) \<Longrightarrow>
     outgoing_step c Take (c\<lparr>og_taken := Suc (og_taken c)\<rparr>)"
| answer:
    "mid \<in> set (take (og_taken c) (sent_ids (og_sender c))) \<Longrightarrow>
     outgoing_step c (Answer mid)
       (c\<lparr>og_pending := (og_pending c)\<lparr>pt_requests := hm_remove mid (pt_requests (og_pending c))\<rparr>\<rparr>)"
| close_stream:
    "outgoing_step c CloseStream (c\<lparr>og_sender := (og_sender c)\<lparr>ss_closed := True\<rparr>\<rparr>)"

inductive_cases outgoing_stepE: "outgoing_step c l d"

text \<open>\<open>mpsc::channel(capacity)\<close> and a sender on it; the session's has \<open>OUTGOING_CAPACITY\<close> slots.\<close>

definition new_outgoing :: "nat \<Rightarrow> session_identity \<Rightarrow> outgoing_state" where
  "new_outgoing capacity identity =
     \<lparr>og_capacity = capacity, og_sender = new_sender identity, og_taken = 0, og_lock = None,
      og_tasks = (\<lambda>_. NotSending),
      og_pending = \<lparr>pt_requests = hm_empty, pt_poisoned = False\<rparr>\<rparr>"

definition initial_outgoing :: "session_identity \<Rightarrow> outgoing_state" where
  "initial_outgoing identity = new_outgoing OUTGOING_CAPACITY identity"

lemma outgoing_step_capacity: "outgoing_step c l d \<Longrightarrow> og_capacity d = og_capacity c"
  by (erule outgoing_stepE) simp_all

lemma outgoing_run_capacity: "run outgoing_step c ls d \<Longrightarrow> og_capacity d = og_capacity c"
  by (induction rule: run.induct) (simp_all add: outgoing_step_capacity)

section \<open>The invariant\<close>

definition registered_for :: "outgoing_message \<Rightarrow> u64 \<Rightarrow> registration \<Rightarrow> pending_table \<Rightarrow> bool" where
  "registered_for m mid reg p \<longleftrightarrow>
     (case om_response m of
        None \<Rightarrow> reg = None \<and> hm_get (pt_requests p) mid = None
      | Some r \<Rightarrow>
          reg = Some (r, \<lparr>pg_message_id = mid, pg_sent = False\<rparr>) \<and> \<not> pt_poisoned p \<and>
          hm_get (pt_requests p) mid = Some \<lparr>pr_expected_trace = om_trace m, pr_response = r\<rparr>)"

definition not_reserved :: "enqueue_pc \<Rightarrow> bool" where
  "not_reserved pc \<longleftrightarrow> (\<forall>m mid reg. pc \<noteq> AwaitingRoom m mid reg)"

text \<open>The lock holder's part: its ID is the last one given out, and is not on the wire.\<close>

definition holder_ok :: "outgoing_state \<Rightarrow> nat \<Rightarrow> outgoing_message \<Rightarrow> u64 \<Rightarrow> registration \<Rightarrow> bool" where
  "holder_ok c i m mid reg \<longleftrightarrow>
     og_tasks c i = AwaitingRoom m mid reg \<and>
     checked_add mid 1 = Some (ss_next_message_id (og_sender c)) \<and>
     0 < mid \<and> (\<forall>k \<in> set (sent_ids (og_sender c)). k < mid) \<and>
     registered_for m mid reg (og_pending c)"

definition pending_on_wire :: "outgoing_state \<Rightarrow> u64 \<Rightarrow> bool" where
  "pending_on_wire c k \<longleftrightarrow>
     (\<forall>w. hm_get (pt_requests (og_pending c)) k = Some w \<longrightarrow> request_on_wire (og_sender c) k w)"

definition outgoing_inv :: "outgoing_state \<Rightarrow> bool" where
  "outgoing_inv c \<longleftrightarrow>
     sender_inv (og_sender c) \<and> og_taken c \<le> length (ss_wire (og_sender c)) \<and>
     backlog c \<le> og_capacity c \<and> hm_wf (pt_requests (og_pending c)) \<and>
     (\<forall>i. og_lock c \<noteq> Some i \<longrightarrow> not_reserved (og_tasks c i)) \<and>
     (case og_lock c of
        None \<Rightarrow> \<forall>k. pending_on_wire c k
      | Some i \<Rightarrow> \<exists>m mid reg. holder_ok c i m mid reg \<and> (\<forall>k. k \<noteq> mid \<longrightarrow> pending_on_wire c k))"

abbreviation table_get :: "pending_table \<Rightarrow> u64 \<Rightarrow> pending_response option" where
  "table_get p \<equiv> hm_get (pt_requests p)"

lemma register_for_InrD:
  assumes "register_for m mid p = Inr (reg, p')" and "table_get p mid = None"
  shows "registered_for m mid reg p'" and "k \<noteq> mid \<Longrightarrow> table_get p' k = table_get p k"
    and "hm_wf (pt_requests p) \<Longrightarrow> hm_wf (pt_requests p')" and "pt_poisoned p' = pt_poisoned p"
proof -
  have "registered_for m mid reg p' \<and> (k \<noteq> mid \<longrightarrow> table_get p' k = table_get p k) \<and>
      (hm_wf (pt_requests p) \<longrightarrow> hm_wf (pt_requests p')) \<and> pt_poisoned p' = pt_poisoned p"
  proof (cases "om_response m")
    case None
    with assms show ?thesis by (auto simp: register_for_def registered_for_def)
  next
    case (Some r)
    with assms(1) obtain g where "register_request (om_trace m) r mid p = Inr ((r, g), p')"
      "reg = Some (r, g)"
      by (auto simp: register_for_def and_then_Inr_iff dest: register_request_InrD(3))
    with register_request_InrD [OF this(1)] Some show ?thesis
      by (auto simp: registered_for_def hm.get_insert hm.wf_insert)
  qed
  then show "registered_for m mid reg p'" and "k \<noteq> mid \<Longrightarrow> table_get p' k = table_get p k"
    and "hm_wf (pt_requests p) \<Longrightarrow> hm_wf (pt_requests p')" and "pt_poisoned p' = pt_poisoned p"
    by blast+
qed

lemma release_for_registered:
  assumes "registered_for m mid reg p"
  shows "table_get (release_for reg p) = (table_get p)(mid := None)"
    and "hm_wf (pt_requests p) \<Longrightarrow> hm_wf (pt_requests (release_for reg p))"
    and "pt_poisoned (release_for reg p) = pt_poisoned p"
  using assms
  by (auto simp: registered_for_def release_for_def release_registered_def drop_guard_def
      hm.get_remove hm.wf_remove fun_upd_idem split: option.splits)

lemma reserved_holder:
  assumes "outgoing_inv c" and "og_tasks c i = AwaitingRoom m mid reg"
  shows "og_lock c = Some i" and "holder_ok c i m mid reg" and "k \<noteq> mid \<Longrightarrow> pending_on_wire c k"
proof -
  show lock: "og_lock c = Some i"
    using assms by (auto simp: outgoing_inv_def not_reserved_def)
  with assms obtain m' mid' reg' where "holder_ok c i m' mid' reg'"
    "\<forall>k. k \<noteq> mid' \<longrightarrow> pending_on_wire c k" by (auto simp: outgoing_inv_def)
  then show "holder_ok c i m mid reg" and "k \<noteq> mid \<Longrightarrow> pending_on_wire c k"
    using assms(2) by (auto simp: holder_ok_def)
qed

lemma pending_on_wire_ids:
  "pending_on_wire c k \<Longrightarrow> table_get (og_pending c) k = Some w \<Longrightarrow> k \<in> set (sent_ids (og_sender c))"
  by (auto simp: pending_on_wire_def request_on_wire_def sent_ids_def)

lemma next_id_free:
  assumes "outgoing_inv c" and "og_lock c = None"
  shows "table_get (og_pending c) (ss_next_message_id (og_sender c)) = None"
proof -
  have "\<forall>k \<in> set (sent_ids (og_sender c)). k < ss_next_message_id (og_sender c)"
    and "pending_on_wire c (ss_next_message_id (og_sender c))"
    using assms by (auto simp: outgoing_inv_def sender_inv_def)
  with pending_on_wire_ids [OF this(2)] show ?thesis
    by (metis less_irrefl option.exhaust)
qed

lemma reserve_request_on_wire:
  "request_on_wire (s\<lparr>ss_next_message_id := n\<rparr>) k w \<longleftrightarrow> request_on_wire s k w"
  "request_on_wire (s\<lparr>ss_closed := b\<rparr>) k w \<longleftrightarrow> request_on_wire s k w"
  by (simp_all add: request_on_wire_def wire_envelopes_def)

lemma acquire_inv:
  assumes "outgoing_inv c" and "og_tasks c i = AwaitingLock m" and "og_lock c = None"
    and "reserve (register_for m) (og_sender c, og_pending c) = (Inr (mid, reg), (s, p))"
  shows "outgoing_inv (c\<lparr>og_sender := s, og_pending := p, og_lock := Some i,
    og_tasks := (og_tasks c)(i := AwaitingRoom m mid reg)\<rparr>)"
  using assms(4)
proof (cases rule: reserve_cases)
  case (reserved t)
  let ?s = "og_sender c"
  have mid: "mid = ss_next_message_id ?s" and t: "t = reg" using reserved(1) by auto
  note s = reserved(4) and next_id = reserved(2) [unfolded not_exhausted_next]
  note registered = register_for_InrD [OF reserved(3) [unfolded t] next_id_free [OF assms(1,3)]]
  have inv: "sender_inv ?s" "hm_wf (pt_requests (og_pending c))" "\<forall>k. pending_on_wire c k"
    using assms(1,3) by (auto simp: outgoing_inv_def)
  have ids: "sent_ids s = sent_ids ?s" "wire_envelopes s = wire_envelopes ?s"
    by (simp_all add: s sent_ids_def wire_envelopes_def)
  have "sender_inv s" using skip_id_inv [OF reserved(2) inv(1)] by (simp add: s)
  moreover have "holder_ok (c\<lparr>og_sender := s, og_pending := p, og_lock := Some i,
      og_tasks := (og_tasks c)(i := AwaitingRoom m mid reg)\<rparr>) i m mid reg"
    using next_id inv(1) registered(1) ids(1)
    by (simp add: holder_ok_def mid s sender_inv_def)
  moreover have "pending_on_wire (c\<lparr>og_sender := s, og_pending := p, og_lock := Some i,
      og_tasks := (og_tasks c)(i := AwaitingRoom m mid reg)\<rparr>) k" if "k \<noteq> mid" for k
    using inv(3) registered(2) [of k] that
    by (simp add: pending_on_wire_def mid s reserve_request_on_wire)
  ultimately show ?thesis
    using assms(1,3) registered(3) inv(2)
    by (auto simp: outgoing_inv_def backlog_def s)
qed auto

lemma push_inv:
  assumes "outgoing_inv c" and "og_tasks c i = AwaitingRoom m mid reg"
    and "backlog c < og_capacity c"
  shows "outgoing_inv (c\<lparr>og_sender := (og_sender c)\<lparr>ss_wire := ss_wire (og_sender c) @ [outbound (og_sender c) m mid]\<rparr>,
          og_lock := None, og_tasks := (og_tasks c)(i := NotSending)\<rparr>)" (is "outgoing_inv ?d")
proof -
  note holder = reserved_holder [OF assms(1,2)]
  let ?s = "og_sender c"
  let ?t = "?s\<lparr>ss_wire := ss_wire ?s @ [outbound ?s m mid]\<rparr>"
  have inv: "sender_inv ?s" "og_taken c \<le> length (ss_wire ?s)" using assms(1) by (auto simp: outgoing_inv_def)
  have wire: "wire_envelopes ?t = wire_envelopes ?s @
      [seal_envelope (ss_identity ?s) mid (om_reply m) (om_trace m) (om_payload m)]"
    by (simp add: wire_envelopes_def outbound_def)
  have mid: "mid < ss_next_message_id ?s" "0 < mid" "\<forall>k \<in> set (sent_ids ?s). k < mid"
    using holder(2) checked_add_one_less by (auto simp: holder_ok_def)
  have "sender_inv ?t"
    using inv(1) mid unfolding sender_inv_def sent_ids_def wire
    by (auto simp: seal_envelope_def sorted_wrt_append)
  moreover have "pending_on_wire ?d k" for k
  proof (cases "k = mid")
    case True
    with holder(2) show ?thesis
      by (auto simp: pending_on_wire_def request_on_wire_def wire seal_envelope_def holder_ok_def
          registered_for_def split: option.splits)
  next
    case False
    with holder(3) show ?thesis by (auto simp: pending_on_wire_def request_on_wire_def wire)
  qed
  ultimately show ?thesis
    using assms(1,3) holder(1) inv(2) by (auto simp: outgoing_inv_def backlog_def not_reserved_def)
qed

lemma release_inv:
  assumes "outgoing_inv c" and "og_tasks c i = AwaitingRoom m mid reg"
  shows "outgoing_inv (c\<lparr>og_pending := release_for reg (og_pending c),
    og_lock := None, og_tasks := (og_tasks c)(i := NotSending)\<rparr>)"
proof -
  note holder = reserved_holder [OF assms]
  then have reg: "registered_for m mid reg (og_pending c)" by (simp add: holder_ok_def)
  note release = release_for_registered [OF reg]
  have "pending_on_wire (c\<lparr>og_pending := release_for reg (og_pending c),
      og_lock := None, og_tasks := (og_tasks c)(i := NotSending)\<rparr>) k" for k
    using holder(3) [of k] by (auto simp: pending_on_wire_def release(1))
  with assms(1) holder(1) release(2) show ?thesis
    by (auto simp: outgoing_inv_def backlog_def not_reserved_def)
qed

lemma outgoing_step_inv:
  assumes "outgoing_step c l d" and "outgoing_inv c"
  shows "outgoing_inv d"
  using assms(1)
proof cases
  case (call_enqueue i m)
  with assms(2) show ?thesis
    by (auto simp: outgoing_inv_def not_reserved_def holder_ok_def pending_on_wire_def backlog_def
        split: option.splits)
next
  case (acquire i m mid reg s p)
  with acquire_inv assms(2) show ?thesis by simp
next
  case (refuse i m e s p)
  from refuse(5) assms(2) refuse(4) show ?thesis
    by (cases rule: reserve_cases)
      (auto simp: refuse(2) outgoing_inv_def not_reserved_def pending_on_wire_def backlog_def
        reserve_request_on_wire skip_id_inv)
next
  case (push i m mid reg)
  with push_inv assms(2) show ?thesis by simp
next
  case (push_fails i m mid reg)
  with release_inv assms(2) show ?thesis by simp
next
  case (drop_waiting i m)
  with assms(2) show ?thesis
    by (auto simp: outgoing_inv_def not_reserved_def holder_ok_def pending_on_wire_def backlog_def
        split: option.splits)
next
  case (drop_reserved i m mid reg)
  with release_inv assms(2) show ?thesis by simp
next
  case take_out
  with assms(2) show ?thesis
    by (auto simp: outgoing_inv_def holder_ok_def pending_on_wire_def backlog_def split: option.splits)
next
  case (answer mid)
  have "mid \<in> set (sent_ids (og_sender c))" using answer(3) by (meson in_set_takeD)
  then have holder: "holder_ok c i m k reg \<Longrightarrow> holder_ok d i m k reg" for i m k reg
    by (auto simp: answer(2) holder_ok_def registered_for_def hm.get_remove split: option.splits)
  have wire: "pending_on_wire c k \<Longrightarrow> pending_on_wire d k" for k
    by (auto simp: answer(2) pending_on_wire_def hm.get_remove)
  have same: "og_lock d = og_lock c" "og_tasks d = og_tasks c" "og_sender d = og_sender c"
    "og_taken d = og_taken c" "backlog d = backlog c" "og_capacity d = og_capacity c"
    by (simp_all add: answer(2) backlog_def)
  have "hm_wf (pt_requests (og_pending d)) \<longleftrightarrow> True"
    using assms(2) by (simp add: answer(2) outgoing_inv_def hm.wf_remove)
  with assms(2) show ?thesis
    unfolding outgoing_inv_def same
    by (auto split: option.splits dest: holder intro: wire) (metis holder wire)
next
  case close_stream
  with assms(2) show ?thesis
    by (auto simp: outgoing_inv_def holder_ok_def pending_on_wire_def backlog_def sender_inv_def
        sent_ids_def wire_envelopes_def reserve_request_on_wire split: option.splits)
qed

interpretation outgoing:
  invariant_system "\<lambda>c. \<exists>capacity identity. c = new_outgoing capacity identity" outgoing_step outgoing_inv
proof unfold_locales
  show "outgoing_inv c" if "\<exists>capacity identity. c = new_outgoing capacity identity" for c
    using that new_sender_inv
    by (auto simp: outgoing_inv_def new_outgoing_def backlog_def not_reserved_def
        pending_on_wire_def hm.map_laws new_sender_def)
  show "outgoing_step c l d \<Longrightarrow> outgoing_inv c \<Longrightarrow> outgoing_inv d" for c l d
    by (rule outgoing_step_inv)
qed

section \<open>Every interleaving is one of atomic enqueues\<close>

text \<open>
  What the rest of the model sees of an interleaved state: the reservation of the lock
  holder has not happened yet.
\<close>

definition abs_outgoing :: "outgoing_state \<Rightarrow> session_sender \<times> pending_table" where
  "abs_outgoing c =
     (case og_lock c of
        None \<Rightarrow> (og_sender c, og_pending c)
      | Some i \<Rightarrow>
          (case og_tasks c i of
             AwaitingRoom m mid reg \<Rightarrow>
               ((og_sender c)\<lparr>ss_next_message_id := mid\<rparr>, release_for reg (og_pending c))
           | _ \<Rightarrow> (og_sender c, og_pending c)))"

definition table_eq :: "pending_table \<Rightarrow> pending_table \<Rightarrow> bool" where
  "table_eq p q \<longleftrightarrow> table_get p = table_get q \<and> pt_poisoned p = pt_poisoned q"

definition matches :: "outgoing_state \<Rightarrow> session_sender \<times> pending_table \<Rightarrow> bool" where
  "matches c a \<longleftrightarrow> fst a = fst (abs_outgoing c) \<and> table_eq (snd a) (snd (abs_outgoing c))"

abbreviation atomic_enqueue ::
  "outgoing_message \<Rightarrow> session_sender \<times> pending_table \<Rightarrow>
   (u64 \<times> registration) sdk_result \<times> (session_sender \<times> pending_table)" where
  "atomic_enqueue m \<equiv>
     enqueue (om_reply m) (om_trace m) (om_payload m) None (register_for m) release_for"

inductive atomic_step ::
  "session_sender \<times> pending_table \<Rightarrow> outgoing_label \<Rightarrow> session_sender \<times> pending_table \<Rightarrow> bool" where
  atomic_push: "atomic_enqueue m a = (Inr r, a') \<Longrightarrow> atomic_step a (Push i) a'"
| atomic_push_fails: "atomic_enqueue m a = (Inl e, a') \<Longrightarrow> atomic_step a (PushFails i) a'"
| atomic_refuse: "atomic_enqueue m a = (Inl e, a') \<Longrightarrow> atomic_step a (Refuse i) a'"
| atomic_drop: "abandon_enqueue (register_for m) release_for a = (r, a') \<Longrightarrow>
    atomic_step a (DropReserved i) a'"
| atomic_answer: "atomic_step (s, p) (Answer mid)
    (s, p\<lparr>pt_requests := hm_remove mid (pt_requests p)\<rparr>)"
| atomic_close: "atomic_step (s, p) CloseStream (s\<lparr>ss_closed := True\<rparr>, p)"
| atomic_call: "atomic_step a (Call i) a"
| atomic_acquire: "atomic_step a (Acquire i) a"
| atomic_drop_waiting: "atomic_step a (DropWaiting i) a"
| atomic_take: "atomic_step a Take a"

lemma register_for_again:
  assumes "registered_for m mid reg q" and "table_eq p (release_for reg q)"
  obtains p' where "register_for m mid p = Inr (reg, p')" "table_eq p' q"
    "table_eq (release_for reg p') (release_for reg q)"
proof -
  note release = release_for_registered [OF assms(1)]
  have get: "table_get p = (table_get q)(mid := None)" and poison: "pt_poisoned p = pt_poisoned q"
    using assms(2) release by (simp_all add: table_eq_def)
  have "\<exists>p'. register_for m mid p = Inr (reg, p') \<and> table_eq p' q"
  proof (cases "om_response m")
    case None
    with assms(1) get poison show ?thesis
      by (auto simp: register_for_def registered_for_def table_eq_def fun_upd_idem)
  next
    case (Some r)
    with assms(1) get poison show ?thesis
      by (auto simp: register_for_def register_request_def registered_for_def table_eq_def
          hm_contains_key_def hm.get_insert fun_upd_idem)
  qed
  then obtain p' where p': "register_for m mid p = Inr (reg, p')" "table_eq p' q" by blast
  have "table_get p mid = None" by (simp add: get)
  from register_for_InrD(1) [OF p'(1) this] have "registered_for m mid reg p'" .
  from release_for_registered [OF this] release p'(2)
  have "table_eq (release_for reg p') (release_for reg q)" by (simp add: table_eq_def)
  with p' that show thesis by blast
qed

lemma register_for_Inl:
  "register_for m mid p = Inl e \<Longrightarrow> table_eq q p \<Longrightarrow> register_for m mid q = Inl e"
  by (auto simp: register_for_def register_request_def table_eq_def hm_contains_key_def
      and_then_Inl_iff split: option.splits if_splits)

lemma abs_outgoing_holder:
  assumes "outgoing_inv c" and "og_tasks c i = AwaitingRoom m mid reg"
  shows "abs_outgoing c =
    ((og_sender c)\<lparr>ss_next_message_id := mid\<rparr>, release_for reg (og_pending c))"
  using reserved_holder(1) [OF assms] assms(2) by (simp add: abs_outgoing_def)

lemma lock_holder:
  "outgoing_inv c \<Longrightarrow> og_lock c = Some i \<Longrightarrow> \<exists>m mid reg. og_tasks c i = AwaitingRoom m mid reg"
  by (auto simp: outgoing_inv_def holder_ok_def)

lemma abs_outgoing_frame:
  assumes "og_lock d = og_lock c" and "og_sender d = og_sender c" and "og_pending d = og_pending c"
    and "\<And>i. og_lock c = Some i \<Longrightarrow> og_tasks d i = og_tasks c i"
  shows "abs_outgoing d = abs_outgoing c"
  using assms by (cases "og_lock c") (simp_all add: abs_outgoing_def cong: enqueue_pc.case_cong)

text \<open>The reservation an atomic enqueue makes is the one the lock holder has made.\<close>

lemma reserve_again:
  assumes "outgoing_inv c" and "og_tasks c i = AwaitingRoom m mid reg" and "matches c (s, p)"
  obtains p' where "reserve (register_for m) (s, p) = (Inr (mid, reg), (og_sender c, p'))"
    "table_eq p' (og_pending c)" "table_eq (release_for reg p') (release_for reg (og_pending c))"
proof -
  note holder = reserved_holder(2) [OF assms(1,2)]
  from assms(3) have s: "s = (og_sender c)\<lparr>ss_next_message_id := mid\<rparr>"
    and p: "table_eq p (release_for reg (og_pending c))"
    by (simp_all add: matches_def abs_outgoing_holder [OF assms(1,2)])
  from holder have "registered_for m mid reg (og_pending c)" by (simp add: holder_ok_def)
  then obtain p' where p': "register_for m mid p = Inr (reg, p')" "table_eq p' (og_pending c)"
    "table_eq (release_for reg p') (release_for reg (og_pending c))"
    using p by (rule register_for_again)
  have "reserve (register_for m) (s, p) = (Inr (mid, reg), (og_sender c, p'))"
    using holder p'(1) by (simp add: reserve_def s holder_ok_def Let_def)
  with p' that show thesis by blast
qed

lemma outgoing_step_simulated:
  assumes "outgoing_step c l d" and "outgoing_inv c" and "matches c a"
  shows "\<exists>a'. atomic_step a l a' \<and> matches d a'"
proof -
  obtain s p where a: "a = (s, p)" by (cases a)
  from assms(1) show ?thesis
  proof cases
    case (call_enqueue i m)
    then have "abs_outgoing d = abs_outgoing c"
      using lock_holder [OF assms(2)] by (intro abs_outgoing_frame) auto
    with assms(3) have "matches d a" by (simp add: matches_def)
    with call_enqueue(1) show ?thesis by (blast intro: atomic_step.intros)
  next
    case (acquire i m mid reg s' p')
    note inv = outgoing_step_inv [OF assms(1,2)]
    have task: "og_tasks d i = AwaitingRoom m mid reg" by (simp add: acquire(2))
    from acquire(5) have "og_sender c = s'\<lparr>ss_next_message_id := mid\<rparr>"
      and registered: "register_for m mid (og_pending c) = Inr (reg, p')"
      by (auto elim!: reserve_cases)
    moreover have "table_get (og_pending c) mid = None"
      using next_id_free [OF assms(2) acquire(4)] acquire(5) by (auto elim!: reserve_cases)
    note free = this and reg = register_for_InrD [OF registered this]
    have "table_eq (og_pending c) (release_for reg p')"
      using release_for_registered [OF reg(1)] reg(2,4) free by (auto simp: table_eq_def fun_eq_iff)
    ultimately have "matches d a"
      using assms(3) acquire(4) abs_outgoing_holder [OF inv task]
      by (simp add: matches_def abs_outgoing_def acquire(2) table_eq_def)
    with acquire(1) show ?thesis by (blast intro: atomic_step.intros)
  next
    case (refuse i m e s' p')
    have lock: "abs_outgoing c = (og_sender c, og_pending c)" "abs_outgoing d = (s', p')"
      using refuse(4) by (simp_all add: abs_outgoing_def refuse(2))
    with assms(3) a have s: "s = og_sender c" and p: "table_eq p (og_pending c)"
      by (simp_all add: matches_def)
    from refuse(5) have "\<exists>p1. atomic_enqueue m (s, p) = (Inl e, (s', p1)) \<and> table_eq p1 p'"
    proof (cases rule: reserve_cases)
      case no_ids
      then show ?thesis
        using p s by (auto simp: enqueue_def reserve_def exhausted_def Let_def)
    next
      case (unregistered e')
      then have "checked_add (ss_next_message_id s) 1 = Some (ss_next_message_id s + 1)"
        by (simp add: not_exhausted_next s)
      moreover have "register_for m (ss_next_message_id s) p = Inl e"
        using register_for_Inl [OF unregistered(3) p] unregistered(1) s by simp
      ultimately show ?thesis
        using unregistered p s by (auto simp: enqueue_def reserve_def Let_def)
    qed auto
    then obtain p1 where "atomic_enqueue m (s, p) = (Inl e, (s', p1))" "table_eq p1 p'" by blast
    from atomic_refuse [OF this(1), of i] this(2) lock(2) refuse(1) a show ?thesis
      by (intro exI [of _ "(s', p1)"]) (simp add: matches_def)
  next
    case (push i m mid reg)
    from reserve_again [OF assms(2) push(3) assms(3) [unfolded a]] obtain p' where
      p': "reserve (register_for m) (s, p) = (Inr (mid, reg), (og_sender c, p'))"
        "table_eq p' (og_pending c)" .
    let ?s' = "(og_sender c)\<lparr>ss_wire := ss_wire (og_sender c) @ [outbound (og_sender c) m mid]\<rparr>"
    have "atomic_enqueue m a = (Inr (mid, reg), (?s', p'))"
      using p'(1) push(4) by (simp add: enqueue_def a outbound_def)
    from atomic_push [OF this, of i] p'(2) push(1,2) show ?thesis
      by (intro exI [of _ "(?s', p')"]) (simp add: matches_def abs_outgoing_def)
  next
    case (push_fails i m mid reg)
    from reserve_again [OF assms(2) push_fails(3) assms(3) [unfolded a]] obtain p' where
      p': "reserve (register_for m) (s, p) = (Inr (mid, reg), (og_sender c, p'))"
        "table_eq (release_for reg p') (release_for reg (og_pending c))" by metis
    have "atomic_enqueue m a =
        (Inl (Transport ''plugin output stream closed''), (og_sender c, release_for reg p'))"
      using p'(1) push_fails(4) by (simp add: enqueue_def a)
    from atomic_push_fails [OF this, of i] p'(2) push_fails(1,2) show ?thesis
      by (intro exI [of _ "(og_sender c, release_for reg p')"]) (simp add: matches_def abs_outgoing_def)
  next
    case (drop_waiting i m)
    then have "abs_outgoing d = abs_outgoing c"
      using lock_holder [OF assms(2)] by (intro abs_outgoing_frame) auto
    with assms(3) have "matches d a" by (simp add: matches_def)
    with drop_waiting(1) show ?thesis by (blast intro: atomic_step.intros)
  next
    case (drop_reserved i m mid reg)
    from reserve_again [OF assms(2) drop_reserved(3) assms(3) [unfolded a]] obtain p' where
      p': "reserve (register_for m) (s, p) = (Inr (mid, reg), (og_sender c, p'))"
        "table_eq (release_for reg p') (release_for reg (og_pending c))" by metis
    obtain r where "abandon_enqueue (register_for m) release_for a =
        (r, (og_sender c, release_for reg p'))"
      using p'(1) by (simp add: abandon_enqueue_def a)
    from atomic_drop [OF this, of i] p'(2) drop_reserved(1,2) show ?thesis
      by (intro exI [of _ "(og_sender c, release_for reg p')"]) (simp add: matches_def abs_outgoing_def)
  next
    case take_out
    then have "abs_outgoing d = abs_outgoing c" by (intro abs_outgoing_frame) auto
    with assms(3) have "matches d a" by (simp add: matches_def)
    with take_out(1) show ?thesis by (blast intro: atomic_step.intros)
  next
    case (answer mid)
    note inv = outgoing_step_inv [OF assms(1,2)]
    have "matches d (s, p\<lparr>pt_requests := hm_remove mid (pt_requests p)\<rparr>)"
    proof (cases "og_lock c")
      case None
      with assms(3) show ?thesis
        by (simp add: answer(2) a matches_def abs_outgoing_def table_eq_def hm.get_remove)
    next
      case (Some i)
      with assms(2) obtain m' mid' reg where task: "og_tasks c i = AwaitingRoom m' mid' reg"
        "registered_for m' mid' reg (og_pending c)"
        by (auto simp: outgoing_inv_def holder_ok_def)
      then have "og_tasks d i = AwaitingRoom m' mid' reg" by (simp add: answer(2))
      note abs = abs_outgoing_holder [OF assms(2) task(1)] abs_outgoing_holder [OF inv this]
      from reserved_holder(2) [OF inv \<open>og_tasks d i = _\<close>]
      have "registered_for m' mid' reg (og_pending d)" by (simp add: holder_ok_def)
      note release = release_for_registered [OF this] release_for_registered [OF task(2)]
      have same: "og_sender d = og_sender c" "pt_poisoned (og_pending d) = pt_poisoned (og_pending c)"
        "table_get (og_pending d) = (table_get (og_pending c))(mid := None)"
        by (simp_all add: answer(2) hm.get_remove)
      from assms(3) show ?thesis
        unfolding a matches_def abs fst_conv snd_conv table_eq_def release same
        by (simp add: hm.get_remove fun_upd_twist fun_eq_iff)
    qed
    with answer(1) show ?thesis unfolding a by (blast intro: atomic_step.intros)
  next
    case close_stream
    with assms(3) have "matches d (s\<lparr>ss_closed := True\<rparr>, p)"
      by (auto simp: a matches_def abs_outgoing_def split: option.splits enqueue_pc.splits)
    with close_stream(1) show ?thesis unfolding a by (blast intro: atomic_step.intros)
  qed
qed

lemma outgoing_run_simulated:
  assumes "run outgoing_step c ls d" and "outgoing_inv c" and "matches c a"
  shows "\<exists>a'. run atomic_step a ls a' \<and> matches d a'"
  using assms
proof (induction rule: run.induct)
  case run_nil
  show ?case by (rule exI [of _ a]) (simp add: run.run_nil run_nil.prems)
next
  case (run_snoc ls d l e)
  from run_snoc.IH [OF run_snoc.prems] obtain a' where
    a': "run atomic_step a ls a'" "matches d a'" by (elim exE conjE)
  have "outgoing_inv d" by (rule outgoing.run_inv [OF run_snoc.hyps(1) run_snoc.prems(1)])
  from outgoing_step_simulated [OF run_snoc.hyps(2) this a'(2)] obtain a''
    where a'': "atomic_step a' l a''" "matches e a''" by blast
  have "run atomic_step a (ls @ [l]) a''" by (rule run.run_snoc [OF a'(1) a''(1)])
  with a''(2) show ?case by (intro exI conjI)
qed

end
