(* ===== verification/Samples.thy ===== *)
theory Samples
  imports Runtime Task_Conduct Outgoing
begin

text \<open>
  Concrete inputs at which the properties of the development are applied: one job, one
  plugin with one action, a sender, a client and a manager in their initial states, and the
  two crates the validators call on the strings that occur.
\<close>

definition sample_job :: string where
  "sample_job = ''00000000-0000-4000-8000-000000000001''"

definition sample_uuid_parser :: uuid_parser where
  "sample_uuid_parser s =
     (if s = sample_job then Some \<lparr>uuid_get_version = Some UuidRandom, uuid_hyphenated = s\<rparr> else None)"

definition sample_uri_parser :: uri_parser where
  "sample_uri_parser s =
     (if s = ''http://127.0.0.1:5000''
      then Inr \<lparr>uri_scheme_str = Some ''http'',
        uri_authority = Some \<lparr>auth_host = ''127.0.0.1'', auth_port_u16 = Some 5000,
          auth_as_str = ''127.0.0.1:5000''\<rparr>,
        uri_path = ''/'', uri_query = None\<rparr>
      else Inl ''invalid uri'')"

definition sample_trace :: trace_context where
  "sample_trace = \<lparr>correlation_id = ''c'', parent_call_id = None, call_depth = 0,
     causal_depth = 0, task_id = None, task_group_id = None\<rparr>"

definition sample_identity :: session_identity where
  "sample_identity = \<lparr>si_session_id = ''session'', si_instance_id = ''instance''\<rparr>"

definition sample_sender :: session_sender where
  "sample_sender = new_sender sample_identity"

definition sample_client :: host_client where
  "sample_client = new_host_client sample_sender ''session'' 65536 8"

definition sample_actions :: "(string, nat registered_action) hash_map" where
  "sample_actions = [(''run'', \<lparr>ra_description = ''runs'', ra_handler = 0\<rparr>)]"

definition sample_manager :: "nat job_manager" where
  "sample_manager = new_job_manager sample_actions 1 sample_client"

definition sample_value :: config_value where
  "sample_value = ConfigValue (Some (ListValue [ConfigValue (Some (BoolValue True)),
     ConfigValue (Some (StringValue ''x''))]))"

text \<open>An action's context in that job, and a host that answers every request at once.\<close>

definition sample_context :: action_context where
  "sample_context = \<lparr>ac_job_id = sample_job, ac_deadline = None, ac_trace = sample_trace,
     ac_parent_call_id = 2\<rparr>"

definition answered :: "payload \<Rightarrow> await_env" where
  "answered payload = \<lparr>ae_word = ACTIVE, ae_fate = Completes, ae_response = 0,
     ae_world = (\<lambda>_ hc. (Inr payload, hc))\<rparr>"

definition sample_response :: host_call_response where
  "sample_response = \<lparr>hcr_result = Some (Result_GetConfig \<lparr>gc_value = Some sample_value\<rparr>)\<rparr>"

definition sample_descriptor :: artifact_descriptor where
  "sample_descriptor = \<lparr>art_artifact_id = Some (PluginArtifactId sample_job),
     art_file_name = ''out.txt'', art_media_type = ''text/plain'', art_size_bytes = 3,
     art_sha256 = replicate 32 0\<rparr>"

text \<open>A digest with the interface of SHA-256, computed over what it was given.\<close>

definition sample_sha :: "bytes sha256" where
  "sample_sha = \<lparr>sha_new = [], sha_update = (@), sha_finalize = (\<lambda>_. replicate 32 0)\<rparr>"

definition sample_source :: cursor where
  "sample_source = \<lparr>cur_bytes = [1, 2, 3], cur_position = 0\<rparr>"

definition sample_store :: store_env where
  "sample_store = \<lparr>se_entry_word = ACTIVE, se_polls = (\<lambda>_. False), se_validated_word = ACTIVE,
     se_start = answered (PArtifactAccepted \<lparr>ata_artifact_id = Some (PluginArtifactId sample_job)\<rparr>),
     se_chunks = (\<lambda>_. \<lparr>ce_word = ACTIVE, ce_read_cancelled = False, ce_fate = Completes,
        ce_world = (\<lambda>hc. hc)\<rparr>),
     se_complete = answered (PArtifactStored \<lparr>ast_artifact_id = Some (PluginArtifactId sample_job)\<rparr>)\<rparr>"

lemma sample_sha_contract: "sha256_contract sample_sha (\<lambda>_. replicate 32 0)"
  by (simp add: sha256_contract_def sample_sha_def)

lemma sample_store_quiet: "quiet aid sample_store"
  by (simp add: quiet_def quiet_await_def sample_store_def answered_def)

lemma sample_store_peaceful: "peaceful_store sample_store"
  by (simp add: peaceful_store_def peaceful_def sample_store_def answered_def)

lemma answered_tame: "tame (answered payload)"
  by (simp add: tame_def answered_def)

lemma answered_peaceful: "peaceful (answered payload)"
  by (simp add: peaceful_def answered_def)

lemma sample_store_returns:
  obtains r hc' source' where "store_artifact sample_uuid_parser sample_sha cursor_source
    sample_context sample_descriptor sample_store sample_client sample_source = Some (r, hc', source')"
proof -
  have "cursor_view sample_source = ([1, 2, 3], 0)" "art_artifact_id sample_descriptor =
      Some (PluginArtifactId sample_job)"
    by (simp_all add: cursor_view_def sample_source_def sample_descriptor_def)
  then show thesis
    by (rule cursor.store_artifact_transfers [OF _ sample_sha_contract _ sample_store_quiet])
      (rule that)
qed

lemma sample_uuid: "canonical_uuid_v4 sample_uuid_parser sample_job"
  by (simp add: canonical_uuid_v4_def sample_uuid_parser_def)

lemma sample_sender_inv: "sender_inv sample_sender"
  by (simp add: sample_sender_def new_sender_inv)

lemma sample_client_inv: "client_inv sample_client"
  by (simp add: sample_client_def new_host_client_inv sample_sender_inv)

lemma sample_manager_inv: "jobs_inv [] sample_manager"
  by (simp add: sample_manager_def new_job_manager_inv sample_client_inv)

end
