(* ===== verification/Claims_Values.thy ===== *)
theory Claims_Values
  imports Samples
begin

text \<open>
  Properties of what the runtime accepts: configuration values, identifiers, the endpoint,
  host responses, plugin declarations, and of the errors it answers with.
\<close>

section \<open>Configuration values\<close>

text \<open>C23. A value may be stored or logged exactly when its tree is at most 33 levels high
  and every node is acceptable on its own: a known kind, a finite number, a timestamp and a
  duration in range, and no session-scoped function anywhere.\<close>

theorem serializable_values:
  "validate_serializable v = Inr () \<longleftrightarrow>
     height v \<le> 33 \<and> list_all (\<lambda>(n, u). node_ok None u) (nodes 0 v)"
  unfolding validate_serializable_def validate_ok_iff well_formed_value_height
  by (simp add: MAXIMUM_VALUE_DEPTH_def list_all_iff)

text \<open>Lists nested in lists.\<close>

fun nested :: "nat \<Rightarrow> config_value" where
  "nested 0 = ConfigValue (Some (ListValue []))"
| "nested (Suc n) = ConfigValue (Some (ListValue [nested n]))"

lemma height_nested: "height (nested n) = n"
  by (induction n) simp_all

lemma nodes_nested: "(m, u) \<in> set (nodes d (nested n)) \<Longrightarrow> node_ok fs u"
  by (induction n arbitrary: d) auto

text \<open>The nesting limit is exact: lists nested 33 deep pass, 34 deep do not.\<close>

lemma nesting_limit: "validate_serializable (nested n) = Inr () \<longleftrightarrow> n \<le> 33"
proof -
  have "\<forall>(m, u) \<in> set (nodes 0 (nested n)). node_ok None u" using nodes_nested by blast
  then show ?thesis
    unfolding validate_serializable_def validate_ok_iff well_formed_value_height
    by (simp add: height_nested MAXIMUM_VALUE_DEPTH_def)
qed

section \<open>Identifiers and the endpoint\<close>

text \<open>An accepted plugin ID is a short dotted name with no empty component and no
  character a path could be built from.\<close>

lemma plugin_ids_are_safe_names:
  assumes "validate_plugin_id value = Inr ()"
  shows "length value \<le> 191 \<and> 2 \<le> length (split_on (CHR ''.'') value) \<and>
    [] \<notin> set (split_on (CHR ''.'') value) \<and>
    CHR ''/'' \<notin> set value \<and> CHR 0x5C \<notin> set value \<and> CHR 0x00 \<notin> set value \<and> CHR '' '' \<notin> set value"
proof -
  have "[] \<notin> set (split_on (CHR ''.'') value)"
    using assms by (auto simp: validate_plugin_id_ok_iff valid_dns_label_def)
  moreover have "c \<notin> set value" if "\<not> label_char c" and "c \<noteq> CHR ''.''" for c
    using plugin_id_chars [OF assms] that by blast
  ultimately show ?thesis
    using assms by (simp add: validate_plugin_id_ok_iff MAXIMUM_PLUGIN_ID_BYTES_def)
qed



section \<open>Host responses\<close>

text \<open>C36. A response is accepted exactly when it is of the kind that was asked for and every
  configuration value in it is valid in this session, or is a well-formed error.\<close>

theorem responses_match_their_calls:
  "validate_response kind r s = Inr () \<longleftrightarrow>
     (case r of
        None \<Rightarrow> False
      | Some (Result_Error e) \<Rightarrow> pe_code e \<noteq> 0 \<and> pe_message e \<noteq> []
      | Some result \<Rightarrow> kind_of_result result = Some kind \<and>
          list_all (well_formed_value (Some s) 0) (result_values result))"
  unfolding validate_response_ok_iff
  by (simp add: list_all_iff split: option.splits host_call_result.splits)

section \<open>Errors\<close>

text \<open>Every SDK error has a structured form, without a panic: a host error is passed on
  as it is; any other carries its own text and a specified code, and is retryable exactly
  when the code says the plugin is unavailable.\<close>

lemma errors_have_a_protocol_form:
  "\<exists>pe. to_protocol_error e = Some pe \<and>
     (case e of
        Host h \<Rightarrow> pe = h
      | _ \<Rightarrow> pe_message pe = display e \<and>
          (\<exists>c. outbound_code e = Some c \<and> c \<noteq> CodeUnspecified \<and> pe_code pe = error_code_i32 c \<and>
             (pe_retryable pe \<longleftrightarrow> c = CodeUnavailable)))"
  by (cases e) (simp_all add: to_protocol_error_def)

section \<open>Plugin declarations\<close>

text \<open>C39. A chain of builder calls yields a plugin exactly when the ID is valid, the version
  is given, no limit of zero is set and the action names are nonempty and distinct; the
  plugin is then what was declared, with the last limit that was set.\<close>

theorem builder_declares:
  "builder_chain cs (builder pid version) = Inr p \<longleftrightarrow>
     validate_plugin_id pid = Inr () \<and> version \<noteq> [] \<and> SetMaximum 0 \<notin> set cs \<and>
     [] \<notin> fst ` set (declared_actions cs) \<and> distinct (map fst (declared_actions cs)) \<and>
     p = \<lparr>pl_plugin_id = pid, pl_version = version,
          pl_actions = fold (\<lambda>(k, v). hm_insert k v) (declared_actions cs) hm_empty,
          pl_maximum_concurrent_jobs = last_maximum 256 cs\<rparr>"
  unfolding builder_chain_Inr_iff [OF builder_inv]
  by (simp add: builder_def hm.get_empty DEFAULT_MAXIMUM_CONCURRENT_JOBS_def)

end
