(* ===== verification/Claims_Client.thy ===== *)
theory Claims_Client
  imports Samples
begin

text \<open>
  Properties of what the tasks of a session share: the ordered output, its interleaved
  execution, the table of pending requests, and the cancellation token.
\<close>

section \<open>The ordered output\<close>

text \<open>C22. Any sequence of sends leaves message IDs that strictly increase along the wire,
  and has put the messages there in the order of the calls, or a prefix of them when a send
  failed.\<close>

theorem sends_are_ordered:
  assumes "sender_inv s" and "try_each post_outgoing ms s = (result, t)"
  shows "sorted_wrt (<) (sent_ids t) \<and>
    (\<exists>ids. length ids \<le> length ms \<and> (result = Inr () \<longrightarrow> length ids = length ms) \<and>
      wire_envelopes t = wire_envelopes s @ map2 (render_outgoing s) ids (take (length ids) ms))"
  using sender.try_each_ids [OF assms(1), of ms] sender.try_each_output [OF assms(2)] assms(2)
  by (simp_all add: sent_ids_def)

definition sample_messages :: "outgoing list" where
  "sample_messages = [(None, sample_trace, PReady), (Some 7, sample_trace, PShutdownAcknowledged)]"

theorem sends_are_ordered_witness:
  "sorted_wrt (<) (sent_ids (snd (try_each post_outgoing sample_messages sample_sender)))"
  using sends_are_ordered [OF sample_sender_inv prod.collapse [symmetric]] by blast

section \<open>Interleavings\<close>

text \<open>C4. However the tasks that send interleave on the lock and the bounded channel, and
  wherever they are dropped, what they leave behind is the outcome of atomic enqueues and
  abandoned enqueues, one after the other, with the same labels.\<close>

theorem interleavings_are_atomic:
  assumes "run outgoing_step (initial_outgoing identity) ls c"
  shows "\<exists>a. run atomic_step (new_sender identity, \<lparr>pt_requests = hm_empty, pt_poisoned = False\<rparr>) ls a \<and>
    matches c a"
proof (rule outgoing_run_simulated [OF assms])
  show "outgoing_inv (initial_outgoing identity)" unfolding initial_outgoing_def using outgoing.init_inv by blast
  show "matches (initial_outgoing identity)
      (new_sender identity, \<lparr>pt_requests = hm_empty, pt_poisoned = False\<rparr>)"
    by (simp add: matches_def abs_outgoing_def table_eq_def initial_outgoing_def new_outgoing_def)
qed

definition sample_request :: outgoing_message where
  "sample_request = \<lparr>om_reply = None, om_trace = sample_trace,
     om_payload = PHostCall \<lparr>hcr_call = None\<rparr>, om_response = Some 0\<rparr>"

definition sample_waiting :: outgoing_state where
  "sample_waiting = (initial_outgoing sample_identity)
     \<lparr>og_tasks := (\<lambda>_. NotSending)(3 := AwaitingLock sample_request)\<rparr>"

definition sample_reserved :: outgoing_state where
  "sample_reserved = sample_waiting
     \<lparr>og_sender := (og_sender sample_waiting)\<lparr>ss_next_message_id := 2\<rparr>,
      og_pending := \<lparr>pt_requests = [(1, \<lparr>pr_expected_trace = sample_trace, pr_response = 0\<rparr>)],
                     pt_poisoned = False\<rparr>,
      og_lock := Some 3,
      og_tasks := (og_tasks sample_waiting)(3 := AwaitingRoom sample_request 1
        (Some (0, \<lparr>pg_message_id = 1, pg_sent = False\<rparr>)))\<rparr>"

definition sample_pushed :: outgoing_state where
  "sample_pushed = sample_reserved
     \<lparr>og_sender := (og_sender sample_reserved)
        \<lparr>ss_wire := ss_wire (og_sender sample_reserved) @
          [outbound (og_sender sample_reserved) sample_request 1]\<rparr>,
      og_lock := None, og_tasks := (og_tasks sample_reserved)(3 := NotSending)\<rparr>"

lemma sample_outgoing_run:
  "run outgoing_step (initial_outgoing sample_identity) [Call 3, Acquire 3, Push 3] sample_pushed"
proof -
  have call: "outgoing_step (initial_outgoing sample_identity) (Call 3) sample_waiting"
    using call_enqueue [of "initial_outgoing sample_identity" 3 sample_request]
    by (simp add: sample_waiting_def initial_outgoing_def new_outgoing_def)
  have "reserve (register_for sample_request) (og_sender sample_waiting, og_pending sample_waiting) =
      (Inr (1, Some (0, \<lparr>pg_message_id = 1, pg_sent = False\<rparr>)),
       (og_sender sample_reserved, og_pending sample_reserved))"
    by (simp add: reserve_def register_for_def register_request_def sample_waiting_def
        sample_reserved_def initial_outgoing_def new_outgoing_def new_sender_def sample_request_def
        checked_add_def hm_contains_key_def hm_get_def hm_empty_def hm_insert_def)
  from acquire [OF _ _ this, of 3] have acquire: "outgoing_step sample_waiting (Acquire 3) sample_reserved"
    by (simp add: sample_waiting_def sample_reserved_def initial_outgoing_def new_outgoing_def)
  have push: "outgoing_step sample_reserved (Push 3) sample_pushed"
    unfolding sample_pushed_def
    by (rule outgoing_step.push [of _ _ _ _ "Some (0, \<lparr>pg_message_id = 1, pg_sent = False\<rparr>)"])
      (simp_all add: sample_reserved_def sample_waiting_def initial_outgoing_def new_outgoing_def new_sender_def
        backlog_def OUTGOING_CAPACITY_def)
  show ?thesis
    using run_cons [where step = outgoing_step, OF call
        run_cons [where step = outgoing_step, OF acquire run_single [where step = outgoing_step, OF push]]] .
qed

theorem interleavings_are_atomic_witness:
  "\<exists>a. run atomic_step (new_sender sample_identity, \<lparr>pt_requests = hm_empty, pt_poisoned = False\<rparr>)
     [Call 3, Acquire 3, Push 3] a \<and> matches sample_pushed a"
  by (rule interleavings_are_atomic [OF sample_outgoing_run])

text \<open>C21. At every moment of every interleaving the channel holds at most 256 envelopes, the
  IDs on the wire strictly increase, and a routing entry other than the lock holder's
  belongs to a request that is on the wire and expects that request's own trace.\<close>

theorem interleavings_keep_order:
  assumes "run outgoing_step (initial_outgoing identity) ls c"
  shows "backlog c \<le> 256 \<and> sorted_wrt (<) (sent_ids (og_sender c)) \<and>
    (\<forall>k w. hm_get (pt_requests (og_pending c)) k = Some w \<longrightarrow>
       request_on_wire (og_sender c) k w \<or>
       (\<exists>i m reg. og_lock c = Some i \<and> og_tasks c i = AwaitingRoom m k reg))"
proof -
  have "outgoing_inv c" using outgoing.reachable_inv assms unfolding initial_outgoing_def by blast
  moreover have "og_capacity c = 256"
    using outgoing_run_capacity [OF assms]
    by (simp add: initial_outgoing_def new_outgoing_def OUTGOING_CAPACITY_def)
  ultimately have inv: "outgoing_inv c" "og_capacity c = 256" .
  have "request_on_wire (og_sender c) k w \<or>
      (\<exists>i m reg. og_lock c = Some i \<and> og_tasks c i = AwaitingRoom m k reg)"
    if "hm_get (pt_requests (og_pending c)) k = Some w" for k w
  proof (cases "pending_on_wire c k")
    case True
    with that show ?thesis by (simp add: pending_on_wire_def)
  next
    case False
    with inv show ?thesis
      by (auto simp: outgoing_inv_def holder_ok_def split: option.splits)
  qed
  with inv show ?thesis by (simp add: outgoing_inv_def sender_inv_def)
qed

theorem interleavings_keep_order_witness: "backlog sample_pushed \<le> 256"
  using interleavings_keep_order [OF sample_outgoing_run] by blast

section \<open>Requests and their responses\<close>

text \<open>C35. A request either ends up on the wire, under an ID that was not pending, with its
  routing entry beside it, or leaves the wire and the routing table as they were.\<close>

theorem requests_begin_whole:
  assumes "client_inv hc" and "begin_request trace payload response hc = (result, hc')"
  shows "client_inv hc' \<and>
    (case result of
       Inl e \<Rightarrow> client_wire hc' = client_wire hc \<and> pending_of hc' = pending_of hc
     | Inr (mid, guard) \<Rightarrow>
         pending_of hc mid = None \<and>
         pending_of hc' = (pending_of hc)
           (mid \<mapsto> \<lparr>pr_expected_trace = trace, pr_response = response\<rparr>) \<and>
         client_wire hc' = client_wire hc @ [seal_envelope (client_identity hc) mid None trace payload])"
  using assms(2)
proof (cases rule: begin_request_cases)
  case (failed e)
  with begin_request_inv [OF assms(2,1)] show ?thesis by simp
next
  case (sent mid)
  with begin_request_inv [OF assms(2,1)] show ?thesis by (simp add: hm.get_insert)
qed

theorem requests_begin_whole_witness:
  "client_inv (snd (begin_request sample_trace PReady 0 sample_client))"
  using requests_begin_whole [OF sample_client_inv, of sample_trace PReady 0] prod.collapse by metis

text \<open>A request that is dropped while it waits for room leaves no routing entry and
  nothing on the wire; at most an ID has been skipped.\<close>

lemma dropped_requests_leave_nothing:
  assumes "client_inv hc" and "abandon_unsent_request trace response hc = (result, hc')"
  shows "client_inv hc' \<and> pending_of hc' = pending_of hc \<and> client_wire hc' = client_wire hc \<and>
    ss_next_message_id (hc_sender hc) \<le> ss_next_message_id (hc_sender hc')"
  using abandon_unsent_request_keeps [OF assms(2)] assms(1) by (simp add: extends_def)

text \<open>C20. A response is accepted only for a pending request, and only with the trace that
  request carried. It settles that request's waiter and no other, and the same reply a
  second time is refused.\<close>

theorem responses_settle_once:
  assumes "route reply trace payload hc = (Inr (), hc')"
  shows "\<exists>waiter. pending_of hc reply = Some waiter \<and> pr_expected_trace waiter = trace \<and>
    hc_settled hc' = hc_settled hc @ [(pr_response waiter, Some payload)] \<and>
    pending_of hc' = (pending_of hc)(reply := None) \<and>
    route reply trace' payload' hc' =
      (Inl (Protocol ''response names no pending plugin request''), hc')"
proof -
  from assms route_ok_iff have ok: "\<not> pt_poisoned (hc_pending hc)"
    and "\<exists>waiter. pending_of hc reply = Some waiter \<and> pr_expected_trace waiter = trace" by blast+
  then obtain waiter where waiter: "pending_of hc reply = Some waiter" "pr_expected_trace waiter = trace"
    by blast
  have gone: "pending_of hc' = (pending_of hc)(reply := None)"
    using route_pending [OF ok, of reply trace payload] assms by simp
  have "\<not> pt_poisoned (hc_pending hc')"
    using assms ok by (auto simp: route_def Let_def split: option.splits if_splits)
  then have "route reply trace' payload' hc' =
      (Inl (Protocol ''response names no pending plugin request''), hc')"
    by (simp add: route_def gone)
  with waiter gone route_settled [OF assms waiter(1)] show ?thesis by blast
qed

theorem responses_settle_once_witness:
  "\<exists>waiter. pending_of (snd (begin_request sample_trace PReady 0 sample_client)) 1 = Some waiter \<and>
     pr_expected_trace waiter = sample_trace"
proof -
  let ?hc = "snd (begin_request sample_trace PReady 0 sample_client)"
  have "fst (route 1 sample_trace PReady ?hc) = Inr ()"
    by (simp add: begin_request_def send_registered_def enqueue_def reserve_def register_request_def
        sample_client_def new_host_client_def sample_sender_def new_sender_def checked_add_def
        hm_contains_key_def hm_get_def hm_empty_def hm_insert_def route_def Let_def)
  then have "route 1 sample_trace PReady ?hc = (Inr (), snd (route 1 sample_trace PReady ?hc))"
    by (metis prod.collapse)
  from responses_settle_once [OF this] show ?thesis by blast
qed





section \<open>Cancellation\<close>

text \<open>C8. No wake-up is lost: once a controller has moved the state word and called
  \<open>notify_waiters\<close>, every task inside \<open>cancelled()\<close> returns by at most four steps of its own,
  wherever the interleaving has left it.\<close>

theorem no_wakeup_is_lost:
  assumes "notify_waiters_contract notify"
    and "run (cancellation_step notify) initial_cancellation ls s"
    and "cs_value s \<noteq> ACTIVE" and "\<not> cs_notify_pending s"
  shows "\<exists>n t. n \<le> 4 \<and> run (cancellation_step notify) s (replicate n (Waiter i)) t \<and>
    w_pc (cs_waiters t i) = Returned"
proof -
  have "steps_to_return pc \<le> 4" for pc by (cases pc) simp_all
  with waiter_returns [OF assms(1) cancellation_reachable_inv [OF assms(1,2)] assms(3,4)]
  show ?thesis by blast
qed

lemma documented_notify_contract: "notify_waiters_contract documented_notify"
  unfolding notify_waiters_contract_def documented_notify_def
  by (auto intro!: exI [of _ "\<lambda>i. (_ i)\<lparr>w_notified := True\<rparr>"])

definition sample_cancelled :: cancellation_state where
  "sample_cancelled = initial_cancellation
     \<lparr>cs_value := CANCELLED, cs_notify_pending := False\<rparr>"

lemma sample_cancelled_run:
  "run (cancellation_step documented_notify) initial_cancellation
     [Controller OpCancel, NotifyWaiters] sample_cancelled"
proof -
  let ?s = "initial_cancellation\<lparr>cs_value := CANCELLED, cs_notify_pending := True\<rparr>"
  have "cancellation_step documented_notify initial_cancellation (Controller OpCancel) ?s"
    using controller_wins [of initial_cancellation documented_notify OpCancel]
    by (simp add: initial_cancellation_def)
  moreover have "cancellation_step documented_notify ?s NotifyWaiters sample_cancelled"
    using notify_waiters [of ?s documented_notify "cs_waiters initial_cancellation"]
    by (simp add: sample_cancelled_def initial_cancellation_def documented_notify_def)
  ultimately show ?thesis
    by (intro run_cons [where step = "cancellation_step documented_notify"]
        run_single [where step = "cancellation_step documented_notify"])
qed

theorem no_wakeup_is_lost_witness:
  "\<exists>n t. n \<le> 4 \<and> run (cancellation_step documented_notify) sample_cancelled (replicate n (Waiter 5)) t \<and>
     w_pc (cs_waiters t 5) = Returned"
  by (rule no_wakeup_is_lost [OF documented_notify_contract sample_cancelled_run])
    (simp_all add: sample_cancelled_def state_words)

end
