(* ===== verification/Claims_Actions.thy ===== *)
theory Claims_Actions
  imports Samples
begin

text \<open>
  Properties of what an action can do through its context: host calls, logs, artifact
  transfers, and the result it returns.
\<close>

section \<open>Artifacts\<close>

text \<open>C40. A chunk plan exists exactly when the host's chunk limit is not zero and the number
  of chunks fits 32 bits. The guard against overflow in the rounding rejects nothing more.\<close>

theorem artifact_plan_exists:
  "is_ok (artifact_plan bytes_total maximum) \<longleftrightarrow>
     maximum \<noteq> 0 \<and>
     (unat bytes_total + (min (unat maximum) 65536 - 1)) div min (unat maximum) 65536 < 2 ^ 32"
proof -
  let ?c = "min (unat maximum) 65536"
  let ?n = "(unat bytes_total + (?c - 1)) div ?c"
  have "unat bytes_total + (?c - 1) < 2 ^ 64" if "maximum \<noteq> 0" and "?n < 2 ^ 32"
  proof -
    have c: "0 < ?c" "?c \<le> 65536" using that(1) by (simp_all add: unat_gt_0)
    have "unat bytes_total + (?c - 1) = ?n * ?c + (unat bytes_total + (?c - 1)) mod ?c"
      by (rule div_mult_mod_eq [symmetric])
    also have "\<dots> < ?n * ?c + ?c" using c(1) by (intro add_strict_left_mono mod_less_divisor)
    also have "\<dots> = (?n + 1) * ?c" by simp
    also have "\<dots> \<le> 2 ^ 32 * 65536" using that(2) c(2) by (intro mult_le_mono) simp_all
    finally show ?thesis by simp
  qed
  moreover have "\<exists>plan :: artifact_plan. unat (ap_chunk_bytes plan) = ?c \<and> unat (ap_chunk_count plan) = ?n"
    if "?n < 2 ^ 32"
    using that
    by (intro exI [of _ "\<lparr>ap_chunk_bytes = of_nat ?c, ap_chunk_count = of_nat ?n\<rparr>"])
      (simp add: unat_of_nat take_bit_nat_def min_def)
  ultimately show ?thesis
    unfolding is_ok_Ex artifact_plan_Inr_iff by blast
qed

text \<open>C29. A plan cuts the bytes without loss: the chunks put together are the bytes, none is
  empty, and none exceeds the host's limit or the transfer buffer.\<close>

theorem chunks_rebuild_the_artifact:
  assumes "artifact_plan bytes_total maximum = Inr plan" and "length data = unat bytes_total"
  defines "chunks \<equiv> cut (unat (ap_chunk_bytes plan)) (unat (ap_chunk_count plan)) data"
  shows "concat chunks = data \<and> length chunks = unat (ap_chunk_count plan) \<and>
    list_all (\<lambda>chunk. 0 < length chunk \<and> length chunk \<le> min (unat maximum) 65536) chunks"
proof -
  let ?c = "min (unat maximum) 65536"
  note plan = assms(1) [unfolded artifact_plan_Inr_iff]
  have c: "0 < ?c" using plan by (simp add: unat_gt_0)
  note bounds = ceil_div_bounds [OF c, of "unat bytes_total"]
  have lengths: "map length chunks = chunk_lengths ?c ((unat bytes_total + (?c - 1)) div ?c) (unat bytes_total)"
    using plan assms(2) by (simp add: chunks_def cut_lengths)
  have "concat chunks = data"
    using plan bounds(1) assms(2) unfolding chunks_def by (intro concat_cut) simp
  moreover have "length chunks = unat (ap_chunk_count plan)"
    by (simp add: chunks_def)
  moreover have "0 < length chunk \<and> length chunk \<le> ?c" if "chunk \<in> set chunks" for chunk
  proof -
    from that have mem: "length chunk \<in> set (map length chunks)" by simp
    then have "0 < unat bytes_total"
      unfolding lengths using bounds(2) by (cases "unat bytes_total = 0") auto
    with chunk_lengths_bounds [OF mem [unfolded lengths] bounds(3) c] show ?thesis by blast
  qed
  ultimately show ?thesis by (simp add: list_all_iff)
qed

theorem chunks_rebuild_the_artifact_witness:
  "concat (cut 2 2 [1, 2, 3 :: u8]) = [1, 2, 3]"
  using chunks_rebuild_the_artifact [of 3 2 "\<lparr>ap_chunk_bytes = 2, ap_chunk_count = 2\<rparr>" "[1, 2, 3]"]
  by (simp add: artifact_plan_Inr_iff)

text \<open>C28. Checking a source ends. When it succeeds, the source holds exactly the bytes the
  descriptor promises, by length and by digest, and is back where it was.\<close>

theorem sources_are_checked:
  assumes "seekable_source src view" and "view source = (content, p)"
    and "sha256_contract sha digest"
  shows "\<exists>r source'. validate_source src sha cancelled d source = Some (r, source') \<and>
    (r = Inr () \<longrightarrow> view source' = (content, p) \<and>
       unat (art_size_bytes d) = length (drop p content) \<and> digest (drop p content) = art_sha256 d)"
  using seekable_source.validate_source_returns [OF assms, of cancelled d] assms(2)
  unfolding describes_def by metis

theorem sources_are_checked_witness:
  "\<exists>r source'. validate_source cursor_source sample_sha (\<lambda>_. False) sample_descriptor sample_source =
     Some (r, source')"
  using sources_are_checked [OF cursor.seekable_source_axioms _ sample_sha_contract,
      of sample_source "[1, 2, 3]" 0]
  by (fastforce simp: cursor_view_def sample_source_def)

text \<open>C7. Storing an artifact always returns. What it sends in the artifact's name is a
  prefix of one sequence: the start, the source's bytes from its position on in chunks
  numbered from 0, and the end; and all of it when it succeeds. Nothing at all is sent for
  a source that does not match its descriptor.\<close>

theorem artifacts_are_transferred_whole:
  assumes "seekable_source src view" and "view source = (content, p)"
    and "sha256_contract sha digest" and "art_artifact_id d = Some aid" and "quiet aid env"
  shows "\<exists>r hc' source' sent.
    store_artifact parse sha src ctx d env hc source = Some (r, hc', source') \<and>
    adds aid sent hc hc' \<and>
    (sent = [] \<or> describes digest d (drop p content) \<and>
       (\<exists>plan. artifact_plan (art_size_bytes d) (hc_maximum_artifact_chunk_bytes hc) = Inr plan \<and>
          prefix sent (transfer_sequence ctx d aid plan (drop p content)))) \<and>
    (case r of
       Inl _ \<Rightarrow> True
     | Inr stored \<Rightarrow> stored = \<lparr>sa_job_id = ac_job_id ctx, sa_descriptor = d\<rparr> \<and>
         (\<exists>plan. artifact_plan (art_size_bytes d) (hc_maximum_artifact_chunk_bytes hc) = Inr plan \<and>
            sent = transfer_sequence ctx d aid plan (drop p content)))"
proof -
  obtain r hc' source' sent where
    "store_artifact parse sha src ctx d env hc source = Some (r, hc', source')"
    "adds aid sent hc hc'"
    and 1: "sent \<noteq> [] \<Longrightarrow> (\<exists>u. validate_descriptor parse d = Inr u) \<and>
      describes digest d (drop p content) \<and>
      (\<exists>plan. artifact_plan (art_size_bytes d) (hc_maximum_artifact_chunk_bytes hc) = Inr plan \<and>
         prefix sent (transfer_sequence ctx d aid plan (drop p content)))"
    and 2: "\<And>stored. r = Inr stored \<Longrightarrow> stored = \<lparr>sa_job_id = ac_job_id ctx, sa_descriptor = d\<rparr> \<and>
      (\<exists>plan. artifact_plan (art_size_bytes d) (hc_maximum_artifact_chunk_bytes hc) = Inr plan \<and>
         sent = transfer_sequence ctx d aid plan (drop p content))"
    by (rule seekable_source.store_artifact_transfers [OF assms, of parse ctx hc]) (rule that)
  moreover have "sent = [] \<or> describes digest d (drop p content) \<and>
      (\<exists>plan. artifact_plan (art_size_bytes d) (hc_maximum_artifact_chunk_bytes hc) = Inr plan \<and>
         prefix sent (transfer_sequence ctx d aid plan (drop p content)))"
    using 1 by blast
  moreover have "case r of
       Inl _ \<Rightarrow> True
     | Inr stored \<Rightarrow> stored = \<lparr>sa_job_id = ac_job_id ctx, sa_descriptor = d\<rparr> \<and>
         (\<exists>plan. artifact_plan (art_size_bytes d) (hc_maximum_artifact_chunk_bytes hc) = Inr plan \<and>
            sent = transfer_sequence ctx d aid plan (drop p content))"
    using 2 by (cases r) simp_all
  ultimately show ?thesis by blast
qed

theorem artifacts_are_transferred_whole_witness:
  "\<exists>r hc' source'. store_artifact sample_uuid_parser sample_sha cursor_source sample_context
     sample_descriptor sample_store sample_client sample_source = Some (r, hc', source')"
  using artifacts_are_transferred_whole [OF cursor.seekable_source_axioms _ sample_sha_contract _
      sample_store_quiet, of sample_source "[1, 2, 3]" 0 sample_descriptor]
  by (fastforce simp: cursor_view_def sample_source_def sample_descriptor_def)

section \<open>Host calls\<close>

lemma response_accepted:
  assumes "and_then (and_then answer interpret_response)
      (\<lambda>response. and_then (validate_response kind (hcr_result response) s) (\<lambda>_. Inr response)) =
    Inr response"
  shows "is_ok answer \<and> (\<exists>r. hcr_result response = Some r \<and> kind_of_result r = Some kind \<and>
    list_all (well_formed_value (Some s) 0) (result_values r))"
proof -
  from assms obtain payload where payload: "answer = Inr payload"
    "interpret_response payload = Inr response"
    "validate_response kind (hcr_result response) s = Inr ()"
    by (simp only: and_then_Inr_iff) auto
  then show ?thesis
    unfolding validate_response_ok_iff list_all_iff
    by (auto simp: interpret_response_def and_then_Inr_iff
        split: payload.splits option.splits host_call_result.splits)
qed



text \<open>The catch-all arms of \<open>get_config\<close> and \<open>invoke_config_function\<close> are never taken:
  each fails exactly when its host call fails, with the same error.\<close>

lemma typed_calls_never_mismatch:
  "(fst (get_config ctx path env hc) = Inl e \<longleftrightarrow>
      fst (host_call ctx (Call_GetConfig \<lparr>gc_path = path\<rparr>) env hc) = Inl e) \<and>
   (fst (invoke_config_function ctx f arguments env hc) = Inl e \<longleftrightarrow>
      fst (host_call ctx (Call_InvokeConfigFunction
        \<lparr>icf_function = Some f, icf_arguments = arguments\<rparr>) env hc) = Inl e)"
proof -
  have kind: "\<exists>answer. hcr_result response = Some answer \<and> kind_of_result answer = Some (kind_of_call c)"
    if "host_call ctx c env hc = (Inr response, hc')" for c response hc'
    using that
  proof (cases rule: host_call_cases)
    case (requested answer)
    then show ?thesis using response_accepted [of answer _ _ response] by fastforce
  qed simp
  have get: "fst (get_config ctx path env hc) = Inl e \<longleftrightarrow>
      fst (host_call ctx (Call_GetConfig \<lparr>gc_path = path\<rparr>) env hc) = Inl e"
  proof (cases "host_call ctx (Call_GetConfig \<lparr>gc_path = path\<rparr>) env hc")
    case (Pair r hc')
    then show ?thesis using kind [of "Call_GetConfig \<lparr>gc_path = path\<rparr>" _ hc']
      by (cases r) (auto simp: get_config_def elim!: kind_of_result.elims)
  qed
  let ?c = "Call_InvokeConfigFunction \<lparr>icf_function = Some f, icf_arguments = arguments\<rparr>"
  have "fst (invoke_config_function ctx f arguments env hc) = Inl e \<longleftrightarrow>
      fst (host_call ctx ?c env hc) = Inl e"
  proof (cases "host_call ctx ?c env hc")
    case (Pair r hc')
    then show ?thesis using kind [of ?c _ hc']
      by (cases r) (auto simp: invoke_config_function_def elim!: kind_of_result.elims)
  qed
  with get show ?thesis by simp
qed

section \<open>Isolation\<close>

text \<open>C33. An action cannot speak for the job manager: host calls, logs and artifact transfers
  add no acceptance, no update and no acknowledgement to the output, wherever they fail.\<close>

theorem actions_cannot_settle_jobs:
  assumes "peaceful env" and "peaceful_store senv"
    and "store_artifact parse sha src ctx d senv hc source = Some (r, hc', source')"
  shows "emits [] hc hc' \<and> emits [] hc (snd (host_call ctx c env hc)) \<and>
    emits [] hc (snd (log ctx level target message attributes now word fate hc))"
  using store_artifact_emits [OF assms(3,2)] host_call_emits [OF _ assms(1)] log_emits
  by (metis prod.collapse)

theorem actions_cannot_settle_jobs_witness:
  "emits [] sample_client (snd (host_call sample_context (Call_GetConfig \<lparr>gc_path = None\<rparr>)
     (answered (PHostResult sample_response)) sample_client))"
proof -
  obtain r hc' source' where "store_artifact sample_uuid_parser sample_sha cursor_source
      sample_context sample_descriptor sample_store sample_client sample_source =
      Some (r, hc', source')" by (rule sample_store_returns)
  from actions_cannot_settle_jobs [OF answered_peaceful sample_store_peaceful this]
  show ?thesis by blast
qed

section \<open>Logs and results\<close>

text \<open>A log call that returns normally has put its record on the wire, whole: at a known
  level, with a target, a representable time and serializable fields.\<close>

lemma logs_are_sent_whole:
  assumes "log ctx level target message attributes now word fate hc = (Inr (), hc')"
  shows "client_wire hc' = client_wire hc @
      [seal_envelope (client_identity hc) (ss_next_message_id (hc_sender hc)) None (ac_trace ctx)
         (PLog \<lparr>log_timestamp = Some now, log_level_field = log_level_i32 level,
           log_target = target, log_message = message, log_fields = attributes\<rparr>)] \<and>
    word = ACTIVE \<and> level \<noteq> LogUnspecified \<and> target \<noteq> [] \<and> valid_timestamp now \<and>
    list_all (\<lambda>(k, v). validate_serializable v = Inr ()) attributes"
proof -
  have all: "validate_fields kvs = Inr () \<longleftrightarrow>
      list_all (\<lambda>(k, v). validate_serializable v = Inr ()) kvs" for kvs
    by (induction kvs rule: validate_fields.induct) (auto simp: and_then_Inr_iff)
  from assms have guards: "word = ACTIVE" "level \<noteq> LogUnspecified" "target \<noteq> []"
      "validate_fields attributes = Inr ()" "valid_timestamp now"
    and send: "select_send (ac_trace ctx)
      (PLog \<lparr>log_timestamp = Some now, log_level_field = log_level_i32 level,
        log_target = target, log_message = message, log_fields = attributes\<rparr>) fate hc = (Inr (), hc')"
    by (cases "ensure_active word"; cases "validate_fields attributes";
        auto simp: log_def system_timestamp_def ensure_active_def split: if_splits)+
  from send show ?thesis
    by (cases rule: select_send_cases) (use guards all in simp_all)
qed

text \<open>C37. A result goes out exactly when its value is serializable and its artifacts are this
  job's own, each named once; the panic in \<open>into_wire\<close> needs an artifact without an ID, which
  no artifact that was stored is.\<close>

theorem results_name_own_artifacts_once:
  "(into_wire result jid = Some (Inr (value, descriptors)) \<longleftrightarrow>
     value = ar_result result \<and> descriptors = map sa_descriptor (ar_artifacts result) \<and>
     (case value of Some v \<Rightarrow> validate_serializable v = Inr () | None \<Rightarrow> True) \<and>
     list_all (stored_for jid) (ar_artifacts result) \<and>
     distinct (map stored_id (ar_artifacts result))) \<and>
   (into_wire result jid = None \<longrightarrow>
     \<not> list_all (\<lambda>a. art_artifact_id (sa_descriptor a) \<noteq> None) (ar_artifacts result))"
proof (rule conjI)
  show "into_wire result jid = Some (Inr (value, descriptors)) \<longleftrightarrow>
     value = ar_result result \<and> descriptors = map sa_descriptor (ar_artifacts result) \<and>
     (case value of Some v \<Rightarrow> validate_serializable v = Inr () | None \<Rightarrow> True) \<and>
     list_all (stored_for jid) (ar_artifacts result) \<and>
     distinct (map stored_id (ar_artifacts result))"
    by (cases "value") (auto simp: into_wire_ok_iff list_all_iff)
  show "into_wire result jid = None \<longrightarrow>
     \<not> list_all (\<lambda>a. art_artifact_id (sa_descriptor a) \<noteq> None) (ar_artifacts result)"
    using into_wire_total [of result jid] by (simp only: list_all_iff) blast
qed

theorem results_name_own_artifacts_once_witness:
  "into_wire (with_artifact \<lparr>sa_job_id = sample_job,
     sa_descriptor = sample_descriptor\<lparr>art_artifact_id := None\<rparr>\<rparr> empty_result) sample_job = None \<and>
   \<not> list_all (\<lambda>a. art_artifact_id (sa_descriptor a) \<noteq> None)
     (ar_artifacts (with_artifact \<lparr>sa_job_id = sample_job,
       sa_descriptor = sample_descriptor\<lparr>art_artifact_id := None\<rparr>\<rparr> empty_result))"
proof (intro conjI)
  show none: "into_wire (with_artifact \<lparr>sa_job_id = sample_job,
     sa_descriptor = sample_descriptor\<lparr>art_artifact_id := None\<rparr>\<rparr> empty_result) sample_job = None"
    by (simp add: into_wire_def with_artifact_def empty_result_def)
  from results_name_own_artifacts_once [THEN conjunct2, rule_format, OF none]
  show "\<not> list_all (\<lambda>a. art_artifact_id (sa_descriptor a) \<noteq> None)
     (ar_artifacts (with_artifact \<lparr>sa_job_id = sample_job,
       sa_descriptor = sample_descriptor\<lparr>art_artifact_id := None\<rparr>\<rparr> empty_result))" .
qed

end
