(* ===== verification/Sample_Runs.thy ===== *)
theory Sample_Runs
  imports Samples
begin

text \<open>
  Runs that reach the end: the sample job is started, cancelled, ends and is settled, or is
  cancelled and the manager shut down. The properties of runs are applied to them.
\<close>

definition sample_envelope :: "u64 \<Rightarrow> u64 option \<Rightarrow> payload \<Rightarrow> plugin_envelope" where
  "sample_envelope mid reply payload = seal_envelope sample_identity mid reply sample_trace payload"

definition sample_host :: "plugin_envelope list \<Rightarrow> host_client" where
  "sample_host es = sample_client\<lparr>hc_sender := sample_sender
     \<lparr>ss_next_message_id := of_nat (length es + 1),
      ss_wire := map (\<lambda>e. \<lparr>oe_envelope = e, oe_consumed = None\<rparr>) es\<rparr>\<rparr>"

definition sample_start :: start_job_request where
  "sample_start = \<lparr>sj_job_id = Some (PluginJobId sample_job), sj_deadline = None,
     sj_invocation = Some (ActionInvocation \<lparr>inv_action = ''run'', inv_arguments = []\<rparr>)\<rparr>"

definition sample_cancel :: cancel_job_request where
  "sample_cancel = \<lparr>cj_job_id = Some (PluginJobId sample_job), cj_reason = 1\<rparr>"

definition sample_acceptance :: plugin_envelope where
  "sample_acceptance =
     sample_envelope 1 (Some 5) (PJobAccepted \<lparr>ja_job_id = Some (PluginJobId sample_job)\<rparr>)"

definition sample_acknowledgement :: plugin_envelope where
  "sample_acknowledgement =
     sample_envelope 2 (Some 6) (PCancelJobAcknowledged \<lparr>cja_job_id = Some (PluginJobId sample_job)\<rparr>)"

definition sample_withdrawal :: pending_cancellation where
  "sample_withdrawal =
     \<lparr>pc_reply_to = 6, pc_trace = sample_trace, pc_job_id = PluginJobId sample_job\<rparr>"

definition sample_task :: "task_state \<Rightarrow> nat job_task" where
  "sample_task state = \<lparr>jt_job_id = sample_job, jt_controller = 0,
     jt_action = \<lparr>ra_description = ''runs'', ra_handler = 0\<rparr>,
     jt_context = \<lparr>ac_job_id = sample_job, ac_deadline = None, ac_trace = sample_trace,
       ac_parent_call_id = 5\<rparr>,
     jt_arguments = [], jt_state = state\<rparr>"

definition sample_state ::
  "plugin_envelope list \<Rightarrow> u8 \<Rightarrow> task_state \<Rightarrow> pending_cancellation list \<Rightarrow> nat job_manager" where
  "sample_state es word state cs = sample_manager
     \<lparr>jm_host := sample_host es, jm_tokens := [word], jm_tasks := [sample_task state],
      jm_active := [(sample_job,
        \<lparr>aj_controller = 0, aj_trace = sample_trace, aj_cancellations = cs\<rparr>)]\<rparr>"

definition sample_over :: "nat job_manager" where
  "sample_over = sample_manager
     \<lparr>jm_host := sample_host [sample_acceptance, sample_acknowledgement], jm_tokens := [CANCELLED],
      jm_tasks := [], jm_active := []\<rparr>"

lemma sample_host_wire [simp]: "client_wire (sample_host es) = es"
  by (simp add: sample_host_def sample_client_def new_host_client_def wire_envelopes_def comp_def)

lemma sample_client_eq: "sample_client = sample_host []"
  by (simp add: sample_host_def sample_client_def new_host_client_def sample_sender_def new_sender_def)

lemma sample_sends:
  "send reply sample_trace payload (hc_sender (sample_host [])) =
     (Inr 1, hc_sender (sample_host [sample_envelope 1 reply payload]))"
  "send reply sample_trace payload (hc_sender (sample_host [e])) =
     (Inr 2, hc_sender (sample_host [e, sample_envelope 2 reply payload]))"
  by (simp_all add: send_eq exhausted_def checked_add_def sample_host_def sample_client_def
      new_host_client_def sample_sender_def new_sender_def sample_envelope_def)

lemma sample_host_sender [simp]:
  "(sample_host es)\<lparr>hc_sender := hc_sender (sample_host fs)\<rparr> = sample_host fs"
  by (simp add: sample_host_def)

lemma sample_job_valid: "validate_job_id sample_uuid_parser (Some (PluginJobId sample_job)) = Inr sample_job"
  by (simp add: validate_job_id_Inr_iff sample_uuid)

lemmas sample_run_defs = hm_empty_def hm_get_def hm_contains_key_def hm_insert_def hm_remove_def
  hm_len_def sample_manager_def new_job_manager_def sample_actions_def sample_state_def
  sample_over_def sample_task_def

lemma sample_starts:
  "jobs_start sample_uuid_parser 5 sample_trace sample_start sample_manager =
     (Inr (), sample_state [sample_acceptance] ACTIVE Running [])"
  by (simp add: jobs_start_def sample_start_def sample_job_valid optional_timestamp_def send_from_def
      sample_sends sample_client_eq sample_acceptance_def sample_run_defs Let_def)

lemma sample_cancels:
  "jobs_cancel sample_uuid_parser 6 sample_trace sample_cancel
     (sample_state [sample_acceptance] ACTIVE Running []) =
     (Inr (), sample_state [sample_acceptance] CANCELLED Running [sample_withdrawal])"
  by (simp add: jobs_cancel_def sample_cancel_def sample_job_valid cancellation_reason_def
      fire_token_def cancel_def compare_exchange_def sample_withdrawal_def sample_run_defs Let_def)

definition sample_action :: "action_future caught" where
  "sample_action = NoPanic (\<lambda>_. NoPanic (Some (Inr empty_result)))"

lemma sample_action_result: "run_action sample_action = Some (Inr empty_result)"
  using executor.loop_first [of "\<lambda>_. NoPanic (Some (Inr empty_result))" 0 0]
  by (simp add: sample_action_def run_action_def action_pass_def)

lemma sample_ends:
  "task_ends 0 sample_action (sample_state [sample_acceptance] CANCELLED Running [sample_withdrawal]) =
     Some (sample_state [sample_acceptance] CANCELLED (Completed (Inr empty_result)) [sample_withdrawal])"
  by (simp add: task_ends_def sample_action_result fire_token_def finish_def compare_exchange_def
      state_words sample_run_defs)

definition sample_finished :: finished_action where
  "sample_finished = \<lparr>fa_job_id = sample_job, fa_output = Inr empty_result\<rparr>"

definition sample_joined :: "nat job_manager" where
  "sample_joined =
     (sample_state [sample_acceptance] CANCELLED Running [sample_withdrawal])\<lparr>jm_tasks := []\<rparr>"

lemma sample_joins:
  "jobs_join_next 0
     (sample_state [sample_acceptance] CANCELLED (Completed (Inr empty_result)) [sample_withdrawal]) =
     Joins (Inr sample_finished, sample_joined)"
  by (simp add: jobs_join_next_def remove_nth_def sample_finished_def sample_joined_def
      sample_run_defs Let_def)

lemma sample_settles: "jobs_settle (\<lambda>_ h. h) sample_finished sample_joined = Some (Inr (), sample_over)"
  by (simp add: jobs_settle_def sample_finished_def sample_joined_def send_cancellation_acknowledgement_def
      send_from_def sample_sends sample_withdrawal_def sample_acknowledgement_def sample_run_defs Let_def)

lemma sample_shuts:
  "jobs_shutdown (\<lambda>m. m) (\<lambda>_ h. h)
     (sample_state [sample_acceptance] CANCELLED Running [sample_withdrawal]) = (Inr (), sample_over)"
  by (simp add: jobs_shutdown_def fire_token_def cancel_def finish_def compare_exchange_def state_words
      send_cancellation_acknowledgement_def send_from_def sample_sends sample_withdrawal_def
      sample_acknowledgement_def sample_run_defs Let_def)

lemma orderly_id: "orderly (\<lambda>_ h. h)"
  by (simp add: orderly_def)

lemma sample_host_of:
  "jm_host sample_manager = sample_host []"
  "jm_host (sample_state es word state cs) = sample_host es"
  "jm_host sample_over = sample_host [sample_acceptance, sample_acknowledgement]"
  by (simp_all add: sample_run_defs sample_client_eq)

text \<open>The run to the job's settlement.\<close>

lemma sample_run_started:
  "run (jobs_step sample_uuid_parser) sample_manager
     [(Admit 5 sample_job, [sample_acceptance]), (Withdraw sample_withdrawal, [])]
     (sample_state [sample_acceptance] CANCELLED Running [sample_withdrawal])"
proof -
  have "jobs_step sample_uuid_parser sample_manager (Admit 5 sample_job, [sample_acceptance])
      (sample_state [sample_acceptance] ACTIVE Running [])"
    by (rule step_start [OF sample_starts]) (simp_all add: sample_start_def sample_host_of)
  moreover have "jobs_step sample_uuid_parser (sample_state [sample_acceptance] ACTIVE Running [])
      (Withdraw sample_withdrawal, []) (sample_state [sample_acceptance] CANCELLED Running [sample_withdrawal])"
    unfolding sample_withdrawal_def
    by (rule step_cancel [OF sample_cancels [unfolded sample_withdrawal_def]])
      (simp_all add: sample_cancel_def sample_host_of)
  ultimately show ?thesis
    by (intro run_cons [where step = "jobs_step sample_uuid_parser"]
        run_single [where step = "jobs_step sample_uuid_parser"])
qed

definition sample_labels :: "(job_request \<times> plugin_envelope list) list" where
  "sample_labels = [(Admit 5 sample_job, [sample_acceptance]), (Withdraw sample_withdrawal, []),
     (Other, []), (Conclude sample_job, [sample_acknowledgement])]"

lemma sample_run: "run (jobs_step sample_uuid_parser) sample_manager sample_labels sample_over"
proof -
  let ?ended = "sample_state [sample_acceptance] CANCELLED (Completed (Inr empty_result)) [sample_withdrawal]"
  have ends: "jobs_step sample_uuid_parser
      (sample_state [sample_acceptance] CANCELLED Running [sample_withdrawal]) (Other, []) ?ended"
    by (rule step_task_ends [OF sample_ends])
      (simp add: sample_action_result identified_def empty_result_def)
  have "jobs_step sample_uuid_parser ?ended (Conclude (fa_job_id sample_finished), [sample_acknowledgement])
      sample_over"
    by (rule step_finish [OF sample_joins orderly_id sample_settles]) (simp add: sample_host_of)
  then have "jobs_step sample_uuid_parser ?ended (Conclude sample_job, [sample_acknowledgement]) sample_over"
    by (simp add: sample_finished_def)
  with run_snoc [OF run_snoc [OF sample_run_started ends]] show ?thesis
    by (simp add: sample_labels_def)
qed

lemma sample_withdrawn_inv:
  "jobs_inv [] (sample_state [sample_acceptance] CANCELLED Running [sample_withdrawal])"
  by (rule jobs.run_inv [OF sample_run_started sample_manager_inv])

end
