(* ===== verification/Claims_Jobs.thy ===== *)
theory Claims_Jobs
  imports Sample_Runs
begin

text \<open>
  Properties of the job manager, of runs of its steps interleaved with its tasks in any
  order, and of its single operations.
\<close>

section \<open>Runs\<close>

text \<open>C2. The manager implements the job ledger: every run of its steps is, message by
  message, a run of the ledger over the active jobs and the answers they are owed, and the
  wire holds exactly what the steps sent.\<close>

theorem jobs_refine_the_ledger:
  assumes "jobs_inv [] jm" and "run (jobs_step parse_uuid) jm ls jm'"
  shows "run (ledger_step (unat (jm_maximum jm))) (abs_jobs jm) (map abs_label ls) (abs_jobs jm') \<and>
    client_wire (jm_host jm') = client_wire (jm_host jm) @ all_outputs ls"
  using jobs_run_refines(1) [OF assms(2,1)] jobs_run_wire [OF assms(2)] by blast

theorem jobs_refine_the_ledger_witness:
  "client_wire (jm_host sample_over) = [sample_acceptance, sample_acknowledgement]"
  using jobs_refine_the_ledger [OF sample_manager_inv sample_run]
  by (simp add: sample_labels_def all_outputs_def sample_host_of)

text \<open>C12. There are never more jobs than the configured maximum, and as many tasks as jobs,
  each with a job ID of its own: the \<open>expect\<close> of \<open>join_next\<close> and of \<open>settle\<close> hold.\<close>

theorem jobs_stay_within_capacity:
  assumes "client_inv host"
    and "run (jobs_step parse_uuid) (new_job_manager actions maximum host) ls jm"
  shows "hm_len (jm_active jm) \<le> unat maximum \<and> length (jm_tasks jm) = hm_len (jm_active jm) \<and>
    distinct (map jt_job_id (jm_tasks jm)) \<and>
    set (map jt_job_id (jm_tasks jm)) = dom (hm_get (jm_active jm))"
proof -
  note start = new_job_manager_inv [OF assms(1), of actions maximum]
  have "jobs_inv [] jm" by (rule jobs.run_inv [OF assms(2) start])
  moreover have "jm_maximum jm = maximum"
    using jobs_run_refines(2) [OF assms(2) start] by (simp add: new_job_manager_def)
  moreover have "length (jm_tasks jm) = card (set (map jt_job_id (jm_tasks jm)))"
    using \<open>jobs_inv [] jm\<close> distinct_card [of "map jt_job_id (jm_tasks jm)"] by (simp add: jobs_inv_def)
  moreover have "card (dom (hm_get (jm_active jm))) = hm_len (jm_active jm)"
    using \<open>jobs_inv [] jm\<close> by (simp add: jobs_inv_def hm.len_card)
  ultimately show ?thesis by (simp add: jobs_inv_def)
qed

theorem jobs_stay_within_capacity_witness:
  "hm_len (jm_active (sample_state [sample_acceptance] CANCELLED Running [sample_withdrawal])) \<le> 1"
  using jobs_stay_within_capacity [OF sample_client_inv
      sample_run_started [unfolded sample_manager_def]]
  by simp

text \<open>C3. Every cancellation request is acknowledged exactly once, with its own reply ID,
  trace and job: what was acknowledged and what is still owed make up what was requested.\<close>

theorem cancellations_are_acknowledged_once:
  assumes "jobs_inv [] jm" and "run (jobs_step parse_uuid) jm ls jm'"
  shows "acknowledged (outputs (all_outputs ls)) + owed (abs_jobs jm') =
    owed (abs_jobs jm) + withdrawn ls"
proof -
  have "ledger_inv (unat (jm_maximum jm)) (abs_jobs jm)"
    using assms(1) card_abs_jobs [of jm]
    by (simp add: ledger_inv_def jobs_inv_def dom_abs_jobs hm.finite_dom)
  from ledger_run_owed [OF jobs_run_refines(1) [OF assms(2,1)] this] show ?thesis
    by (simp add: all_outputs_abs withdrawn_abs)
qed

theorem cancellations_are_acknowledged_once_witness:
  "acknowledged (outputs [sample_acceptance, sample_acknowledgement]) + owed (abs_jobs sample_over) =
     owed (abs_jobs sample_manager) + {#sample_withdrawal#}"
  using cancellations_are_acknowledged_once [OF sample_manager_inv sample_run]
  by (simp add: sample_labels_def all_outputs_def)

text \<open>C13. A terminal update answers an acceptance: no job is updated more often than it was
  accepted, and an accepted job that is still active leaves room for one update.\<close>

theorem updates_answer_acceptances:
  assumes "client_inv host"
    and "run (jobs_step parse_uuid) (new_job_manager actions maximum host) ls jm"
  shows "updated_count j (outputs (all_outputs ls)) +
      (if hm_get (jm_active jm) j = None then 0 else 1) \<le>
    accepted_count j (outputs (all_outputs ls))"
proof -
  note start = new_job_manager_inv [OF assms(1), of actions maximum]
  have "active_count j (abs_jobs (new_job_manager actions maximum host)) = 0"
    by (simp add: active_count_def dom_abs_jobs new_job_manager_def hm.get_empty domIff)
  moreover have "active_count j (abs_jobs jm) = (if hm_get (jm_active jm) j = None then 0 else 1)"
    by (auto simp: active_count_def dom_abs_jobs)
  ultimately show ?thesis
    using ledger_run_counts [OF jobs_run_refines(1) [OF assms(2) start], of j]
    by (simp add: all_outputs_abs)
qed

theorem updates_answer_acceptances_witness:
  "updated_count sample_job (outputs [sample_acceptance, sample_acknowledgement]) \<le>
     accepted_count sample_job (outputs [sample_acceptance, sample_acknowledgement])"
  using updates_answer_acceptances [OF sample_client_inv sample_run [unfolded sample_manager_def],
      of sample_job]
  by (simp add: sample_labels_def all_outputs_def)

section \<open>Single operations\<close>

text \<open>C9. When an action has ended, a cancellation that arrived before its output was queued
  wins: all its requests are acknowledged in order and there is no update; otherwise there
  is exactly one update. Either way the job is gone.\<close>

theorem cancellation_wins_until_settled:
  assumes "hm_get (jm_active jm) (fa_job_id f) = Some job" and "identified (fa_output f)"
    and "orderly world" and "jobs_settle world f jm = Some (Inr (), jm')"
  shows "emits (if aj_cancellations job = [] then [OutUpdated (fa_job_id f)]
      else map OutAcknowledged (aj_cancellations job)) (jm_host jm) (jm_host jm') \<and>
    hm_get (jm_active jm') = (hm_get (jm_active jm))(fa_job_id f := None)"
  using assms(1-3)
proof (cases rule: jobs_settle_cases)
  case (failed e hc)
  with assms(4) show ?thesis by simp
next
  case (updated hc)
  with assms(4) show ?thesis by (auto simp: hm.get_remove hm.get_insert)
next
  case (acknowledged hc)
  with assms(4) show ?thesis by (auto simp: hm.get_remove hm.get_insert)
qed

theorem cancellation_wins_until_settled_witness:
  "emits [OutAcknowledged sample_withdrawal] (jm_host sample_joined) (jm_host sample_over)"
  using cancellation_wins_until_settled [OF _ _ orderly_id sample_settles]
  by (simp add: sample_joined_def sample_finished_def sample_state_def hm_get_def identified_def
      empty_result_def)

text \<open>C27. Every output of an action has a terminal update, with no panic: it succeeds exactly
  when the output is a result that can go on the wire, and otherwise fails with a specified
  error and nothing else. The hypothesis holds of every result built from stored artifacts.\<close>

theorem terminal_updates_are_complete:
  assumes "identified out"
  shows "\<exists>update. terminal_update jid out = Some update \<and>
    ju_job_id update = Some (PluginJobId jid) \<and>
    (case out of
       Inr result \<Rightarrow>
         (case into_wire result jid of
            Some (Inr (v, artifacts)) \<Rightarrow>
              ju_state update = job_state_i32 StateSucceeded \<and> ju_error update = None \<and>
              ju_result update = v \<and> ju_artifacts update = artifacts
          | _ \<Rightarrow> ju_state update = job_state_i32 StateFailed)
     | Inl _ \<Rightarrow> ju_state update = job_state_i32 StateFailed) \<and>
    (ju_state update = job_state_i32 StateFailed \<longrightarrow>
       ju_result update = None \<and> ju_artifacts update = [] \<and>
       (\<exists>pe. ju_error update = Some pe \<and> validate_protocol_error pe = Inr ()))"
proof (cases out)
  case (Inl e)
  with outbound_error_valid [of e] show ?thesis by (auto simp: terminal_update_def)
next
  case (Inr result)
  with assms into_wire_total [of result jid] obtain wire where wire: "into_wire result jid = Some wire"
    by (auto simp: identified_def)
  show ?thesis
  proof (cases wire)
    case (Inl e)
    with wire Inr outbound_error_valid [of e] show ?thesis by (auto simp: terminal_update_def)
  next
    case wired: (Inr va)
    obtain v artifacts where "va = (v, artifacts)" by (cases va)
    with wire Inr wired show ?thesis by (simp add: terminal_update_def)
  qed
qed

theorem terminal_updates_are_complete_witness:
  "\<exists>update. terminal_update sample_job (Inr empty_result) = Some update \<and>
     ju_state update = job_state_i32 StateSucceeded"
proof -
  have "identified (Inr empty_result)" by (simp add: identified_def empty_result_def)
  from terminal_updates_are_complete [OF this, of sample_job] show ?thesis
    by (auto simp: into_wire_def empty_result_def)
qed

text \<open>C26. Running an action returns exactly when its handler panics or some poll of its
  future is ready or panics. It returns what the first such poll says, and a panic as the
  action's error.\<close>

theorem actions_return_or_wait:
  "run_action called = Some out \<longleftrightarrow>
     (case called of
        Panic payload \<Rightarrow> out = Inl (action_panic payload)
      | NoPanic future \<Rightarrow>
          \<exists>n. list_all (\<lambda>i. future i = NoPanic None) [0..<n] \<and>
            (future n = NoPanic (Some out) \<or>
             (\<exists>payload. future n = Panic payload \<and> out = Inl (action_panic payload))))"
proof (cases called)
  case (NoPanic future)
  have pass: "action_pass future n = Some out \<longleftrightarrow> future n = NoPanic (Some out) \<or>
      (\<exists>payload. future n = Panic payload \<and> out = Inl (action_panic payload))" for n
    by (auto simp: action_pass_def split: caught.splits)
  have waits: "action_pass future i = None \<longleftrightarrow> future i = NoPanic None" for i
    by (auto simp: action_pass_def split: caught.splits)
  show ?thesis
    unfolding NoPanic run_action_def caught.case executor.loop_start_Some_iff pass waits
    by (simp add: list_all_iff Ball_def conj_commute)
qed (auto simp: run_action_def)

lemma fired_stays:
  assumes "\<And>w. w \<noteq> ACTIVE \<Longrightarrow> fst (fire w) \<noteq> ACTIVE" and "k < length tokens" and "tokens ! k \<noteq> ACTIVE"
  shows "fold (\<lambda>x. fire_token fire (g x)) xs tokens ! k \<noteq> ACTIVE"
  using assms(2,3)
proof (induction xs arbitrary: tokens)
  case (Cons x xs)
  have "fire_token fire (g x) tokens ! k \<noteq> ACTIVE"
    using Cons.prems assms(1) by (cases "g x = k") (simp_all add: fire_token_def)
  with Cons show ?case by simp
qed simp

lemma cancelled_all:
  assumes "x \<in> set xs" and "g x < length tokens"
  shows "fold (\<lambda>x. fire_token cancel (g x)) xs tokens ! g x \<noteq> ACTIVE"
  using assms
proof (induction xs arbitrary: tokens)
  case (Cons y ys)
  show ?case
  proof (cases "x \<in> set ys")
    case True
    with Cons show ?thesis by simp
  next
    case False
    with Cons.prems have "x = y" by simp
    then show ?thesis
      using Cons.prems(2) fired_stays [of cancel "g x" "fire_token cancel (g x) tokens" g ys]
      by (simp add: fire_token_nth cancel_word)
  qed
qed simp

lemma length_fold_fire [simp]: "length (fold (\<lambda>x. fire_token fire (g x)) xs tokens) = length tokens"
  by (induction xs arbitrary: tokens) simp_all

text \<open>C14. A shutdown that succeeds answers everything that was owed, and nothing else: every
  outstanding cancellation request is acknowledged, no job is updated, no job or task is
  left, and every job's state word has left \<open>ACTIVE\<close>.\<close>

theorem shutdown_settles_everything:
  assumes "jobs_inv [] jm" and "hash_order iter" and "orderly world"
    and "jobs_shutdown iter world jm = (Inr (), jm')"
  shows "(\<exists>cs. emits (map OutAcknowledged cs) (jm_host jm) (jm_host jm') \<and> mset cs = owed (abs_jobs jm)) \<and>
    jm_active jm' = hm_empty \<and> jm_tasks jm' = [] \<and>
    (case hm_get (jm_active jm) j of
       Some job \<Rightarrow> jm_tokens jm' ! aj_controller job \<noteq> ACTIVE
     | None \<Rightarrow> True)"
  using assms(4,3)
proof (cases rule: jobs_shutdown_cases)
  case (closed hc cs)
  have "jm_tokens jm' ! aj_controller job \<noteq> ACTIVE" if "hm_get (jm_active jm) j = Some job" for job
  proof -
    have "job \<in> set (map snd (iter (jm_active jm)))"
      using that hash_order_set [OF assms(2), of "jm_active jm"]
      by (force simp: hm_get_def dest: map_of_SomeD)
    moreover have "aj_controller job < length (jm_tokens jm)"
      using assms(1) that by (auto simp: jobs_inv_def own_tokens_def)
    ultimately show ?thesis
      unfolding closed(8) by (intro fired_stays cancelled_all) (simp_all add: finish_word)
  qed
  moreover have "mset cs = owed (abs_jobs jm)"
    using assms(1) owed_abs_jobs [OF _ assms(2), of jm] closed(6) by (simp add: jobs_inv_def)
  ultimately show ?thesis using closed by (auto split: option.splits)
qed simp

theorem shutdown_settles_everything_witness:
  "\<exists>cs. emits (map OutAcknowledged cs)
       (jm_host (sample_state [sample_acceptance] CANCELLED Running [sample_withdrawal]))
       (jm_host sample_over) \<and>
     mset cs = owed (abs_jobs (sample_state [sample_acceptance] CANCELLED Running [sample_withdrawal]))"
  using shutdown_settles_everything [OF sample_withdrawn_inv hash_order_id orderly_id sample_shuts]
  by blast

end
