(* ===== verification/Sample_Session.thy ===== *)
theory Sample_Session
  imports Samples
begin

text \<open>
  A session from the host's first message to its last: the handshake, a heartbeat, and a
  shutdown that the plugin acknowledges.
\<close>

definition sample_plugin :: "nat plugin" where
  "sample_plugin = \<lparr>pl_plugin_id = ''org.example.echo'', pl_version = ''1'',
     pl_actions = sample_actions, pl_maximum_concurrent_jobs = 1\<rparr>"

definition sample_hello :: host_hello where
  "sample_hello = \<lparr>hh_node = Some \<lparr>node_id = Some (NodeId sample_job), node_name = Some (NodeName ''node'')\<rparr>,
     hh_maximum_call_depth = 8, hh_maximum_causal_depth = 8,
     hh_maximum_artifact_chunk_bytes = 65536,
     hh_plugin_id = Some (PluginId ''org.example.echo''), hh_plugin_name = Some (PluginName ''echo'')\<rparr>"

definition from_host :: "u64 \<Rightarrow> payload \<Rightarrow> plugin_envelope" where
  "from_host mid payload = seal_envelope sample_identity mid None sample_trace payload"

definition sample_time :: timestamp where
  "sample_time = \<lparr>ts_seconds = 0, ts_nanos = 0\<rparr>"

definition sample_shutdown :: shutdown_request where
  "sample_shutdown = \<lparr>sd_reason = ''stop'', sd_grace_period_deadline = Some sample_time\<rparr>"

definition sample_serve_env :: serve_env where
  "sample_serve_env = \<lparr>sn_iter = (\<lambda>m. m), sn_world = (\<lambda>_ h. h), sn_consumed = 0,
     sn_acknowledgment = Inr ()\<rparr>"

definition sample_turn :: "plugin_envelope \<Rightarrow> nat serve_turn" where
  "sample_turn e = ((\<lambda>jm. jm), sample_serve_env, MessageBranch (Inr (Some e)))"

definition sample_world :: "nat session_world" where
  "sample_world = \<lparr>sw_connected = Inr (), sw_opened = Inr (), sw_action_order = (\<lambda>m. m),
     sw_closed = (\<lambda>_. False),
     sw_first = Inr (Some (from_host 1 (PHostHello sample_hello))),
     sw_second = Inr (Some (from_host 2 PReady)),
     sw_turns = [sample_turn (from_host 3 (PHeartbeat \<lparr>hb_nonce = 7\<rparr>)),
       sample_turn (from_host 4 (PShutdown sample_shutdown))],
     sw_to_system_time = (\<lambda>_. Inr 0), sw_now = 0, sw_next_within = (\<lambda>_. None)\<rparr>"

lemma background_refl: "background p jm jm"
  unfolding background_def by (intro exI [of _ "[]"]) (simp add: run.run_nil)

lemma sample_turn_lawful: "lawful p (map sample_turn es)"
  unfolding lawful_def
  by (auto simp: sample_turn_def background_refl well_behaved_def sample_serve_env_def
      hash_order_id orderly_def)

lemma sample_world_lawful: "lawful p (sw_turns sample_world)"
  using sample_turn_lawful [of p "[from_host 3 (PHeartbeat \<lparr>hb_nonce = 7\<rparr>),
      from_host 4 (PShutdown sample_shutdown)]"]
  by (simp add: sample_world_def)

lemma sample_labels_valid: "valid_dns_label ''node''" "valid_dns_label ''echo''"
  by code_simp+

definition sample_session :: "u64 \<Rightarrow> session_state" where
  "sample_session n = \<lparr>st_identity = sample_identity, st_last_host_message_id = n,
     st_maximum_call_depth = 8, st_maximum_causal_depth = 8\<rparr>"

lemma sample_hello_ok:
  "check_hello sample_uuid_parser sample_plugin (sw_first sample_world) =
     Inr (sample_hello, sample_trace, sample_session 1)"
  unfolding check_hello_Inr_iff
  by (simp add: sample_world_def from_host_def seal_envelope_def sample_identity_def
      validate_host_hello_def sample_hello_def sample_uuid sample_labels_valid sample_plugin_def
      validate_trace_Inr_iff sample_trace_def sample_session_def)

text \<open>What the plugin says, and the session it leads to.\<close>

definition sample_announcement :: payload where
  "sample_announcement = PPluginHello (plugin_hello_for (\<lambda>m. m) sample_plugin ''echo'')"

definition sample_said :: "(u64 option \<times> payload) list" where
  "sample_said = [(None, sample_announcement), (None, PReady),
     (Some 3, PHeartbeat \<lparr>hb_nonce = 7\<rparr>), (Some 4, PShutdownAcknowledged)]"

definition sample_wire :: "plugin_envelope list" where
  "sample_wire = map2 (\<lambda>i (reply, payload). seal_envelope sample_identity i reply sample_trace payload)
     [1, 2, 3, 4] sample_said"

definition sample_spoken :: "nat \<Rightarrow> session_sender" where
  "sample_spoken n = \<lparr>ss_identity = sample_identity, ss_next_message_id = of_nat (n + 1),
     ss_wire = map (\<lambda>e. \<lparr>oe_envelope = e,
       oe_consumed = (if env_payload e = Some PShutdownAcknowledged then Some 0 else None)\<rparr>)
       (take n sample_wire),
     ss_closed = False\<rparr>"

lemmas sample_wire_defs = sample_wire_def sample_said_def seal_envelope_def

lemma sample_spoken_sends:
  "send None sample_trace sample_announcement (new_sender sample_identity) = (Inr 1, sample_spoken 1)"
  "send None sample_trace PReady (sample_spoken 1) = (Inr 2, sample_spoken 2)"
  "send (Some 3) sample_trace (PHeartbeat \<lparr>hb_nonce = 7\<rparr>) (sample_spoken 2) = (Inr 3, sample_spoken 3)"
  "send_and_wait_for_consumption 0 (Inr ()) (Some 4) sample_trace PShutdownAcknowledged (sample_spoken 3) =
     (Inr 4, sample_spoken 4)"
  by (simp_all add: send_and_wait_for_consumption_def send_eq exhausted_def checked_add_def
      new_sender_def sample_spoken_def sample_wire_defs sample_announcement_def)

definition sample_spoken_host :: "nat \<Rightarrow> host_client" where
  "sample_spoken_host n = new_host_client (sample_spoken n) ''session'' 65536 8"

lemma sample_accepts:
  "n < mid \<Longrightarrow> validate_envelope (from_host mid payload) (sample_session n) =
     (Inr sample_trace, sample_session mid)"
  unfolding validate_envelope_Inr_iff
  by (simp add: acceptable_def from_host_def seal_envelope_def sample_session_def sample_identity_def
      sample_trace_def)

lemma sample_handshake:
  "handshake sample_uuid_parser (\<lambda>m. m) (\<lambda>_. False) sample_plugin
     (sw_first sample_world) (sw_second sample_world) =
     Some (Inr (sample_session 2, sample_spoken_host 2), Some (sample_spoken 2))"
proof -
  have "receive (sw_second sample_world) (sample_session 1) = (Inr (from_host 2 PReady), sample_session 2)"
    by (simp add: receive_def sample_world_def sample_accepts word_less_nat_alt)
  moreover have "hh_plugin_name sample_hello = Some (PluginName ''echo'')"
    "hh_maximum_artifact_chunk_bytes sample_hello = 65536" "hh_maximum_call_depth sample_hello = 8"
    by (simp_all add: sample_hello_def)
  moreover have "st_identity (sample_session n) = sample_identity"
    "si_session_id sample_identity = ''session''" for n
    by (simp_all add: sample_session_def sample_identity_def)
  moreover have "(new_sender sample_identity)\<lparr>ss_closed := False\<rparr> = new_sender sample_identity"
    "(sample_spoken 1)\<lparr>ss_closed := False\<rparr> = sample_spoken 1"
    by (simp_all add: new_sender_def sample_spoken_def)
  moreover have "reply_to (from_host 2 PReady) = None" "env_trace (from_host 2 PReady) = Some sample_trace"
    "env_payload (from_host 2 PReady) = Some PReady"
    by (simp_all add: from_host_def seal_envelope_def)
  ultimately show ?thesis
    by (simp add: handshake_def sample_hello_ok sample_spoken_sends [unfolded sample_announcement_def]
        sample_spoken_host_def Let_def del: One_nat_def)
qed

definition sample_serving :: "nat \<Rightarrow> u64 \<Rightarrow> nat serve_state" where
  "sample_serving n heard = \<lparr>sv_jobs = new_job_manager sample_actions 1 (sample_spoken_host n),
     sv_session = sample_session heard\<rparr>"

lemma sample_host_speaks:
  "(sample_spoken_host n)\<lparr>hc_sender := sample_spoken k\<rparr> = sample_spoken_host k"
  "hc_sender (sample_spoken_host n) = sample_spoken n"
  by (simp_all add: sample_spoken_host_def new_host_client_def)

lemma sample_heartbeat_step:
  "serve_step p sample_serve_env (MessageBranch (Inr (Some (from_host 3 (PHeartbeat \<lparr>hb_nonce = 7\<rparr>)))))
     (sample_serving 2 2) = Some (Inr Continue, sample_serving 3 3)"
  using sample_accepts [of 2 3 "PHeartbeat \<lparr>hb_nonce = 7\<rparr>"]
  by (simp add: serve_step_def handle_message_def sample_serving_def handle_request_def on_jobs_def
      send_from_def new_job_manager_def sample_host_speaks sample_spoken_sends from_host_def
      seal_envelope_def word_less_nat_alt)

lemma sample_shutdown_step:
  "serve_step p sample_serve_env (MessageBranch (Inr (Some (from_host 4 (PShutdown sample_shutdown)))))
     (sample_serving 3 3) = Some (Inr (Stop sample_time), sample_serving 4 4)"
proof -
  have "validate_shutdown sample_shutdown = Inr sample_time"
    by (simp add: validate_shutdown_def sample_shutdown_def validate_timestamp_def option_filter_def
        valid_timestamp_def sample_time_def value_limits)
  with sample_accepts [of 3 4 "PShutdown sample_shutdown"] show ?thesis
    by (simp add: serve_step_def handle_message_def sample_serving_def handle_request_def
        handle_shutdown_def jobs_shutdown_def new_job_manager_def sample_host_speaks
        sample_spoken_sends from_host_def seal_envelope_def word_less_nat_alt sample_serve_env_def
        hm_empty_def)
qed

lemma sample_served:
  "serve p (sw_turns sample_world) (sample_serving 2 2) = (Stopped sample_time, sample_serving 4 4)"
  by (simp add: sample_world_def sample_turn_def sample_heartbeat_step sample_shutdown_step
      sample_serving_def [symmetric])

lemma sample_run_session:
  "run_session sample_uuid_parser sample_world sample_plugin = (Ended (Inr ()), sample_wire)"
proof -
  have "sw_connected sample_world = Inr ()" "sw_opened sample_world = Inr ()"
    "sw_action_order sample_world = (\<lambda>m. m)" "sw_closed sample_world = (\<lambda>_. False)"
    "wait_for_host_close (sw_to_system_time sample_world) (sw_now sample_world)
       (sw_next_within sample_world) sample_time = Inr ()"
    by (simp_all add: sample_world_def wait_for_host_close_def)
  moreover have "initial_serve_state sample_plugin (sample_session 2) (sample_spoken_host 2) =
      sample_serving 2 2"
    by (simp add: initial_serve_state_def sample_plugin_def sample_serving_def)
  moreover have "client_wire (jm_host (sv_jobs (sample_serving 4 4))) = sample_wire"
    by (simp add: sample_serving_def new_job_manager_def sample_host_speaks sample_spoken_def
        wire_envelopes_def comp_def sample_wire_def sample_said_def)
  ultimately show ?thesis
    using sample_handshake sample_served [of sample_uuid_parser] by (simp add: run_session_def)
qed

end
