(* ===== verification/Claims_Session.thy ===== *)
theory Claims_Session
  imports Sample_Session
begin

text \<open>
  Properties of a whole session: the handshake, the loop, the shutdown, and the watcher of
  the parent process.
\<close>

section \<open>The handshake\<close>



text \<open>C38. A handshake that fails has said nothing before the host's hello was accepted, and
  at most its own hello after.\<close>

theorem failed_handshakes_stay_silent:
  assumes "handshake parse_uuid iter closed plugin first second = Some (Inl e, sender)"
  shows "case sender of
      None \<Rightarrow> check_hello parse_uuid plugin first = Inl e
    | Some s \<Rightarrow> \<exists>hello trace session name.
        check_hello parse_uuid plugin first = Inr (hello, trace, session) \<and>
        (wire_envelopes s = [] \<or>
         wire_envelopes s = [seal_envelope (st_identity session) 1 None trace
           (PPluginHello (plugin_hello_for iter plugin name))])"
proof (cases "check_hello parse_uuid plugin first")
  case (Inl e')
  with assms show ?thesis by (simp add: handshake_def)
next
  case (Inr hts)
  obtain hello trace session where hts: "hts = (hello, trace, session)" by (cases hts)
  with Inr check_hello_named obtain name where name: "hh_plugin_name hello = Some (PluginName name)"
    by blast
  let ?s0 = "(new_sender (st_identity session))\<lparr>ss_closed := closed 0\<rparr>"
  let ?hello = "PPluginHello (plugin_hello_for iter plugin name)"
  obtain r1 s1 where send1: "send None trace ?hello ?s0 = (r1, s1)"
    by (cases "send None trace ?hello ?s0")
  then have s1: "wire_envelopes s1 = [] \<or>
      wire_envelopes s1 = [seal_envelope (st_identity session) 1 None trace ?hello]"
    and wire0: "wire_envelopes s1 = [] \<or> \<not> closed 0"
    by (auto simp: send_eq new_sender_def wire_envelopes_def split: if_splits)
  note eq = assms [unfolded handshake_def Inr hts sum.case prod.case name option.case Let_def
      plugin_name.sel, unfolded send1 prod.case]
  have silent: "wire_envelopes s2 = wire_envelopes s1"
    if "send None trace PReady (s1\<lparr>ss_closed := closed 1\<rparr>) = (Inl e2, s2)" for e2 s2
    using that by (auto simp: send_eq wire_envelopes_def split: if_splits)
  obtain s where sender: "sender = Some s" "wire_envelopes s = wire_envelopes s1"
    using eq silent by (auto split: sum.splits prod.splits if_splits)
  with s1 Inr hts show ?thesis by auto
qed

theorem failed_handshakes_stay_silent_witness:
  "\<exists>e. check_hello sample_uuid_parser sample_plugin (Inr None) = Inl e"
proof -
  have "handshake sample_uuid_parser (\<lambda>m. m) (\<lambda>_. False) sample_plugin (Inr None) (Inr None) =
      Some (Inl host_closed_stream, None)"
    by (simp add: handshake_def check_hello_def receive_initial_def)
  from failed_handshakes_stay_silent [OF this] show ?thesis by auto
qed

section \<open>Serving\<close>

text \<open>C25. As long as the loop runs, the envelopes it has taken from the host have strictly
  increasing IDs, above those of the handshake, and each carries this session's identity and
  a trace within the negotiated depths.\<close>

theorem host_messages_come_in_order:
  assumes "serve parse_uuid turns s = (Serving, s')"
  shows "sorted_wrt (<) (st_last_host_message_id (sv_session s) # map message_id (received turns)) \<and>
    list_all (\<lambda>e. \<exists>trace. acceptable (sv_session s) e trace) (received turns) \<and>
    st_last_host_message_id (sv_session s') =
      last (st_last_host_message_id (sv_session s) # map message_id (received turns))"
  using serve_accepts [OF assms] by (simp add: list_all_iff)

theorem host_messages_come_in_order_witness:
  "serve sample_uuid_parser [sample_turn (from_host 3 (PHeartbeat \<lparr>hb_nonce = 7\<rparr>))] (sample_serving 2 2) =
     (Serving, sample_serving 3 3) \<and> (2 :: u64) < 3"
proof -
  have served: "serve sample_uuid_parser [sample_turn (from_host 3 (PHeartbeat \<lparr>hb_nonce = 7\<rparr>))]
      (sample_serving 2 2) = (Serving, sample_serving 3 3)"
    using sample_heartbeat_step [of sample_uuid_parser] by (simp add: sample_turn_def sample_serving_def)
  from host_messages_come_in_order [OF this] served show ?thesis
    by (simp add: sample_turn_def sample_serving_def sample_session_def from_host_def seal_envelope_def)
qed

text \<open>A heartbeat is echoed at once: one envelope with the same nonce, in reply to the
  heartbeat and with its trace, and nothing else changes.\<close>

lemma heartbeats_are_echoed:
  assumes "serve_step parse_uuid env (MessageBranch (Inr (Some e))) s = Some (Inr flow, s')"
    and "reply_to e = None" and "env_payload e = Some (PHeartbeat heartbeat)"
  shows "\<exists>trace hc. env_trace e = Some trace \<and> flow = Continue \<and>
    sv_jobs s' = (sv_jobs s)\<lparr>jm_host := hc\<rparr> \<and>
    client_wire hc = client_wire (jm_host (sv_jobs s)) @
      [seal_envelope (client_identity (jm_host (sv_jobs s)))
         (ss_next_message_id (hc_sender (jm_host (sv_jobs s)))) (Some (message_id e)) trace
         (PHeartbeat heartbeat)]"
proof -
  from assms(1) have "handle_message parse_uuid env (Inr (Some e)) s = (Inr flow, s')"
    by (simp add: serve_step_def)
  from handle_message_ok [OF this] assms(2) obtain trace where trace: "acceptable (sv_session s) e trace"
    and request: "handle_request parse_uuid env (message_id e) trace (env_payload e)
         ((sv_session s)\<lparr>st_last_host_message_id := message_id e\<rparr>) (sv_jobs s) = (Inr flow, s')"
    by (metis Inr_inject option.inject option.distinct(1))
  from handle_request_ok [OF request] assms(3) have
    "flow = Continue" "send_from (Some (message_id e)) trace (PHeartbeat heartbeat) (sv_jobs s) =
       (Inr (), sv_jobs s')" by auto
  with heartbeat_emits [OF this(2)] trace show ?thesis by (auto simp: acceptable_def)
qed

end
