(* ===== verification/Claims_Parent.thy ===== *)
theory Claims_Parent
  imports Watcher
begin

text \<open>
  Properties of the watcher of the parent process: of its loop, of what the session's owner
  hears from it, and of stopping it.
\<close>

section \<open>The loop\<close>

text \<open>The watcher returns exactly when some pass of its loop is decisive, and what it
  returns is what the first decisive pass says: \<open>Ok\<close> at the stop flag or at the end of the
  pipe, an error for a failure that is not retried. Data on the pipe, timeouts, interrupted
  calls and spurious wake-ups keep it waiting.\<close>

lemma watcher_returns_when_decided:
  "watch_descriptor os 0 = Some result \<longleftrightarrow>
     (\<exists>n. list_all (\<lambda>k. descriptor_pass os k = None) [0..<n] \<and>
        (let p = os n in
           (result = Inr () \<and> (wp_stop p \<or> 0 < wp_ready p \<and> (wp_stop_after_poll p \<or> wp_read p = 0))) \<or>
           (\<not> wp_stop p \<and> wp_ready p < 0 \<and> io_kind (wp_poll_error p) \<noteq> Interrupted \<and>
              result = Inl (wp_poll_error p)) \<or>
           (\<not> wp_stop p \<and> 0 < wp_ready p \<and> \<not> wp_stop_after_poll p \<and> wp_read p < 0 \<and>
              io_kind (wp_read_error p) = OtherKind \<and> result = Inl (wp_read_error p))))"
  unfolding descriptor.loop_start_Some_iff descriptor_pass_decides
  by (simp add: list_all_iff Ball_def conj_commute)

lemma stopped_watchers_end:
  assumes "wp_stop (os k)"
  shows "(\<exists>m r. m \<le> k \<and> descriptor_pass os m = Some r \<and> watch_descriptor os 0 = Some r) \<and>
    watch_stdin os True = Some None"
  using descriptor_stops [of os k, OF assms] by (auto simp: watch_stdin_def report_def)

section \<open>The owner\<close>

text \<open>A pipe that stays open for two passes and is then closed by the other side.\<close>

definition sample_pipe :: "nat \<Rightarrow> watch_pass" where
  "sample_pipe k =
     \<lparr>wp_stop = False, wp_ready = (if k < 2 then 0 else 1),
      wp_poll_error = \<lparr>io_kind = OtherKind, io_text = ''poll''\<rparr>, wp_stop_after_poll = False,
      wp_read = 0, wp_read_error = \<lparr>io_kind = OtherKind, io_text = ''read''\<rparr>\<rparr>"

definition sample_watcher :: parent_liveness where
  "sample_watcher = \<lparr>lv_closed = Unsent, lv_stop = False, lv_thread = LoadStop 0,
     lv_owner = OwnerWaiting\<rparr>"

lemma sample_watcher_started: "started sample_watcher"
  by (simp add: started_def parent_start_def sample_watcher_def)

lemma sample_watcher_waits: "lv_owner sample_watcher = OwnerWaiting"
  by (simp add: sample_watcher_def)

lemma sample_pipe_decided: "descriptor_pass (unstopped sample_pipe) 2 \<noteq> None"
  by (simp add: descriptor_pass_def unstopped_def sample_pipe_def)

text \<open>C15. However the thread and its owner interleave, what \<open>wait\<close> returns is what the
  watcher's loop says of the pipe to the parent, on either target: never the effect of a
  stop, and never the error of a sender that is gone.\<close>

theorem parent_wait_tells_the_truth:
  assumes "started s" and "lv_owner t = OwnerWaited result"
    and "run (watcher_step target code closed) s ls t"
  shows "(code = descriptor_code os \<longrightarrow>
      (\<exists>r. watch_descriptor (unstopped os) 0 = Some r \<and> result = parent_wait (Inr r))) \<and>
    (code = portable_code reads \<longrightarrow>
      (\<exists>r. watch_portable (unstopped_reads reads) 0 = Some r \<and> result = parent_wait (Inr r)))"
  using assms unix_watcher.waited_for_the_verdict portable_watcher.waited_for_the_verdict by blast

theorem parent_wait_tells_the_truth_witness:
  "\<exists>ls t r. run (watcher_step Unix (descriptor_code sample_pipe) ''closed'') sample_watcher ls t \<and>
     lv_owner t = OwnerWaited (parent_wait (Inr r)) \<and>
     watch_descriptor (unstopped sample_pipe) 0 = Some r"
proof -
  obtain ls t r where
    ran: "run (watcher_step Unix (descriptor_code sample_pipe) ''closed'') sample_watcher ls t"
    and t: "lv_owner t = OwnerWaited (parent_wait (Inr r))"
    using watching_owner_hears [OF unix_watcher.started_inv [OF sample_watcher_started]
        sample_watcher_waits sample_pipe_decided] by blast
  from parent_wait_tells_the_truth [OF sample_watcher_started t ran] ran t show ?thesis
    by fastforce
qed

text \<open>C16. The end of the parent does not go unnoticed: while the owner waits and some pass
  decides, the thread sends within a number of its own steps that the pass bounds, and
  \<open>wait\<close> then returns the loop's result.\<close>

theorem parent_exit_is_noticed:
  assumes "started s" and "run (watcher_step target (descriptor_code os) closed) s ls t"
    and "lv_owner t = OwnerWaiting" and "descriptor_pass (unstopped os) n \<noteq> None"
  shows "\<exists>m u r. m \<le> 4 * n + 6 \<and>
    run (watcher_step target (descriptor_code os) closed) t (replicate m ThreadRuns @ [WaitReturns]) u \<and>
    watch_descriptor (unstopped os) 0 = Some r \<and> lv_owner u = OwnerWaited (parent_wait (Inr r))"
  using watching_owner_hears [OF unix_watcher.watcher.reachable_inv [OF assms(1,2)] assms(3,4)] .

theorem parent_exit_is_noticed_witness:
  "\<exists>m u r. m \<le> 14 \<and>
    run (watcher_step Unix (descriptor_code sample_pipe) ''closed'') sample_watcher
      (replicate m ThreadRuns @ [WaitReturns]) u \<and>
    watch_descriptor (unstopped sample_pipe) 0 = Some r \<and> lv_owner u = OwnerWaited (parent_wait (Inr r))"
  using parent_exit_is_noticed [OF sample_watcher_started run_nil sample_watcher_waits
      sample_pipe_decided] by simp

text \<open>C17. On \<open>unix\<close> a drop of the watcher returns, at whatever point its thread is and
  however the two interleave: at most four steps follow the store to the flag, and when
  none is left the thread has ended and the join has returned.\<close>

theorem watchers_can_be_dropped:
  assumes "run (watcher_step Unix (descriptor_code os) closed) (drop_parent Unix s) ls t"
  shows "length ls \<le> 4 \<and>
    ((\<exists>l u. watcher_step Unix (descriptor_code os) closed t l u) \<or>
     lv_owner t = OwnerDropped \<and> lv_thread t = ThreadEnded)"
proof -
  have "drop_inv (drop_parent Unix s)" by (simp add: drop_inv_def drop_parent_def)
  from drop_run [OF assms this]
  have t: "drop_inv t" and "length ls + steps_to_drop t \<le> steps_to_drop (drop_parent Unix s)"
    by simp_all
  then have "length ls \<le> 4" using steps_to_drop_le [of "drop_parent Unix s"] by simp
  with drop_stuck [OF t, of "descriptor_code os" closed] show ?thesis by blast
qed

theorem watchers_can_be_dropped_witness:
  "\<exists>l u. watcher_step Unix (descriptor_code sample_pipe) ''closed'' (drop_parent Unix sample_watcher) l u"
  using watchers_can_be_dropped [OF run_nil, of sample_pipe "''closed''" sample_watcher]
  by (simp add: drop_parent_def sample_watcher_def)

end
