(* ===== verification/Job_Lifecycle.thy ===== *)
theory Job_Lifecycle
  imports Jobs_Refinement
begin

text \<open>
  One job from its start to its settlement, undisturbed: the operations of the job manager
  and the end of the job's task in the order in which a session takes them. What the job
  says is its acceptance and one terminal update.
\<close>

definition run_one_job ::
  "uuid_parser \<Rightarrow> u64 \<Rightarrow> trace_context \<Rightarrow> start_job_request \<Rightarrow> action_future caught \<Rightarrow>
   'h job_manager \<Rightarrow> (unit sdk_result \<times> 'h job_manager) option" where
  "run_one_job parse_uuid mid trace req called jm =
     (case jobs_start parse_uuid mid trace req jm of
        (Inl e, jm1) \<Rightarrow> Some (Inl e, jm1)
      | (Inr _, jm1) \<Rightarrow>
          (case task_ends 0 called jm1 of
             None \<Rightarrow> None
           | Some jm2 \<Rightarrow>
               (case jobs_join_next 0 jm2 of
                  Joins (Inr finished, jm3) \<Rightarrow> jobs_settle (\<lambda>_ h. h) finished jm3
                | Joins (Inl e, jm3) \<Rightarrow> Some (Inl e, jm3)
                | _ \<Rightarrow> None)))"

definition start_request :: "string \<Rightarrow> string \<Rightarrow> string list \<Rightarrow> start_job_request" where
  "start_request jid name arguments =
     \<lparr>sj_job_id = Some (PluginJobId jid), sj_deadline = None,
      sj_invocation = Some (ActionInvocation \<lparr>inv_action = name, inv_arguments = arguments\<rparr>)\<rparr>"

text \<open>A sender with room for two more messages.\<close>

definition has_room :: "session_sender \<Rightarrow> bool" where
  "has_room s \<longleftrightarrow> \<not> ss_closed s \<and> unat (ss_next_message_id s) + 2 < 2 ^ 64"

lemma send_with_room:
  assumes "\<not> ss_closed s" and "unat (ss_next_message_id s) + 1 < 2 ^ 64"
  shows "send reply trace payload s = (Inr (ss_next_message_id s),
    s\<lparr>ss_next_message_id := ss_next_message_id s + 1,
      ss_wire := ss_wire s @ [\<lparr>oe_envelope = seal_envelope (ss_identity s) (ss_next_message_id s)
        reply trace payload, oe_consumed = None\<rparr>]\<rparr>)"
  using assms by (simp add: send_eq exhausted_def checked_add_def)

lemma room_after_send:
  assumes "has_room s"
  shows "unat (ss_next_message_id s) + 1 < 2 ^ 64"
    and "unat (ss_next_message_id s + 1) + 1 < 2 ^ 64"
  using assms by (auto simp: has_room_def unat_word_ariths)

lemma run_one_job_speaks:
  assumes "validate_job_id p (Some (PluginJobId jid)) = Inr jid"
    and "hm_get actions name = Some act" and "maximum \<noteq> 0" and "has_room (hc_sender host)"
    and "run_action called = Some out" and "terminal_update jid out = Some update"
  shows "\<exists>jm. run_one_job p mid trace (start_request jid name arguments) called
      (new_job_manager actions maximum host) = Some (Inr (), jm) \<and>
    client_wire (jm_host jm) = client_wire host @
      [seal_envelope (client_identity host) (ss_next_message_id (hc_sender host)) (Some mid) trace
         (PJobAccepted \<lparr>ja_job_id = Some (PluginJobId jid)\<rparr>),
       seal_envelope (client_identity host) (ss_next_message_id (hc_sender host) + 1) None trace
         (PJobUpdate update)] \<and>
    \<not> has_active_jobs jm \<and> jm_tasks jm = [] \<and> jm_tokens jm = [FINISHED]"
proof -
  note room = room_after_send [OF assms(4)]
  have "\<not> ss_closed (hc_sender host)" using assms(4) by (simp add: has_room_def)
  with assms room show ?thesis
    by (auto simp: run_one_job_def jobs_start_def start_request_def optional_timestamp_def
        new_job_manager_def send_from_def send_with_room task_ends_def jobs_join_next_def
        remove_nth_def jobs_settle_def fire_token_def finish_def compare_exchange_def
        has_active_jobs_def wire_envelopes_def hm_empty_def hm_get_def hm_contains_key_def
        hm_insert_def hm_remove_def hm_len_def Let_def unat_eq_zero)
qed

end
