(* ===== verification/Conformance_Plugin.thy ===== *)
theory Conformance_Plugin
  imports Task_Conduct Runtime Job_Lifecycle
begin

text \<open>
  \<open>tests/fixtures/conformance-plugin/src/main.rs\<close>: the plugin the host's conformance suite
  runs, the one program of the repository that is written against the SDK's public interface.
  It declares four actions. Their handlers are the constructors of \<open>conformance_action\<close>; what
  each of them does is a function over the operations of the action context.
\<close>

section \<open>Values\<close>

definition string_value :: "string \<Rightarrow> config_value" where
  "string_value value = ConfigValue (Some (StringValue value))"

definition config_string :: "config_value \<Rightarrow> string option" where
  "config_string value =
     (case cv_kind value of Some (StringValue s) \<Rightarrow> Some s | _ \<Rightarrow> None)"

text \<open>\<open>[String]::join\<close>.\<close>

fun join_with :: "string \<Rightarrow> string list \<Rightarrow> string" where
  "join_with separator [] = []"
| "join_with separator [s] = s"
| "join_with separator (s # t # ss) = s @ separator @ join_with separator (t # ss)"

definition byte_string :: "string \<Rightarrow> bytes" where
  "byte_string s = map of_char s"

section \<open>The actions\<close>

definition echo_action :: "string list \<Rightarrow> action_result sdk_result" where
  "echo_action arguments = value_result (string_value (join_with '' '' arguments))"

text \<open>
  The future of \<open>wait\<close> is ready at the first poll that sees another state word than
  \<open>ACTIVE\<close>: that is when \<open>cancelled()\<close> is (\<^theory_text>\<open>Cancel_Token\<close>).
\<close>

definition wait_action :: "(nat \<Rightarrow> u8) \<Rightarrow> action_future" where
  "wait_action words k =
     NoPanic (if words k = ACTIVE then None else Some (Inr empty_result))"

text \<open>The awaits of \<open>host\<close>; \<open>he_before_log\<close> is what other tasks send before its log record.\<close>

record host_action_env =
  he_config :: await_env
  he_invoke :: await_env
  he_read :: await_env
  he_now :: timestamp
  he_log_word :: u8
  he_log_fate :: fate
  he_before_log :: "host_client \<Rightarrow> host_client"

definition read_conformance_document :: host_call where
  "read_conformance_document =
     Call_ReadDocument \<lparr>rdq_path = Some (DocumentPath ''/conformance.md''),
       rdq_projection = document_projection_i32 ProjectionContent\<rparr>"

definition document_content :: "host_call_response \<Rightarrow> string sdk_result" where
  "document_content document =
     (case hcr_result document of
        Some (Result_ReadDocument response) \<Rightarrow>
          ok_or (Protocol ''document response omitted text'')
            (Option.bind (Option.bind (rds_document response) ds_representation)
               (\<lambda>representation. case representation of
                  SnapshotContent content \<Rightarrow> Some content
                | _ \<Rightarrow> None))
      | _ \<Rightarrow> Inl (Protocol ''unexpected document response''))"

definition configured_function :: "get_config_response \<Rightarrow> config_function_ref sdk_result" where
  "configured_function configured =
     (case Option.bind (gc_value configured) cv_kind of
        Some (FunctionValue f) \<Rightarrow> Inr f
      | _ \<Rightarrow> Inl (Protocol ''GetConfig omitted function''))"

definition first_string :: "invoke_config_function_response \<Rightarrow> string sdk_result" where
  "first_string invoked =
     ok_or (Protocol ''function result is not a string'')
       (case icf_results invoked of [] \<Rightarrow> None | v # _ \<Rightarrow> config_string v)"

definition host_action ::
  "action_context \<Rightarrow> host_action_env \<Rightarrow> host_client \<Rightarrow> action_result sdk_result \<times> host_client" where
  "host_action ctx env hc =
     st_and_then (get_config ctx None (he_config env) hc) (\<lambda>configured hc.
     st_and_then (configured_function configured, hc) (\<lambda>f hc.
     st_and_then (invoke_config_function ctx f [string_value ''config''] (he_invoke env) hc)
       (\<lambda>invoked hc.
     st_and_then (first_string invoked, hc) (\<lambda>function_value hc.
     st_and_then (host_call ctx read_conformance_document (he_read env) hc) (\<lambda>document hc.
     st_and_then (document_content document, hc) (\<lambda>content hc.
     st_and_then
       (log ctx LogInfo ''conformance'' ''host action complete'' [] (he_now env)
          (he_log_word env) (he_log_fate env) (he_before_log env hc))
       (\<lambda>_ hc. (value_result (string_value (function_value @ ''|'' @ content)), hc))))))))"

definition artifact_payload :: bytes where
  "artifact_payload = byte_string ''artifact payload''"

definition conformance_artifact_id :: plugin_artifact_id where
  "conformance_artifact_id = PluginArtifactId ''aaaaaaaa-aaaa-4aaa-8aaa-aaaaaaaaaaaa''"

definition conformance_descriptor :: "'h sha256 \<Rightarrow> artifact_descriptor" where
  "conformance_descriptor sha =
     \<lparr>art_artifact_id = Some conformance_artifact_id,
      art_file_name = ''conformance.txt'', art_media_type = ''text/plain'',
      art_size_bytes = 16,
      art_sha256 = sha_finalize sha (sha_update sha (sha_new sha) artifact_payload)\<rparr>"

definition artifact_action ::
  "uuid_parser \<Rightarrow> 'h sha256 \<Rightarrow> action_context \<Rightarrow> store_env \<Rightarrow> host_client \<Rightarrow>
   (action_result sdk_result \<times> host_client) option" where
  "artifact_action parse_uuid sha ctx env hc =
     map_option
       (\<lambda>(stored, hc, _).
          (and_then stored (\<lambda>stored.
           and_then (value_result (string_value ''artifact'')) (\<lambda>result.
             Inr (with_artifact stored result))), hc))
       (store_artifact parse_uuid sha cursor_source ctx (conformance_descriptor sha) env hc
          \<lparr>cur_bytes = artifact_payload, cur_position = 0\<rparr>)"

section \<open>The plugin\<close>

datatype conformance_action = EchoAction | WaitAction | HostAction | ArtifactAction

definition conformance_calls :: "conformance_action builder_call list" where
  "conformance_calls =
     [AddAction ''echo'' ''Echo arguments'' EchoAction,
      AddAction ''wait'' ''Wait for cancellation'' WaitAction,
      AddAction ''host'' ''Exercise host capabilities'' HostAction,
      AddAction ''artifact'' ''Exercise artifact transfer'' ArtifactAction]"

definition conformance_plugin :: "conformance_action plugin sdk_result" where
  "conformance_plugin =
     builder_chain conformance_calls (builder ''org.onelastleaf.conformance'' ''0.1.0'')"

text \<open>\<open>main\<close>, on what the session made of the plugin.\<close>

definition conformance_main ::
  "uri_parser \<Rightarrow> error_source + string \<Rightarrow> error_source + unit \<Rightarrow>
   (conformance_action plugin \<Rightarrow> run_branch) \<Rightarrow> unit sdk_result" where
  "conformance_main parse_uri variable spawned branch =
     and_then conformance_plugin (\<lambda>plugin. plugin_run parse_uri variable spawned (branch plugin))"

lemma conformance_actions:
  "declared_actions conformance_calls =
     [(''echo'', \<lparr>ra_description = ''Echo arguments'', ra_handler = EchoAction\<rparr>),
      (''wait'', \<lparr>ra_description = ''Wait for cancellation'', ra_handler = WaitAction\<rparr>),
      (''host'', \<lparr>ra_description = ''Exercise host capabilities'', ra_handler = HostAction\<rparr>),
      (''artifact'', \<lparr>ra_description = ''Exercise artifact transfer'', ra_handler = ArtifactAction\<rparr>)]"
  by (simp add: conformance_calls_def)

lemma conformance_plugin_id: "validate_plugin_id ''org.onelastleaf.conformance'' = Inr ()"
proof -
  have "is_ok (validate_plugin_id ''org.onelastleaf.conformance'')" by code_simp
  then show ?thesis by (simp add: is_ok_unit_iff)
qed

lemma conformance_plugin_builds:
  "conformance_plugin = Inr
     ((builder ''org.onelastleaf.conformance'' ''0.1.0'')
        \<lparr>pl_actions := fold (\<lambda>(k, v). hm_insert k v) (declared_actions conformance_calls) hm_empty\<rparr>)"
  unfolding conformance_plugin_def builder_chain_Inr_iff [OF builder_inv] conformance_actions
  by (simp add: conformance_plugin_id builder_def conformance_calls_def hm.map_laws)

section \<open>What the host action says\<close>

text \<open>The envelopes an action sends itself: host calls below it, and its log records.\<close>

definition own_message :: "action_context \<Rightarrow> plugin_envelope \<Rightarrow> bool" where
  "own_message ctx e \<longleftrightarrow>
     (case env_payload e of
        Some (PHostCall _) \<Rightarrow> env_trace e = Some (host_call_trace ctx)
      | Some (PLog _) \<Rightarrow> env_trace e = Some (ac_trace ctx)
      | _ \<Rightarrow> False)"

definition speaks :: "action_context \<Rightarrow> payload list \<Rightarrow> host_client \<Rightarrow> host_client \<Rightarrow> bool" where
  "speaks ctx ps h h' \<longleftrightarrow>
     (\<exists>es. client_wire h' = client_wire h @ es \<and>
        map env_payload (filter (own_message ctx) es) = map Some ps)"

text \<open>
  \<open>plays\<close>: a computation says a prefix of its script, and all of it when it succeeds.
  Computations compose, and so do their scripts.
\<close>

definition plays ::
  "action_context \<Rightarrow> payload list \<Rightarrow> host_client \<Rightarrow> 'a sdk_result \<times> host_client \<Rightarrow> bool" where
  "plays ctx script hc rs \<longleftrightarrow>
     (\<exists>ps. speaks ctx ps hc (snd rs) \<and> prefix ps script \<and> (is_ok (fst rs) \<longrightarrow> ps = script))"

definition alone :: "action_context \<Rightarrow> await_env \<Rightarrow> bool" where
  "alone ctx env \<longleftrightarrow> (\<forall>mid h. speaks ctx [] h (snd (ae_world env mid h)))"

lemma speaks_same: "client_wire h' = client_wire h \<Longrightarrow> speaks ctx [] h h'"
  by (auto simp: speaks_def)

lemma speaks_trans: "speaks ctx ps h h' \<Longrightarrow> speaks ctx qs h' h'' \<Longrightarrow> speaks ctx (ps @ qs) h h''"
  by (fastforce simp: speaks_def)

lemma speaks_sealed:
  "client_wire h' = client_wire h @ [seal_envelope s mid reply trace payload] \<Longrightarrow>
   own_message ctx (seal_envelope s mid reply trace payload) \<Longrightarrow> speaks ctx [payload] h h'"
  by (auto simp: speaks_def seal_envelope_def)

lemma plays_failed [intro]: "plays ctx script hc (Inl e, hc)"
  by (auto simp: plays_def is_ok_def intro: speaks_same)

lemma plays_pure [intro]: "plays ctx [] hc (r, hc)"
  by (auto simp: plays_def intro: speaks_same)

lemma plays_bind:
  assumes "plays ctx script hc rs"
    and "\<And>x h. rs = (Inr x, h) \<Longrightarrow> \<exists>z. plays ctx (rest z) h (f x h)"
  shows "\<exists>z. plays ctx (script @ rest z) hc (st_and_then rs f)"
proof -
  obtain r h where rs: "rs = (r, h)" by (cases rs)
  from assms(1) obtain ps where ps: "speaks ctx ps hc h" "prefix ps script" "is_ok r \<longrightarrow> ps = script"
    by (auto simp: plays_def rs)
  show ?thesis
  proof (cases r)
    case (Inl e)
    with ps rs show ?thesis by (auto simp: plays_def is_ok_def intro: prefix_prefix)
  next
    case (Inr x)
    with assms(2) rs obtain z qs where "speaks ctx qs h (snd (f x h))" "prefix qs (rest z)"
      "is_ok (fst (f x h)) \<longrightarrow> qs = rest z"
      by (fastforce simp: plays_def)
    with speaks_trans [OF ps(1) this(1)] ps rs Inr show ?thesis
      by (auto simp: plays_def is_ok_def intro!: exI [of _ z] exI [of _ "script @ qs"])
  qed
qed

lemma plays_then:
  assumes "plays ctx script hc rs" and "\<And>x h. rs = (Inr x, h) \<Longrightarrow> plays ctx rest h (f x h)"
  shows "plays ctx (script @ rest) hc (st_and_then rs f)"
proof -
  have "\<exists>_::unit. plays ctx (script @ rest) hc (st_and_then rs f)"
    using assms by (intro plays_bind) auto
  then show ?thesis by simp
qed

lemma plays_checked:
  assumes "\<And>x. r = Inr x \<Longrightarrow> plays ctx script hc (f x hc)"
  shows "plays ctx script hc (st_and_then (r, hc) f)"
  using plays_then [OF plays_pure, of r hc ctx script f] assms by simp

lemma plays_after:
  assumes "speaks ctx [] hc h" and "plays ctx script h rs"
  shows "plays ctx script hc rs"
  using assms speaks_trans [OF assms(1)] by (fastforce simp: plays_def)

lemma select_request_plays:
  assumes "alone ctx env"
    and "\<And>s mid. own_message ctx (seal_envelope s mid None trace payload)"
  shows "plays ctx [payload] hc (select_request trace payload env hc)"
proof -
  obtain result hc' where eq: "select_request trace payload env hc = (result, hc')"
    by (cases "select_request trace payload env hc")
  then show ?thesis
  proof (cases rule: select_request_cases)
    case (unsent e)
    with eq show ?thesis
      by (auto simp: plays_def is_ok_def intro!: exI [of _ "[]"] speaks_same)
  next
    case (sent hc1 guard)
    from assms(1) sent(3) have "speaks ctx [] hc1 hc'" by (simp add: alone_def)
    from speaks_trans [OF speaks_sealed [OF sent(2) assms(2)] this] eq show ?thesis
      by (auto simp: plays_def intro!: exI [of _ "[payload]"])
  qed
qed

lemma host_call_plays:
  assumes "alone ctx env"
  shows "plays ctx [PHostCall \<lparr>hcr_call = Some c\<rparr>] hc (host_call ctx c env hc)"
proof -
  obtain result hc' where eq: "host_call ctx c env hc = (result, hc')"
    by (cases "host_call ctx c env hc")
  then show ?thesis
  proof (cases rule: host_call_cases)
    case (refused e)
    with eq show ?thesis by auto
  next
    case (requested answer)
    have "plays ctx [PHostCall \<lparr>hcr_call = Some c\<rparr>] hc (answer, hc')"
      using select_request_plays [OF assms, of "host_call_trace ctx" "PHostCall \<lparr>hcr_call = Some c\<rparr>" hc]
        requested(3) by (simp add: own_message_def seal_envelope_def)
    moreover have "is_ok result \<Longrightarrow> is_ok answer"
      using requested(4) by (cases answer) (simp_all add: is_ok_def)
    ultimately show ?thesis using eq by (auto simp: plays_def)
  qed
qed

lemma log_plays:
  "plays ctx [PLog \<lparr>log_timestamp = Some now, log_level_field = log_level_i32 level,
      log_target = target, log_message = message, log_fields = attributes\<rparr>] hc
     (log ctx level target message attributes now word fate hc)"
  (is "plays ctx [?payload] hc _")
proof -
  have "plays ctx [?payload] hc (select_send (ac_trace ctx) ?payload fate hc)"
  proof -
    obtain result hc' where eq: "select_send (ac_trace ctx) ?payload fate hc = (result, hc')"
      by (cases "select_send (ac_trace ctx) ?payload fate hc")
    then show ?thesis
    proof (cases rule: select_send_cases)
      case (unsent e)
      with eq show ?thesis by (auto simp: plays_def is_ok_def intro!: exI [of _ "[]"] speaks_same)
    next
      case sent
      have "speaks ctx [?payload] hc hc'"
        using sent(3) by (rule speaks_sealed) (simp add: own_message_def seal_envelope_def)
      with eq sent show ?thesis by (auto simp: plays_def intro!: exI [of _ "[?payload]"])
    qed
  qed
  then show ?thesis
    unfolding log_def
    by (intro plays_checked) (auto simp: system_timestamp_def intro!: plays_checked split: if_splits)
qed

lemma get_config_plays:
  assumes "alone ctx env"
  shows "plays ctx [PHostCall \<lparr>hcr_call = Some (Call_GetConfig \<lparr>gc_path = path\<rparr>)\<rparr>] hc
    (get_config ctx path env hc)"
  unfolding get_config_def
  by (rule plays_then [OF host_call_plays [OF assms], of _ _ "[]", simplified]) auto

lemma invoke_config_function_plays:
  assumes "alone ctx env"
  shows "plays ctx [PHostCall \<lparr>hcr_call = Some (Call_InvokeConfigFunction
      \<lparr>icf_function = Some f, icf_arguments = arguments\<rparr>)\<rparr>] hc
    (invoke_config_function ctx f arguments env hc)"
  unfolding invoke_config_function_def
  by (rule plays_then [OF host_call_plays [OF assms], of _ _ "[]", simplified]) auto

definition host_script :: "host_action_env \<Rightarrow> config_function_ref \<Rightarrow> payload list" where
  "host_script env f =
     [PHostCall \<lparr>hcr_call = Some (Call_GetConfig \<lparr>gc_path = None\<rparr>)\<rparr>,
      PHostCall \<lparr>hcr_call = Some (Call_InvokeConfigFunction
        \<lparr>icf_function = Some f, icf_arguments = [string_value ''config'']\<rparr>)\<rparr>,
      PHostCall \<lparr>hcr_call = Some read_conformance_document\<rparr>,
      PLog \<lparr>log_timestamp = Some (he_now env), log_level_field = log_level_i32 LogInfo,
        log_target = ''conformance'', log_message = ''host action complete'', log_fields = []\<rparr>]"

definition alone_in_action :: "action_context \<Rightarrow> host_action_env \<Rightarrow> bool" where
  "alone_in_action ctx env \<longleftrightarrow>
     alone ctx (he_config env) \<and> alone ctx (he_invoke env) \<and> alone ctx (he_read env) \<and>
     (\<forall>h. speaks ctx [] h (he_before_log env h))"

lemma plays_checked_ex:
  assumes "\<And>x. r = Inr x \<Longrightarrow> \<exists>z. plays ctx (script z) hc (f x hc)"
  shows "\<exists>z. plays ctx (script z) hc (st_and_then (r, hc) f)"
  using assms by (cases r) auto

lemma plays_last:
  assumes "plays ctx script hc rs"
  shows "plays ctx script hc (st_and_then rs (\<lambda>_. Pair r))"
  using plays_then [OF assms, of "[]" "\<lambda>_. Pair r"] by auto

lemmas plays_Cons = plays_then [where script = "[p]" for p, simplified append.simps]

lemma host_action_plays:
  assumes "alone_in_action ctx env"
  shows "\<exists>f. plays ctx (host_script env f) hc (host_action ctx env hc)"
proof -
  note env = assms [unfolded alone_in_action_def]
  have "\<exists>f. plays ctx ([hd (host_script env f)] @ tl (host_script env f)) hc (host_action ctx env hc)"
    unfolding host_action_def host_script_def list.sel
    by (rule plays_bind [OF get_config_plays], use env in simp, rule plays_checked_ex, rule exI,
        rule plays_Cons [OF invoke_config_function_plays])
      (use env in \<open>auto intro!: plays_checked plays_Cons [OF host_call_plays] plays_last
         plays_after [OF _ log_plays] simp del: log_level_i32.simps\<close>)
  then show ?thesis by (simp add: host_script_def)
qed

text \<open>What it returns then: the function's string and the document's content.\<close>

lemma host_action_result:
  assumes "host_action ctx env hc = (Inr result, hc')"
  shows "\<exists>function_value content. result =
    \<lparr>ar_result = Some (string_value (function_value @ ''|'' @ content)), ar_artifacts = []\<rparr>"
  using assms by (auto simp: host_action_def st_and_then_Inr_iff value_result_def and_then_Inr_iff)

section \<open>The other actions\<close>

lemma string_value_serializable: "validate_serializable (string_value s) = Inr ()"
  by (simp add: validate_serializable_def string_value_def)

lemma echo_action_eq:
  "echo_action arguments =
     Inr \<lparr>ar_result = Some (string_value (join_with '' '' arguments)), ar_artifacts = []\<rparr>"
  by (simp add: echo_action_def value_result_def string_value_serializable)

lemma artifact_payload_length: "length artifact_payload = 16"
  by (simp add: artifact_payload_def byte_string_def)

lemma artifact_digest:
  assumes "sha256_contract sha digest"
  shows "art_sha256 (conformance_descriptor sha) = digest artifact_payload"
proof -
  have "sha_finalize sha (foldl (sha_update sha) (sha_new sha) [artifact_payload]) =
      digest (concat [artifact_payload])"
    using assms by (simp only: sha256_contract_def)
  then show ?thesis by (simp add: conformance_descriptor_def)
qed

lemma artifact_action_delivers:
  assumes "sha256_contract sha digest" and "quiet conformance_artifact_id env"
  shows "\<exists>r hc' sent. artifact_action p sha ctx env hc = Some (r, hc') \<and>
    adds conformance_artifact_id sent hc hc' \<and>
    (\<forall>result. r = Inr result \<longrightarrow>
      into_wire result (ac_job_id ctx) =
        Some (Inr (Some (string_value ''artifact''), [conformance_descriptor sha])) \<and>
      (\<exists>plan. artifact_plan 16 (hc_maximum_artifact_chunk_bytes hc) = Inr plan \<and>
         sent = transfer_sequence ctx (conformance_descriptor sha) conformance_artifact_id plan
           artifact_payload))"
proof -
  let ?d = "conformance_descriptor sha" and ?source = "\<lparr>cur_bytes = artifact_payload, cur_position = 0\<rparr>"
  have "cursor_view ?source = (artifact_payload, 0)" "art_artifact_id ?d = Some conformance_artifact_id"
    by (simp_all add: cursor_view_def conformance_descriptor_def)
  then obtain r hc' source' ps where stored:
    "store_artifact p sha cursor_source ctx ?d env hc ?source = Some (r, hc', source')"
    and sent: "adds conformance_artifact_id ps hc hc'"
    and "ps \<noteq> [] \<Longrightarrow> (\<exists>u. validate_descriptor p ?d = Inr u) \<and>
      describes digest ?d (drop 0 artifact_payload) \<and>
      (\<exists>plan. artifact_plan (art_size_bytes ?d) (hc_maximum_artifact_chunk_bytes hc) = Inr plan \<and>
         prefix ps (transfer_sequence ctx ?d conformance_artifact_id plan (drop 0 artifact_payload)))"
    and ok: "\<And>stored. r = Inr stored \<Longrightarrow> stored = \<lparr>sa_job_id = ac_job_id ctx, sa_descriptor = ?d\<rparr> \<and>
      (\<exists>plan. artifact_plan (art_size_bytes ?d) (hc_maximum_artifact_chunk_bytes hc) = Inr plan \<and>
         ps = transfer_sequence ctx ?d conformance_artifact_id plan (drop 0 artifact_payload))"
    by (rule cursor.store_artifact_transfers [OF _ assms(1) _ assms(2), of _ _ _ _ p ctx hc]) (rule that)
  let ?r = "and_then r (\<lambda>stored. and_then (value_result (string_value ''artifact''))
    (\<lambda>result. Inr (with_artifact stored result)))"
  have "artifact_action p sha ctx env hc = Some (?r, hc')"
    by (simp add: artifact_action_def stored)
  moreover have "into_wire result (ac_job_id ctx) = Some (Inr (Some (string_value ''artifact''), [?d])) \<and>
      (\<exists>plan. artifact_plan 16 (hc_maximum_artifact_chunk_bytes hc) = Inr plan \<and>
         ps = transfer_sequence ctx ?d conformance_artifact_id plan artifact_payload)"
    if "?r = Inr result" for result
  proof -
    from that obtain st where st: "r = Inr st"
      "result = \<lparr>ar_result = Some (string_value ''artifact''), ar_artifacts = [st]\<rparr>"
      by (auto simp: and_then_Inr_iff value_result_def with_artifact_def)
    note ok = ok [OF st(1)]
    have "into_wire result (ac_job_id ctx) = Some (Inr (Some (string_value ''artifact''), [?d]))"
      using ok by (simp add: st(2) into_wire_def string_value_serializable conformance_descriptor_def)
    with ok show ?thesis by (simp add: conformance_descriptor_def)
  qed
  ultimately show ?thesis using sent by blast
qed

section \<open>An echo job from its start to its settlement\<close>

lemma echo_registered:
  assumes "conformance_plugin = Inr plugin"
  shows "hm_get (pl_actions plugin) ''echo'' =
    Some \<lparr>ra_description = ''Echo arguments'', ra_handler = EchoAction\<rparr>"
  using assms by (simp add: conformance_plugin_builds conformance_actions hm.map_laws)
    (auto simp: hm.map_laws)

definition echo_future :: "string list \<Rightarrow> action_future caught" where
  "echo_future arguments = NoPanic (\<lambda>_. NoPanic (Some (echo_action arguments)))"

lemma run_echo: "run_action (echo_future arguments) = Some (echo_action arguments)"
  using executor.loop_first [of "\<lambda>_. NoPanic (Some (echo_action arguments))" 0 0]
  by (simp add: echo_future_def run_action_def action_pass_def)

definition echo_update :: "string \<Rightarrow> string list \<Rightarrow> job_update" where
  "echo_update jid arguments =
     \<lparr>ju_job_id = Some (PluginJobId jid), ju_state = job_state_i32 StateSucceeded,
      ju_progress = Some 0x3FF0000000000000, ju_status_message = None,
      ju_result = Some (string_value (join_with '' '' arguments)), ju_error = None, ju_artifacts = []\<rparr>"

lemma echo_terminal_update: "terminal_update jid (echo_action arguments) = Some (echo_update jid arguments)"
  by (simp add: terminal_update_def echo_action_eq echo_update_def into_wire_def
      string_value_serializable)

end
