(* ===== verification/Wire_Typing.thy ===== *)
theory Wire_Typing
  imports Task_Conduct Runtime
begin

text \<open>
  A type for what a plugin puts on the wire. The generated Rust types admit any combination of
  optional fields and open enums; the protocol does not. \<open>payload_ok\<close> says what the host may
  rely on: only a plugin's messages, their required fields present, identifiers canonical,
  values and errors valid, handles of this session. Every operation of the SDK keeps to it.
\<close>

section \<open>Well-typed messages\<close>

definition job_id_ok :: "uuid_parser \<Rightarrow> plugin_job_id option \<Rightarrow> bool" where
  "job_id_ok p jid \<longleftrightarrow> is_ok (validate_job_id p jid)"

definition update_ok :: "uuid_parser \<Rightarrow> job_update \<Rightarrow> bool" where
  "update_ok p u \<longleftrightarrow>
     job_id_ok p (ju_job_id u) \<and>
     (ju_state u = job_state_i32 StateSucceeded \<and> ju_error u = None \<and>
        pred_option (\<lambda>v. validate_serializable v = Inr ()) (ju_result u) \<and>
        distinct (map art_artifact_id (ju_artifacts u)) \<and>
        None \<notin> set (map art_artifact_id (ju_artifacts u)) \<or>
      ju_state u = job_state_i32 StateFailed \<and> ju_result u = None \<and> ju_artifacts u = [] \<and>
        (\<exists>e. ju_error u = Some e \<and> validate_protocol_error e = Inr ()))"

definition hello_ok :: "plugin_hello \<Rightarrow> bool" where
  "hello_ok h \<longleftrightarrow>
     (\<exists>pid. ph_plugin_id h = Some (PluginId pid) \<and> validate_plugin_id pid = Inr ()) \<and>
     ph_plugin_name h \<noteq> None \<and> ph_plugin_version h \<noteq> [] \<and>
     distinct (map ad_name (ph_actions h)) \<and> [] \<notin> set (map ad_name (ph_actions h))"

fun payload_ok :: "uuid_parser \<Rightarrow> string \<Rightarrow> payload \<Rightarrow> bool" where
  "payload_ok p sid (PPluginHello h) \<longleftrightarrow> hello_ok h"
| "payload_ok p sid PReady \<longleftrightarrow> True"
| "payload_ok p sid (PJobAccepted a) \<longleftrightarrow> job_id_ok p (ja_job_id a)"
| "payload_ok p sid (PJobUpdate u) \<longleftrightarrow> update_ok p u"
| "payload_ok p sid (PHostCall r) \<longleftrightarrow>
     (\<exists>c. hcr_call r = Some c \<and> validate_call c sid = Inr (kind_of_call c))"
| "payload_ok p sid (PLog r) \<longleftrightarrow> log_ok r"
| "payload_ok p sid (PHeartbeat _) \<longleftrightarrow> True"
| "payload_ok p sid PShutdownAcknowledged \<longleftrightarrow> True"
| "payload_ok p sid (PProtocolError e) \<longleftrightarrow> validate_protocol_error e = Inr ()"
| "payload_ok p sid (PArtifactStart s) \<longleftrightarrow>
     ats_job_id s \<noteq> None \<and>
     (\<exists>d. ats_artifact s = Some d \<and> is_ok (validate_descriptor p d))"
| "payload_ok p sid (PArtifactChunk c) \<longleftrightarrow> atk_artifact_id c \<noteq> None"
| "payload_ok p sid (PArtifactComplete c) \<longleftrightarrow> atc_artifact_id c \<noteq> None"
| "payload_ok p sid (PCancelJobAcknowledged a) \<longleftrightarrow> job_id_ok p (cja_job_id a)"
| "payload_ok p sid _ \<longleftrightarrow> False"

definition envelope_ok :: "uuid_parser \<Rightarrow> session_identity \<Rightarrow> plugin_envelope \<Rightarrow> bool" where
  "envelope_ok p identity e \<longleftrightarrow>
     env_session_id e = si_session_id identity \<and>
     env_plugin_instance_id e = si_instance_id identity \<and> env_trace e \<noteq> None \<and>
     (\<exists>payload. env_payload e = Some payload \<and> payload_ok p (si_session_id identity) payload)"

lemma envelope_ok_seal [simp]:
  "envelope_ok p identity (seal_envelope identity mid reply trace payload) \<longleftrightarrow>
     payload_ok p (si_session_id identity) payload"
  by (simp add: envelope_ok_def seal_envelope_def)

section \<open>Computations that say only well-typed messages\<close>

definition typed_step :: "uuid_parser \<Rightarrow> host_client \<Rightarrow> host_client \<Rightarrow> bool" where
  "typed_step p h h' \<longleftrightarrow>
     client_identity h' = client_identity h \<and> hc_session_id h' = hc_session_id h \<and>
     (hc_session_id h = si_session_id (client_identity h) \<longrightarrow>
       (\<exists>es. client_wire h' = client_wire h @ es \<and> list_all (envelope_ok p (client_identity h)) es))"

lemma typed_step_refl [simp, intro]: "typed_step p h h"
  by (auto simp: typed_step_def)

lemma typed_step_trans: "typed_step p h h' \<Longrightarrow> typed_step p h' h'' \<Longrightarrow> typed_step p h h''"
  by (fastforce simp: typed_step_def)

lemma typed_step_silent:
  "client_step h h' \<Longrightarrow> client_wire h' = client_wire h \<Longrightarrow> typed_step p h h'"
  by (auto simp: typed_step_def client_step_def extends_def)

lemma typed_step_sealed:
  "client_step h h' \<Longrightarrow>
   client_wire h' = client_wire h @ [seal_envelope (client_identity h) mid reply trace payload] \<Longrightarrow>
   payload_ok p (hc_session_id h) payload \<Longrightarrow> typed_step p h h'"
  by (auto simp: typed_step_def client_step_def extends_def)

lemma typed_step_send:
  assumes "payload_ok p (hc_session_id h) payload"
  shows "typed_step p h (h\<lparr>hc_sender := snd (send reply trace payload (hc_sender h))\<rparr>)"
  using assms by (auto simp: typed_step_def send_eq wire_envelopes_def split: if_splits)

section \<open>What actions send\<close>

interpretation typing: action_conduct p "typed_step p" "\<lambda>h. payload_ok p (hc_session_id h)" for p
  by unfold_locales
    (auto intro: typed_step_trans typed_step_silent typed_step_sealed simp: chunk_message_def)

section \<open>What the job manager sends\<close>

definition jobs_typed :: "uuid_parser \<Rightarrow> 'h job_manager \<Rightarrow> bool" where
  "jobs_typed p jm \<longleftrightarrow>
     (\<forall>jid job. hm_get (jm_active jm) jid = Some job \<longrightarrow>
        job_id_ok p (Some (PluginJobId jid)) \<and>
        (\<forall>c \<in> set (aj_cancellations job). job_id_ok p (Some (pc_job_id c))))"

definition typed_jobs_step :: "uuid_parser \<Rightarrow> 'h job_manager \<Rightarrow> 'h job_manager \<Rightarrow> bool" where
  "typed_jobs_step p jm jm' \<longleftrightarrow> typed_step p (jm_host jm) (jm_host jm') \<and> jobs_typed p jm'"

lemma job_id_ok_iff:
  "job_id_ok p jid \<longleftrightarrow> (\<exists>j. jid = Some (PluginJobId j) \<and> canonical_uuid_v4 p j)"
proof -
  have "is_ok r \<longleftrightarrow> (\<exists>v. r = Inr v)" for r :: "string sdk_result"
    by (cases r) (simp_all add: is_ok_def)
  then show ?thesis by (auto simp: job_id_ok_def validate_job_id_Inr_iff)
qed

lemma typed_jobs_refl: "jobs_typed p jm \<Longrightarrow> typed_jobs_step p jm jm"
  by (simp add: typed_jobs_step_def)

lemma typed_jobs_trans:
  "typed_jobs_step p jm jm' \<Longrightarrow> typed_jobs_step p jm' jm'' \<Longrightarrow> typed_jobs_step p jm jm''"
  using typed_step_trans by (auto simp: typed_jobs_step_def)

lemma jobs_typed_host [simp]: "jobs_typed p (jm\<lparr>jm_host := hc\<rparr>) \<longleftrightarrow> jobs_typed p jm"
  by (simp add: jobs_typed_def)

lemma typed_world:
  "jobs_typed p jm \<Longrightarrow> typed_step p (jm_host jm) hc \<Longrightarrow> typed_jobs_step p jm (jm\<lparr>jm_host := hc\<rparr>)"
  by (simp add: typed_jobs_step_def)

lemma send_from_typed:
  assumes "send_from reply trace payload jm = (r, jm')" and "jobs_typed p jm"
    and "payload_ok p (hc_session_id (jm_host jm)) payload"
  shows "typed_jobs_step p jm jm'"
  using assms typed_step_send [OF assms(3), of reply trace]
  by (auto simp: send_from_def typed_jobs_step_def split: prod.splits)

lemma send_acknowledgements_typed:
  assumes "send_acknowledgements world i cs jm = (r, jm')" and "jobs_typed p jm"
    and "\<forall>c \<in> set cs. job_id_ok p (Some (pc_job_id c))" and "\<And>i h. typed_step p h (world i h)"
  shows "typed_jobs_step p jm jm'"
  using assms(1-3)
proof (induction cs arbitrary: i jm)
  case Nil
  then show ?case by (simp add: typed_jobs_refl)
next
  case (Cons c cs)
  let ?jm = "jm\<lparr>jm_host := world i (jm_host jm)\<rparr>"
  have "typed_jobs_step p jm ?jm" using Cons.prems(2) assms(4) by (rule typed_world)
  moreover obtain r1 jm1 where send: "send_cancellation_acknowledgement c ?jm = (r1, jm1)"
    by (cases "send_cancellation_acknowledgement c ?jm")
  moreover have "typed_jobs_step p ?jm jm1"
    by (rule send_from_typed [OF send [unfolded send_cancellation_acknowledgement_def]])
      (use Cons.prems(2,3) in simp_all)
  ultimately have first: "typed_jobs_step p jm jm1" by (blast intro: typed_jobs_trans)
  show ?case
  proof (cases r1)
    case (Inl e)
    with Cons.prems(1) send first show ?thesis by simp
  next
    case (Inr u)
    with Cons.prems(1) send have "send_acknowledgements world (Suc i) cs jm1 = (r, jm')" by simp
    from typed_jobs_trans [OF first Cons.IH [OF this]] first Cons.prems(3) show ?thesis
      by (simp add: typed_jobs_step_def)
  qed
qed

lemma jobs_start_typed:
  assumes "jobs_start p mid trace req jm = (r, jm')" and "jobs_typed p jm"
  shows "typed_jobs_step p jm jm'"
proof (cases "validate_job_id p (sj_job_id req)")
  case (Inl e)
  with assms show ?thesis by (simp add: jobs_start_def typed_jobs_refl)
next
  case (Inr jid)
  then have id: "job_id_ok p (Some (PluginJobId jid))"
    by (simp add: job_id_ok_iff validate_job_id_Inr_iff)
  obtain r1 jm1 where accept: "send_from (Some mid) trace
      (PJobAccepted \<lparr>ja_job_id = Some (PluginJobId jid)\<rparr>) jm = (r1, jm1)"
    by (cases "send_from (Some mid) trace (PJobAccepted \<lparr>ja_job_id = Some (PluginJobId jid)\<rparr>) jm")
  have accepted: "typed_jobs_step p jm jm1"
    using accept assms(2) by (rule send_from_typed) (simp add: id)
  obtain r2 jm2 where refuse: "send_from (Some mid) trace
      (PProtocolError (capacity_error (jm_maximum jm))) jm = (r2, jm2)"
    by (cases "send_from (Some mid) trace (PProtocolError (capacity_error (jm_maximum jm))) jm")
  have refused: "typed_jobs_step p jm jm2"
    using refuse assms(2) by (rule send_from_typed) (simp add: capacity_error_valid)
  from assms Inr accept refuse accepted refused id show ?thesis
    by (cases r1; cases "optional_timestamp (sj_deadline req) ''StartJobRequest deadline''";
        cases "sj_invocation req")
      (auto simp: jobs_start_def typed_jobs_step_def Let_def ok_or_def jobs_typed_def
        hm.get_insert split: if_splits job_invocation.splits option.splits)
qed

lemma jobs_cancel_typed:
  assumes "jobs_cancel p mid trace req jm = (r, jm')" and "jobs_typed p jm"
  shows "typed_jobs_step p jm jm'"
proof (cases "validate_job_id p (cj_job_id req)")
  case (Inl e)
  with assms show ?thesis by (simp add: jobs_cancel_def typed_jobs_refl)
next
  case (Inr jid)
  then have id: "job_id_ok p (Some (PluginJobId jid))"
    by (simp add: job_id_ok_iff validate_job_id_Inr_iff)
  let ?c = "\<lparr>pc_reply_to = mid, pc_trace = trace, pc_job_id = PluginJobId jid\<rparr>"
  obtain r1 jm1 where ack: "send_cancellation_acknowledgement ?c jm = (r1, jm1)"
    by (cases "send_cancellation_acknowledgement ?c jm")
  have acked: "typed_jobs_step p jm jm1"
    by (rule send_from_typed [OF ack [unfolded send_cancellation_acknowledgement_def]])
      (use assms(2) id in simp_all)
  from assms Inr ack acked id show ?thesis
    by (cases "cancellation_reason (cj_reason req)"; cases "hm_get (jm_active jm) jid")
      (auto simp: jobs_cancel_def typed_jobs_step_def Let_def jobs_typed_def hm.get_insert
        split: if_splits)
qed

lemma wired_update_ok:
  assumes "into_wire result jid = Some (Inr (v, ds))" and "job_id_ok p (Some (PluginJobId jid))"
  shows "update_ok p \<lparr>ju_job_id = Some (PluginJobId jid), ju_state = job_state_i32 StateSucceeded,
      ju_progress = q, ju_status_message = m, ju_result = v, ju_error = None, ju_artifacts = ds\<rparr>"
proof -
  let ?as = "ar_artifacts result"
  note wired = assms(1) [unfolded into_wire_ok_iff]
  have ids: "map art_artifact_id ds = map (Some \<circ> PluginArtifactId) (map stored_id ?as)"
    using wired by (auto simp: stored_for_def stored_id_def)
  moreover have "distinct (map (Some \<circ> PluginArtifactId) (map stored_id ?as))"
    using wired by (simp add: distinct_map inj_on_def)
  moreover have "pred_option (\<lambda>v. validate_serializable v = Inr ()) v"
    using wired by (auto simp: option.pred_set)
  ultimately show ?thesis using assms(2) by (auto simp: update_ok_def)
qed

text \<open>A terminal update carries the result, when it can go on the wire, or a valid error.\<close>

lemma terminal_update_ok:
  assumes "terminal_update jid out = Some update" and "job_id_ok p (Some (PluginJobId jid))"
  shows "update_ok p update"
proof -
  have failed: "update_ok p \<lparr>ju_job_id = Some (PluginJobId jid), ju_state = job_state_i32 StateFailed,
      ju_progress = q, ju_status_message = m, ju_result = None, ju_error = Some pe, ju_artifacts = []\<rparr>"
    if "outbound_error e = Some pe" for e pe q m
    using that assms(2) outbound_error_valid [of e] by (simp add: update_ok_def)
  show ?thesis
  proof (cases out)
    case (Inl e)
    with assms(1) failed [of e] show ?thesis by (auto simp: terminal_update_def Let_def)
  next
    case (Inr result)
    with assms(1) obtain w where w: "into_wire result jid = Some w"
      by (cases "into_wire result jid") (auto simp: terminal_update_def)
    show ?thesis
    proof (cases w)
      case (Inl e)
      with assms(1) Inr w failed [of e] show ?thesis by (auto simp: terminal_update_def Let_def)
    next
      case (Inr vd)
      with \<open>out = Inr result\<close> assms w show ?thesis
        using wired_update_ok [of result jid "fst vd" "snd vd" p]
        by (cases vd) (auto simp: terminal_update_def Let_def)
    qed
  qed
qed

lemma jobs_settle_typed:
  assumes "jobs_settle world f jm = Some (r, jm')" and "jobs_typed p jm"
    and "\<And>i h. typed_step p h (world i h)"
  shows "typed_jobs_step p jm jm'"
proof -
  from assms(1) obtain job where job: "hm_get (jm_active jm) (fa_job_id f) = Some job"
    by (auto simp: jobs_settle_def split: option.splits)
  let ?jm1 = "jm\<lparr>jm_active := hm_insert (fa_job_id f) (job\<lparr>aj_cancellations := []\<rparr>) (jm_active jm)\<rparr>"
  have ids: "job_id_ok p (Some (PluginJobId (fa_job_id f)))"
    "\<forall>c \<in> set (aj_cancellations job). job_id_ok p (Some (pc_job_id c))"
    using assms(2) job by (auto simp: jobs_typed_def)
  then have first: "typed_jobs_step p jm ?jm1"
    using assms(2) by (auto simp: typed_jobs_step_def jobs_typed_def hm.get_insert)
  then have typed1: "jobs_typed p ?jm1" by (simp add: typed_jobs_step_def)
  have settled: "typed_jobs_step p jm jm'"
    if "typed_jobs_step p ?jm1 jm2" "jm' = jm2 \<or> jm' = jm2\<lparr>jm_active := hm_remove (fa_job_id f) (jm_active jm2)\<rparr>"
    for jm2
    using that typed_jobs_trans [OF first that(1)]
    by (auto simp: typed_jobs_step_def jobs_typed_def hm.get_remove split: if_splits)
  show ?thesis
  proof (cases "aj_cancellations job = []")
    case True
    let ?jm1' = "?jm1\<lparr>jm_host := world 0 (jm_host ?jm1)\<rparr>"
    from assms(1) job True obtain update where
      update: "terminal_update (fa_job_id f) (fa_output f) = Some update"
      by (auto simp: jobs_settle_def Let_def split: option.splits)
    obtain r2 jm2 where send: "send_from None (aj_trace job) (PJobUpdate update) ?jm1' = (r2, jm2)"
      by (cases "send_from None (aj_trace job) (PJobUpdate update) ?jm1'")
    have world: "typed_jobs_step p ?jm1 ?jm1'" using typed1 assms(3) by (rule typed_world)
    then have "jobs_typed p ?jm1'" by (simp add: typed_jobs_step_def)
    from send_from_typed [OF send this] terminal_update_ok [OF update ids(1)]
    have "typed_jobs_step p ?jm1' jm2" by simp
    with world have "typed_jobs_step p ?jm1 jm2" by (rule typed_jobs_trans)
    then show ?thesis
      by (rule settled)
        (use assms(1) job True update send in
          \<open>auto simp: jobs_settle_def Let_def split: sum.splits option.splits\<close>)
  next
    case False
    obtain r2 jm2 where send: "send_acknowledgements world 0 (aj_cancellations job) ?jm1 = (r2, jm2)"
      by (cases "send_acknowledgements world 0 (aj_cancellations job) ?jm1")
    from send_acknowledgements_typed [OF send typed1 ids(2)] assms(3)
    have "typed_jobs_step p ?jm1 jm2" by simp
    then show ?thesis
      by (rule settled)
        (use assms(1) job False send in
          \<open>auto simp: jobs_settle_def Let_def split: sum.splits option.splits\<close>)
  qed
qed

lemma jobs_shutdown_typed:
  assumes "jobs_shutdown iter world jm = (r, jm')" and "jobs_typed p jm" and "hm_wf (jm_active jm)"
    and "hash_order iter" and "\<And>i h. typed_step p h (world i h)"
  shows "typed_jobs_step p jm jm'"
proof -
  let ?active = "map (\<lambda>(jid, job). (jid, job\<lparr>aj_cancellations := []\<rparr>)) (jm_active jm)"
  let ?cs = "concat (map aj_cancellations (map snd (iter (jm_active jm))))"
  define jm1 where "jm1 = jm\<lparr>jm_tokens := fold (\<lambda>t. fire_token finish (jt_controller t)) (jm_tasks jm)
      (fold (\<lambda>job. fire_token cancel (aj_controller job)) (map snd (iter (jm_active jm))) (jm_tokens jm)),
    jm_tasks := [], jm_active := ?active\<rparr>"
  have "hm_get ?active jid = map_option (\<lambda>job. job\<lparr>aj_cancellations := []\<rparr>) (hm_get (jm_active jm) jid)"
    for jid by (simp add: hm_get_def map_of_map)
  with assms(2) have first: "typed_jobs_step p jm jm1"
    by (auto simp: typed_jobs_step_def jobs_typed_def jm1_def)
  have "set (iter (jm_active jm)) = set (jm_active jm)"
    using assms(4) by (metis hash_order_def set_mset_mset)
  moreover have "hm_get (jm_active jm) jid = Some job" if "(jid, job) \<in> set (jm_active jm)" for jid job
    using that assms(3) by (simp add: hm_get_def hm_wf_def)
  ultimately have ids: "\<forall>c \<in> set ?cs. job_id_ok p (Some (pc_job_id c))"
    using assms(2) by (fastforce simp: jobs_typed_def)
  obtain r2 jm2 where acks: "send_acknowledgements world 0 ?cs jm1 = (r2, jm2)"
    by (cases "send_acknowledgements world 0 ?cs jm1")
  from first have "jobs_typed p jm1" by (simp add: typed_jobs_step_def)
  from send_acknowledgements_typed [OF acks this ids] assms(5) have "typed_jobs_step p jm1 jm2" by simp
  with first have "typed_jobs_step p jm jm2" by (rule typed_jobs_trans)
  moreover from assms(1) acks have "jm' = jm2 \<or> jm' = jm2\<lparr>jm_active := hm_empty\<rparr>"
    by (cases r2) (simp_all add: jobs_shutdown_def Let_def jm1_def [symmetric])
  ultimately show ?thesis
    by (auto simp: typed_jobs_step_def jobs_typed_def hm.get_empty)
qed

section \<open>What the session sends\<close>

lemma route_typed: "typed_step p h (snd (route reply trace payload h))"
  by (auto simp: route_def typed_step_def Let_def split: option.splits)

lemma handle_response_typed:
  assumes "jobs_typed p jm"
  shows "typed_jobs_step p jm (snd (handle_response reply trace payload jm))"
proof (cases payload)
  case None
  with assms show ?thesis by (simp add: handle_response_def ok_or_def typed_jobs_refl)
next
  case (Some x)
  define checked where
    "checked = (case x of PProtocolError error \<Rightarrow> validate_protocol_error error | _ \<Rightarrow> Inr ())"
  have "handle_response reply trace payload jm =
      st_and_then (checked, jm) (\<lambda>_ jm. route_to_jobs reply trace x jm)"
    by (simp add: handle_response_def Some ok_or_def checked_def)
  with typed_jobs_refl [OF assms] typed_world [OF assms route_typed] show ?thesis
    by (cases checked) (simp_all add: route_to_jobs_def split_beta Let_def)
qed

lemma send_and_wait_typed:
  assumes "send_and_wait_for_consumption n ack reply trace payload (hc_sender h) = (r, s)"
    and "payload_ok p (hc_session_id h) payload"
  shows "typed_step p h (h\<lparr>hc_sender := s\<rparr>)"
proof -
  have "s = snd (send_with (Some n) reply trace payload (hc_sender h))"
    using assms(1)
    by (cases "send_with (Some n) reply trace payload (hc_sender h)"; cases ack)
      (auto simp: send_and_wait_for_consumption_def st_and_then_def split: sum.splits)
  with assms(2) show ?thesis
    by (auto simp: typed_step_def send_with_eq wire_envelopes_def split: if_splits)
qed

definition typed_env :: "uuid_parser \<Rightarrow> serve_env \<Rightarrow> bool" where
  "typed_env p env \<longleftrightarrow> (\<forall>i h. typed_step p h (sn_world env i h))"

lemma handle_shutdown_typed:
  assumes "handle_shutdown env mid trace req jm = (r, jm')" and "jobs_typed p jm"
    and "hm_wf (jm_active jm)" and "well_behaved env" and "typed_env p env"
  shows "typed_jobs_step p jm jm'"
proof (cases "validate_shutdown req")
  case (Inl e)
  with assms show ?thesis by (simp add: handle_shutdown_def typed_jobs_refl)
next
  case (Inr deadline)
  obtain r1 jm1 where shut: "jobs_shutdown (sn_iter env) (sn_world env) jm = (r1, jm1)"
    by (cases "jobs_shutdown (sn_iter env) (sn_world env) jm")
  have first: "typed_jobs_step p jm jm1"
    by (rule jobs_shutdown_typed [OF shut assms(2,3)])
      (use assms(4,5) in \<open>simp_all add: well_behaved_def typed_env_def\<close>)
  obtain r2 s where ack: "send_and_wait_for_consumption (sn_consumed env) (sn_acknowledgment env)
      (Some mid) trace PShutdownAcknowledged (hc_sender (jm_host jm1)) = (r2, s)"
    by (cases "send_and_wait_for_consumption (sn_consumed env) (sn_acknowledgment env)
      (Some mid) trace PShutdownAcknowledged (hc_sender (jm_host jm1))")
  from first have "jobs_typed p jm1" by (simp add: typed_jobs_step_def)
  from typed_world [OF this send_and_wait_typed [OF ack]]
  have "typed_jobs_step p jm1 (jm1\<lparr>jm_host := (jm_host jm1)\<lparr>hc_sender := s\<rparr>\<rparr>)" by simp
  with first have "typed_jobs_step p jm (jm1\<lparr>jm_host := (jm_host jm1)\<lparr>hc_sender := s\<rparr>\<rparr>)"
    by (rule typed_jobs_trans)
  with assms(1) Inr shut ack first show ?thesis
    by (cases r1) (auto simp: handle_shutdown_def)
qed

lemma on_jobs_jobs [simp]: "sv_jobs (snd (on_jobs step session)) = snd step"
  by (simp add: on_jobs_def)

lemma handle_request_typed:
  assumes "jobs_typed p jm" and "hm_wf (jm_active jm)" and "well_behaved env" and "typed_env p env"
  shows "typed_jobs_step p jm
    (sv_jobs (snd (handle_request p env mid trace payload session jm)))"
proof -
  have heart: "typed_jobs_step p jm (snd (send_from (Some mid) trace (PHeartbeat h) jm))" for h
    by (rule send_from_typed [OF prod.collapse [symmetric] assms(1)]) simp
  have shut: "typed_jobs_step p jm (snd (handle_shutdown env mid trace req jm))" for req
    by (rule handle_shutdown_typed [OF prod.collapse [symmetric] assms])
  have "typed_jobs_step p jm (snd (jobs_start p mid trace start jm))" for start
    by (rule jobs_start_typed [OF prod.collapse [symmetric] assms(1)])
  moreover have "typed_jobs_step p jm (snd (jobs_cancel p mid trace req jm))" for req
    by (rule jobs_cancel_typed [OF prod.collapse [symmetric] assms(1)])
  ultimately show ?thesis
    using heart shut typed_jobs_refl [OF assms(1)]
    by (auto simp: handle_request_def Let_def split: option.splits payload.splits prod.splits)
      (metis snd_conv)+
qed

lemma serve_step_typed:
  assumes "serve_step p env event s = Some (r, s')"
    and "jobs_typed p (sv_jobs s)" and "hm_wf (jm_active (sv_jobs s))"
    and "well_behaved env" and "typed_env p env"
  shows "typed_jobs_step p (sv_jobs s) (sv_jobs s')"
proof (cases event)
  case (MessageBranch message)
  have "typed_jobs_step p (sv_jobs s) (sv_jobs (snd (handle_message p env message s)))"
    using typed_jobs_refl [OF assms(2)] handle_response_typed [OF assms(2)]
      handle_request_typed [OF assms(2-5)]
    by (auto simp: handle_message_def split: sum.splits option.splits prod.splits)
  with assms(1) MessageBranch show ?thesis by (simp add: serve_step_def)
next
  case (FinishedBranch k)
  show ?thesis
  proof (cases "has_active_jobs (sv_jobs s)")
    case False
    with assms(1,2) FinishedBranch show ?thesis by (auto simp: serve_step_def intro: typed_jobs_refl)
  next
    case True
    show ?thesis
    proof (cases "jobs_join_next k (sv_jobs s)")
      case (Joins x)
      obtain f jm1 where x: "x = (f, jm1)" by (cases x)
      from Joins x have "jm1 = (sv_jobs s)\<lparr>jm_tasks := remove_nth k (jm_tasks (sv_jobs s))\<rparr>"
        by (auto simp: jobs_join_next_def Let_def split: if_splits task_state.splits)
      with assms(2) have first: "typed_jobs_step p (sv_jobs s) jm1"
        by (simp add: typed_jobs_step_def jobs_typed_def)
      show ?thesis
      proof (cases f)
        case (Inl e)
        with assms(1) FinishedBranch True Joins x first show ?thesis by (auto simp: serve_step_def)
      next
        case (Inr fin)
        with assms(1) FinishedBranch True Joins x obtain settled where
          settled: "jobs_settle (sn_world env) fin jm1 = Some settled" "s' = snd (on_jobs settled (sv_session s))"
          by (auto simp: serve_step_def)
        from first have "jobs_typed p jm1" by (simp add: typed_jobs_step_def)
        with settled(1) have "typed_jobs_step p jm1 (snd settled)"
          using assms(5) jobs_settle_typed [of "sn_world env" fin jm1 "fst settled" "snd settled" p]
          by (simp add: typed_env_def)
        with first settled(2) show ?thesis by (auto intro: typed_jobs_trans)
      qed
    qed (use assms(1,2) FinishedBranch True in \<open>auto simp: serve_step_def intro: typed_jobs_refl\<close>)
  qed
qed

text \<open>The tasks leave the manager's table of jobs alone.\<close>

lemma background_active:
  assumes "background p jm jm'"
  shows "jm_active jm' = jm_active jm"
proof -
  from assms obtain ls where "run (jobs_step p) jm ls jm'" "\<forall>l \<in> set ls. fst l = Other"
    by (auto simp: background_def)
  then show ?thesis
  proof (induction rule: run.induct)
    case run_nil
    then show ?case by simp
  next
    case (run_snoc ls jm1 l jm2)
    from run_snoc(2) have "jm_active jm2 = jm_active jm1 \<or> fst l \<noteq> Other"
      by (cases rule: jobs_step.cases) (auto simp: task_ends_def set_task_state_def split: if_splits)
    with run_snoc show ?case by simp
  qed
qed

definition typed_turns :: "uuid_parser \<Rightarrow> 'h serve_turn list \<Rightarrow> bool" where
  "typed_turns p turns \<longleftrightarrow>
     (\<forall>(tasks, env, event) \<in> set turns.
        typed_env p env \<and> (\<forall>jm. typed_step p (jm_host jm) (jm_host (tasks jm))))"

lemma serve_typed:
  assumes "jobs_inv [] (sv_jobs s)" and "jobs_typed p (sv_jobs s)"
    and "lawful p turns" and "typed_turns p turns"
  shows "typed_step p (jm_host (sv_jobs s)) (jm_host (sv_jobs (snd (serve p turns s))))"
  using assms
proof (induction turns arbitrary: s)
  case Nil
  then show ?case by simp
next
  case (Cons turn turns)
  obtain tasks env event where turn: "turn = (tasks, env, event)" by (cases turn)
  let ?s = "s\<lparr>sv_jobs := tasks (sv_jobs s)\<rparr>"
  from Cons.prems(3,4) have env: "well_behaved env" "typed_env p env"
    and bg: "background p (sv_jobs s) (sv_jobs ?s)" and lawful: "lawful p turns" "typed_turns p turns"
    and tasks: "typed_step p (jm_host (sv_jobs s)) (jm_host (sv_jobs ?s))"
    by (auto simp: turn lawful_Cons typed_turns_def)
  have inv: "jobs_inv [] (sv_jobs ?s)" using background_inv [OF bg Cons.prems(1)] .
  then have wf: "hm_wf (jm_active (sv_jobs ?s))" by (simp add: jobs_inv_def)
  have typed: "jobs_typed p (sv_jobs ?s)"
    using Cons.prems(2) background_active [OF bg] by (simp add: jobs_typed_def)
  obtain r s1 where step: "serve_step p env event ?s = Some (r, s1)"
    using serve_step_total [OF inv env(1)] by fastforce
  from serve_step_typed [OF step typed wf env]
  have s1: "typed_step p (jm_host (sv_jobs s)) (jm_host (sv_jobs s1))" "jobs_typed p (sv_jobs s1)"
    using typed_step_trans [OF tasks] by (auto simp: typed_jobs_step_def)
  show ?case
  proof (cases "r = Inr Continue")
    case True
    with serve_step_continue [OF _ inv env(1)] step have "manager_turn p event (sv_jobs ?s) (sv_jobs s1)"
      by simp
    from Cons.IH [OF manager_turn_inv [OF this inv] s1(2) lawful] s1(1) step True show ?thesis
      by (auto simp: turn intro: typed_step_trans)
  next
    case False
    with step s1(1) show ?thesis by (simp add: turn split: sum.splits serve_flow.splits)
  qed
qed

section \<open>The whole session\<close>

lemma plugin_hello_ok:
  assumes "plugin_inv plugin" and "validate_plugin_id (pl_plugin_id plugin) = Inr ()"
    and "pl_version plugin \<noteq> []" and "hash_order iter"
  shows "hello_ok (plugin_hello_for iter plugin name)"
proof -
  let ?es = "iter (pl_actions plugin)"
  have perm: "mset ?es = mset (pl_actions plugin)" using assms(4) by (simp add: hash_order_def)
  have "distinct (map fst (pl_actions plugin))" using assms(1) by (simp add: plugin_inv_def hm_wf_def)
  then have "distinct (map fst ?es)"
    using perm by (metis mset_eq_imp_distinct_iff mset_map)
  moreover have "[] \<notin> set (map fst ?es)"
    using assms(1) mset_eq_setD [OF perm] by (force simp: plugin_inv_def hm_get_def domIff map_of_eq_None_iff)
  moreover have "map ad_name (ph_actions (plugin_hello_for iter plugin name)) = map fst ?es"
    by (simp add: plugin_hello_for_def case_prod_beta)
  ultimately show ?thesis
    using assms(2,3) unfolding hello_ok_def by (simp add: plugin_hello_for_def del: map_map set_map)
qed

text \<open>The identity under which the host opens the session.\<close>

definition named_identity :: "stream_message \<Rightarrow> session_identity" where
  "named_identity message =
     (case message of
        Inr (Some first) \<Rightarrow>
          \<lparr>si_session_id = env_session_id first, si_instance_id = env_plugin_instance_id first\<rparr>
      | _ \<Rightarrow> \<lparr>si_session_id = [], si_instance_id = []\<rparr>)"

lemma hello_identity:
  "check_hello p plugin first = Inr (hello, trace, session) \<Longrightarrow> st_identity session = named_identity first"
  by (auto simp: check_hello_Inr_iff named_identity_def)

lemma handshake_typed:
  assumes "handshake p iter closed plugin first second = Some (r, Some sender)"
    and "\<And>name. hello_ok (plugin_hello_for iter plugin name)"
  shows "list_all (envelope_ok p (named_identity first)) (wire_envelopes sender)"
proof -
  from assms(1) obtain hello trace session where
    hello: "check_hello p plugin first = Inr (hello, trace, session)"
    by (auto simp: handshake_def split: sum.splits)
  from check_hello_named [OF this] obtain name where
    name: "hh_plugin_name hello = Some (PluginName name)" by blast
  let ?s0 = "(new_sender (st_identity session))\<lparr>ss_closed := closed 0\<rparr>"
  let ?hello = "PPluginHello (plugin_hello_for iter plugin name)"
  have send: "ss_identity s' = ss_identity s \<and> (list_all (envelope_ok p (ss_identity s)) (wire_envelopes s) \<longrightarrow>
      list_all (envelope_ok p (ss_identity s)) (wire_envelopes s'))"
    if "send None trace payload s = (r, s')" "payload_ok p (si_session_id (ss_identity s)) payload"
    for payload s r s'
    using that by (auto simp: send_eq wire_envelopes_def split: if_splits)
  obtain r1 s1 where send1: "send None trace ?hello ?s0 = (r1, s1)"
    by (cases "send None trace ?hello ?s0")
  with send [OF this] assms(2) have s1: "ss_identity s1 = st_identity session"
    "list_all (envelope_ok p (st_identity session)) (wire_envelopes s1)"
    by (simp_all add: new_sender_def wire_envelopes_def)
  obtain r2 s2 where send2: "send None trace PReady (s1\<lparr>ss_closed := closed 1\<rparr>) = (r2, s2)"
    by (cases "send None trace PReady (s1\<lparr>ss_closed := closed 1\<rparr>)")
  with send [OF this] s1 have s2: "list_all (envelope_ok p (st_identity session)) (wire_envelopes s2)"
    by (simp add: wire_envelopes_def)
  have "sender = s1 \<or> sender = s2"
    using assms(1) hello name send1 send2
    by (auto simp: handshake_def Let_def split: sum.splits prod.splits if_splits)
  with s1(2) s2 show ?thesis unfolding hello_identity [OF hello] by blast
qed

lemma handshake_identity:
  assumes "handshake p iter closed plugin first second = Some (Inr (session, host), sender)"
  shows "client_identity host = st_identity session" and "st_identity session = named_identity first"
proof -
  from handshake_ok [OF assms] obtain hello trace where
    hello: "check_hello p plugin first = Inr (hello, trace, session\<lparr>st_last_host_message_id :=
       message_id (the (projr first))\<rparr>)"
    by metis
  then show "st_identity session = named_identity first" using hello_identity by fastforce
  from hello show "client_identity host = st_identity session"
    using assms
    by (auto simp: handshake_def Let_def new_host_client_def send_eq new_sender_def
        split: option.splits prod.splits sum.splits if_splits)
qed

lemma session_typed:
  assumes "plugin_inv plugin" and "validate_plugin_id (pl_plugin_id plugin) = Inr ()"
    and "pl_version plugin \<noteq> []" and "hash_order (sw_action_order w)"
    and "lawful p (sw_turns w)" and "typed_turns p (sw_turns w)"
  shows "list_all (envelope_ok p (named_identity (sw_first w))) (snd (run_session p w plugin))"
proof (cases "handshake p (sw_action_order w) (sw_closed w) plugin (sw_first w) (sw_second w)")
  case None
  then show ?thesis using handshake_total by blast
next
  case (Some rs)
  obtain r sender where rs: "rs = (r, sender)" by (cases rs)
  note hello = plugin_hello_ok [OF assms(1-4)]
  show ?thesis
  proof (cases r)
    case (Inl e)
    with Some rs handshake_typed [OF _ hello] show ?thesis
      by (cases sender) (auto simp: run_session_def split: sum.splits)
  next
    case (Inr sh)
    obtain session host where sh: "sh = (session, host)" by (cases sh)
    note shaken = Some [unfolded rs Inr sh]
    from handshake_ok [OF shaken] obtain trace name where
      wire: "client_wire host = [seal_envelope (st_identity session) 1 None trace
          (PPluginHello (plugin_hello_for (sw_action_order w) plugin name)),
        seal_envelope (st_identity session) 2 None trace PReady]"
      and host: "client_inv host" "hc_session_id host = si_session_id (st_identity session)"
      by metis
    from handshake_identity [OF shaken] have identity: "client_identity host = st_identity session"
      and named: "st_identity session = named_identity (sw_first w)" .
    let ?s = "initial_serve_state plugin session host"
    note start = initial_serve_state_inv [OF host(1), of plugin session]
    have "jobs_typed p (sv_jobs ?s)"
      using start(2) by (simp add: jobs_typed_def initial_serve_state_def new_job_manager_def hm.get_empty)
    from serve_typed [OF start(1) this assms(5,6)] start(3) identity host(2)
    have "list_all (envelope_ok p (st_identity session))
        (client_wire (jm_host (sv_jobs (snd (serve p (sw_turns w) ?s)))))"
      by (auto simp: typed_step_def wire hello)
    then show ?thesis
      using shaken unfolding named
      by (auto simp: run_session_def split_beta split: sum.splits)
  qed
qed

end
