(* ===== verification/Teardown.thy ===== *)
theory Teardown
  imports Jobs_Refinement
begin

text \<open>
  A session that ends with an error, or whose parent is gone, does not shut its job manager
  down: the manager is dropped. Dropping its \<open>JoinSet\<close> aborts every task, and a task that has
  begun owns a \<open>FinishGuard\<close> (\<open>src/runtime/cancellation.rs\<close>) which is dropped with it. This
  is the state in which the aborted tasks leave what an action's own work may still hold: the
  state words and the client.
\<close>

definition drop_finish_guard :: "nat \<Rightarrow> u8 list \<Rightarrow> u8 list" where
  "drop_finish_guard controller tokens = fire_token finish controller tokens"

text \<open>\<open>begun i\<close>: the \<open>i\<close>-th task has been polled. One that has not never made its guard.\<close>

definition jobs_drop :: "(nat \<Rightarrow> bool) \<Rightarrow> 'h job_manager \<Rightarrow> 'h job_manager" where
  "jobs_drop begun jm =
     jm\<lparr>jm_active := hm_empty, jm_tasks := [],
        jm_tokens := fold (\<lambda>i. drop_finish_guard (jt_controller (jm_tasks jm ! i)))
          (filter begun [0..<length (jm_tasks jm)]) (jm_tokens jm)\<rparr>"

lemma finish_twice [simp]: "fst (finish (fst (finish w))) = fst (finish w)"
  by (simp add: finish_word)

lemma drop_guards_nth:
  assumes "c < length tokens"
  shows "fold (\<lambda>i. drop_finish_guard (f i)) ks tokens ! c =
    (if c \<in> f ` set ks then fst (finish (tokens ! c)) else tokens ! c)"
  using assms
proof (induction ks arbitrary: tokens)
  case (Cons k ks)
  show ?case
    using Cons.IH [of "drop_finish_guard (f k) tokens"] Cons.prems
    by (cases "c = f k")
      (auto simp: drop_finish_guard_def fire_token_def nth_list_update)
qed simp

lemma task_controller_index:
  assumes "jobs_inv hand jm" and "k < length (jm_tasks jm)"
  shows "jt_controller (jm_tasks jm ! k) < length (jm_tokens jm)"
proof -
  from assms have "own_tokens jm" "task_ok jm (jm_tasks jm ! k)" by (auto simp: jobs_inv_def)
  then show ?thesis by (auto simp: task_ok_def dest: own_tokens_index)
qed

lemma jobs_drop_word:
  assumes "jobs_inv hand jm" and "k < length (jm_tasks jm)" and "begun k"
  shows "jm_tokens (jobs_drop begun jm) ! jt_controller (jm_tasks jm ! k) =
    fst (finish (jm_tokens jm ! jt_controller (jm_tasks jm ! k)))"
  using assms(2,3) task_controller_index [OF assms(1,2)]
  by (auto simp: jobs_drop_def drop_guards_nth)

text \<open>Nothing else of a job is left, and nothing is said about it.\<close>

lemma jobs_drop_inv:
  assumes "jobs_inv hand jm"
  shows "jobs_inv [] (jobs_drop begun jm)" and "jm_host (jobs_drop begun jm) = jm_host jm"
    and "\<not> has_active_jobs (jobs_drop begun jm)"
  using assms
  by (auto simp: jobs_drop_def jobs_inv_def own_tokens_def has_active_jobs_def
      hm.map_laws hm.len_empty)

text \<open>A word that has moved refuses whatever a context could do.\<close>

lemma ended_word_refuses:
  assumes "w \<noteq> ACTIVE"
  shows "ae_word env = w \<Longrightarrow> host_call ctx c env hc = (Inl Cancelled, hc)"
    and "log ctx level target message attributes now w fate hc = (Inl Cancelled, hc)"
    and "se_entry_word store = w \<Longrightarrow>
      store_artifact p sha src ctx descriptor store hc source = Some (Inl Cancelled, hc, source)"
  using assms by (simp_all add: host_call_def log_def store_artifact_def ensure_active_def)

end
