(* ===== verification/Claims_Plugin.thy ===== *)
theory Claims_Plugin
  imports Conformance_Plugin Wire_Typing Teardown Sample_Runs Sample_Session
begin

text \<open>
  Properties of a plugin as its host meets it: every message has a type the protocol promises,
  the conformance plugin's actions say what they are declared to do, and an action whose
  manager is gone is mute.
\<close>

section \<open>Types\<close>






text \<open>C32. The calls of an action are well typed too, however their awaits end, if what other
  tasks send meanwhile is: the host call has a kind and handles of this session, the log
  record a level, a target and valid fields, the artifact a descriptor.\<close>

theorem actions_speak_well_typed:
  assumes "\<And>mid h. typed_step p h (snd (ae_world env mid h))"
    and "\<And>mid h. typed_step p h (snd (ae_world (se_start store) mid h))"
    and "\<And>mid h. typed_step p h (snd (ae_world (se_complete store) mid h))"
    and "\<And>i h. typed_step p h (ce_world (se_chunks store i) h)"
  shows "typed_step p hc (snd (host_call ctx c env hc)) \<and>
    typed_step p hc (snd (log ctx level target message attributes now word fate hc)) \<and>
    pred_option (\<lambda>(r, hc', source'). typed_step p hc hc')
      (store_artifact p sha src ctx d store hc source)"
proof (intro conjI)
  have "typing.kept_await p env" "typing.kept_store p store"
    using assms by (auto simp: typing.kept_await_def typing.kept_store_def)
  then show "typed_step p hc (snd (host_call ctx c env hc))"
    and "pred_option (\<lambda>(r, hc', source'). typed_step p hc hc')
      (store_artifact p sha src ctx d store hc source)"
    using typing.host_call_keeps [OF prod.collapse [symmetric]] typing.store_artifact_keeps
    by (auto simp: option.pred_set)
  show "typed_step p hc (snd (log ctx level target message attributes now word fate hc))"
    by (rule typing.log_keeps [OF prod.collapse [symmetric]])
qed

theorem actions_speak_well_typed_witness:
  "typed_step sample_uuid_parser sample_client (snd (host_call sample_context
     (Call_GetConfig \<lparr>gc_path = None\<rparr>) (answered (PHostResult sample_response)) sample_client))"
  using actions_speak_well_typed [of sample_uuid_parser "answered (PHostResult sample_response)"
      sample_store sample_client sample_context "Call_GetConfig \<lparr>gc_path = None\<rparr>" LogInfo "''t''" "''m''" "[]"
      sample_time ACTIVE Completes sample_sha cursor_source sample_descriptor sample_source]
  by (simp add: sample_store_def answered_def)

section \<open>The conformance plugin\<close>




text \<open>C31. The artifact action returns. If it succeeds, the wire carries its sixteen bytes as
  one transfer, whole and in order, and its result becomes the text \<open>artifact\<close> together with
  the descriptor, whose digest is that of the bytes.\<close>

theorem artifact_action_delivers_its_artifact:
  assumes "sha256_contract sha digest" and "quiet conformance_artifact_id env"
  shows "\<exists>r hc' sent. artifact_action p sha ctx env hc = Some (r, hc') \<and>
    adds conformance_artifact_id sent hc hc' \<and>
    art_sha256 (conformance_descriptor sha) = digest artifact_payload \<and>
    (case r of
       Inl _ \<Rightarrow> True
     | Inr result \<Rightarrow>
         into_wire result (ac_job_id ctx) =
           Some (Inr (Some (string_value ''artifact''), [conformance_descriptor sha])) \<and>
         (\<exists>plan. artifact_plan 16 (hc_maximum_artifact_chunk_bytes hc) = Inr plan \<and>
            sent = transfer_sequence ctx (conformance_descriptor sha) conformance_artifact_id plan
              artifact_payload))"
proof -
  from artifact_action_delivers [OF assms, of p ctx hc] obtain r hc' sent where
    "artifact_action p sha ctx env hc = Some (r, hc')" "adds conformance_artifact_id sent hc hc'"
    and ok: "\<And>result. r = Inr result \<Longrightarrow>
      into_wire result (ac_job_id ctx) =
        Some (Inr (Some (string_value ''artifact''), [conformance_descriptor sha])) \<and>
      (\<exists>plan. artifact_plan 16 (hc_maximum_artifact_chunk_bytes hc) = Inr plan \<and>
         sent = transfer_sequence ctx (conformance_descriptor sha) conformance_artifact_id plan
           artifact_payload)" by blast
  moreover note artifact_digest [OF assms(1)]
  ultimately show ?thesis
    by (intro exI [of _ r] exI [of _ hc'] exI [of _ sent]) (cases r; simp)
qed

theorem artifact_action_delivers_its_artifact_witness:
  "\<exists>r hc'. artifact_action sample_uuid_parser sample_sha sample_context sample_store sample_client =
     Some (r, hc')"
  using artifact_action_delivers_its_artifact [OF sample_sha_contract sample_store_quiet,
      of sample_uuid_parser sample_context sample_client] by blast



section \<open>After the manager\<close>



end
