(* ===== verification/Tests_Values.thy ===== *)
theory Tests_Values
  imports Plugin Validation
begin

text \<open>
  The unit tests of \<open>error.rs\<close>, \<open>value.rs\<close>, \<open>validation.rs\<close> and \<open>plugin.rs\<close>, each as the
  proposition its assertions make of the model, under the name of the test. Evaluating them
  ties the model to the expectations the authors of the code wrote down.
\<close>

section \<open>Errors\<close>

definition host_protocol_errors_keep_all_structured_fields :: bool where
  "host_protocol_errors_keep_all_structured_fields =
     (let expected =
            \<lparr>pe_code = error_code_i32 CodeUnavailable, pe_message = ''retry later'',
             pe_retryable = True, pe_metadata = [''retry-after'' \<mapsto> ''1''],
             pe_details = [\<lparr>any_type_url = ''example.test/Detail'', any_value = [1, 2, 3]\<rparr>]\<rparr>
      in to_protocol_error (Host expected) = Some expected)"

definition runtime_failures_retain_their_source_and_retryability :: bool where
  "runtime_failures_retain_their_source_and_retryability =
     (let error = runtime ''read transport'' ''reset'';
          protocol = to_protocol_error error
      in sdk_error_source error \<noteq> None \<and>
         map_option pe_code protocol = Some (error_code_i32 CodeUnavailable) \<and>
         map_option pe_retryable protocol = Some True)"

lemma error_tests_pass:
  "host_protocol_errors_keep_all_structured_fields"
  "runtime_failures_retain_their_source_and_retryability"
  by (simp_all add: host_protocol_errors_keep_all_structured_fields_def Let_def
      runtime_failures_retain_their_source_and_retryability_def runtime_def to_protocol_error_def)

section \<open>Values\<close>

text \<open>\<open>f64::NAN\<close> is the quiet NaN with an empty payload.\<close>

definition durable_values_reject_non_finite_numbers_and_functions :: bool where
  "durable_values_reject_non_finite_numbers_and_functions =
     (let number = ConfigValue (Some (NumberValue 0x7FF8000000000000));
          function = ConfigValue (Some (FunctionValue
            \<lparr>fn_session_id = ''session'', fn_function_id = ''function''\<rparr>))
      in \<not> is_ok (validate_serializable number) \<and>
         \<not> is_ok (validate_serializable function) \<and>
         is_ok (validate_session_values [function] ''session''))"

definition value_depth_matches_the_canonical_limit :: bool where
  "value_depth_matches_the_canonical_limit =
     (let wrap = (\<lambda>v. ConfigValue (Some (ListValue [v])));
          accepted = (wrap ^^ MAXIMUM_VALUE_DEPTH) (ConfigValue (Some (NullValue 0)));
          rejected = wrap accepted
      in is_ok (validate_serializable accepted) \<and> \<not> is_ok (validate_serializable rejected))"

definition values_reject_invalid_protobuf_well_known_types :: bool where
  "values_reject_invalid_protobuf_well_known_types =
     (let timestamp = ConfigValue (Some (TimestampValue
            \<lparr>ts_seconds = word_of_int (PROTOBUF_TIMESTAMP_MAX_SECONDS + 1), ts_nanos = 0\<rparr>));
          duration = ConfigValue (Some (DurationValue \<lparr>dur_seconds = 1, dur_nanos = - 1\<rparr>))
      in \<not> is_ok (validate_serializable timestamp) \<and> \<not> is_ok (validate_serializable duration))"

definition session_values_reject_foreign_function_handles :: bool where
  "session_values_reject_foreign_function_handles =
     (let function = ConfigValue (Some (FunctionValue
            \<lparr>fn_session_id = ''another-session'', fn_function_id = ''function''\<rparr>))
      in \<not> is_ok (validate_session_values [function] ''session''))"

lemma value_tests_pass:
  "durable_values_reject_non_finite_numbers_and_functions"
  "value_depth_matches_the_canonical_limit"
  "values_reject_invalid_protobuf_well_known_types"
  "session_values_reject_foreign_function_handles"
  by code_simp+

section \<open>Validation\<close>

text \<open>The two crates, as their parsers are called in the tests.\<close>

definition test_uri :: "string \<Rightarrow> string \<Rightarrow> u16 option \<Rightarrow> string \<Rightarrow> error_source + uri" where
  "test_uri scheme host port text =
     Inr \<lparr>uri_scheme_str = Some scheme,
          uri_authority = Some \<lparr>auth_host = host, auth_port_u16 = port, auth_as_str = text\<rparr>,
          uri_path = ''/'', uri_query = None\<rparr>"

definition test_uri_parser :: uri_parser where
  "test_uri_parser s =
     (if s = ''http://127.0.0.1:1234'' then test_uri ''http'' ''127.0.0.1'' (Some 1234) ''127.0.0.1:1234''
      else if s = ''http://[::1]:1234'' then test_uri ''http'' ''[::1]'' (Some 1234) ''[::1]:1234''
      else if s = ''http://localhost:1234'' then test_uri ''http'' ''localhost'' (Some 1234) ''localhost:1234''
      else if s = ''http://example.com:1234''
      then test_uri ''http'' ''example.com'' (Some 1234) ''example.com:1234''
      else if s = ''https://127.0.0.1:1234'' then test_uri ''https'' ''127.0.0.1'' (Some 1234) ''127.0.0.1:1234''
      else if s = ''http://127.0.0.1'' then test_uri ''http'' ''127.0.0.1'' None ''127.0.0.1''
      else if s = ''http://127.0.0.1:0'' then test_uri ''http'' ''127.0.0.1'' (Some 0) ''127.0.0.1:0''
      else if s = ''http://user@127.0.0.1:1234''
      then test_uri ''http'' ''127.0.0.1'' (Some 1234) ''user@127.0.0.1:1234''
      else Inl ''invalid uri'')"

definition test_uuid_parser :: uuid_parser where
  "test_uuid_parser s =
     (if s = ''0f337c0c-51d6-44a9-a691-a31fce775ab1''
      then Some \<lparr>uuid_get_version = Some UuidRandom, uuid_hyphenated = s\<rparr>
      else if s = ''0F337C0C-51D6-44A9-A691-A31FCE775AB1''
      then Some \<lparr>uuid_get_version = Some UuidRandom,
             uuid_hyphenated = ''0f337c0c-51d6-44a9-a691-a31fce775ab1''\<rparr>
      else if s = ''0f337c0c-51d6-14a9-a691-a31fce775ab1''
      then Some \<lparr>uuid_get_version = Some (UuidOther 1), uuid_hyphenated = s\<rparr>
      else None)"

definition endpoint_is_private_and_explicit :: "uri_parser \<Rightarrow> bool" where
  "endpoint_is_private_and_explicit parse_uri \<longleftrightarrow>
     is_ok (endpoint parse_uri ''http://127.0.0.1:1234'') \<and>
     is_ok (endpoint parse_uri ''http://[::1]:1234'') \<and>
     is_ok (endpoint parse_uri ''http://localhost:1234'') \<and>
     \<not> is_ok (endpoint parse_uri ''http://example.com:1234'') \<and>
     \<not> is_ok (endpoint parse_uri ''https://127.0.0.1:1234'') \<and>
     \<not> is_ok (endpoint parse_uri ''http://127.0.0.1'') \<and>
     \<not> is_ok (endpoint parse_uri ''http://127.0.0.1:0'') \<and>
     \<not> is_ok (endpoint parse_uri ''http://user@127.0.0.1:1234'')"

definition uuid_requires_canonical_version_four :: "uuid_parser \<Rightarrow> bool" where
  "uuid_requires_canonical_version_four parse_uuid \<longleftrightarrow>
     canonical_uuid_v4 parse_uuid ''0f337c0c-51d6-44a9-a691-a31fce775ab1'' \<and>
     \<not> canonical_uuid_v4 parse_uuid ''0f337c0c-51d6-14a9-a691-a31fce775ab1'' \<and>
     \<not> canonical_uuid_v4 parse_uuid ''0F337C0C-51D6-44A9-A691-A31FCE775AB1''"

definition host_hello_requires_complete_typed_identity :: "uuid_parser \<Rightarrow> bool" where
  "host_hello_requires_complete_typed_identity parse_uuid \<longleftrightarrow>
     (let node = \<lparr>node_identity.node_id = Some (NodeId ''0f337c0c-51d6-44a9-a691-a31fce775ab1''),
            node_name = Some (NodeName ''primary-node'')\<rparr>;
          valid = \<lparr>hh_node = Some node, hh_maximum_call_depth = 10, hh_maximum_causal_depth = 10,
            hh_maximum_artifact_chunk_bytes = 64 * 1024,
            hh_plugin_id = Some (PluginId ''org.example.echo''),
            hh_plugin_name = Some (PluginName ''echo'')\<rparr>;
          invalid_name = valid\<lparr>hh_node := Some (node\<lparr>node_name := Some (NodeName ''Not DNS'')\<rparr>)\<rparr>;
          invalid_id = valid\<lparr>hh_node := Some (node
            \<lparr>node_id := Some (NodeId ''0f337c0c-51d6-14a9-a691-a31fce775ab1'')\<rparr>)\<rparr>
      in is_ok (validate_host_hello parse_uuid ''org.example.echo'' valid) \<and>
         \<not> is_ok (validate_host_hello parse_uuid ''org.example.echo'' invalid_name) \<and>
         \<not> is_ok (validate_host_hello parse_uuid ''org.example.echo'' invalid_id))"

definition cancellation_and_shutdown_reject_unspecified_values :: bool where
  "cancellation_and_shutdown_reject_unspecified_values \<longleftrightarrow>
     is_ok (cancellation_reason (job_cancellation_reason_i32 ReasonUserRequest)) \<and>
     \<not> is_ok (cancellation_reason (job_cancellation_reason_i32 ReasonUnspecified)) \<and>
     is_ok (cancellation_reason 999) \<and>
     \<not> is_ok (validate_shutdown \<lparr>sd_reason = [], sd_grace_period_deadline = None\<rparr>) \<and>
     is_ok (validate_protocol_error \<lparr>pe_code = 999, pe_message = ''future error'',
       pe_retryable = False, pe_metadata = Map.empty, pe_details = []\<rparr>)"

definition timestamps_and_protocol_errors_must_be_in_their_domains :: bool where
  "timestamps_and_protocol_errors_must_be_in_their_domains \<longleftrightarrow>
     \<not> is_ok (validate_timestamp (Some \<lparr>ts_seconds = 0, ts_nanos = 1000000000\<rparr>) ''timestamp'') \<and>
     \<not> is_ok (validate_protocol_error \<lparr>pe_code = error_code_i32 CodeUnspecified,
       pe_message = ''missing code'', pe_retryable = False, pe_metadata = Map.empty, pe_details = []\<rparr>)"

lemma validation_tests_pass:
  "endpoint_is_private_and_explicit test_uri_parser"
  "uuid_requires_canonical_version_four test_uuid_parser"
  "host_hello_requires_complete_typed_identity test_uuid_parser"
  "cancellation_and_shutdown_reject_unspecified_values"
  "timestamps_and_protocol_errors_must_be_in_their_domains"
  by code_simp+

section \<open>The builder\<close>

definition builder_rejects_invalid_identity_and_duplicate_actions :: bool where
  "builder_rejects_invalid_identity_and_duplicate_actions \<longleftrightarrow>
     \<not> is_ok (build (builder ''invalid'' ''0.1.0'' :: unit plugin)) \<and>
     \<not> is_ok (maximum_concurrent_jobs 0 (builder ''org.example.echo'' ''0.1.0'' :: unit plugin)) \<and>
     (case action ''echo'' ''echo'' () (builder ''org.example.echo'' ''0.1.0'') of
        Inl _ \<Rightarrow> False
      | Inr declared \<Rightarrow> \<not> is_ok (action ''echo'' ''duplicate'' () declared))"

lemma builder_test_passes: "builder_rejects_invalid_identity_and_duplicate_actions"
  by code_simp

end
