(* ===== verification/Tests_Cancellation.thy ===== *)
theory Tests_Cancellation
  imports Cancel_Token
begin

text \<open>
  The unit tests of \<open>cancellation.rs\<close>, under their names, as runs of the step relation of
  \<^theory_text>\<open>Cancel_Token\<close>: what the test awaits has returned at the end of the run.
\<close>

section \<open>The tests\<close>

text \<open>One waiter, alone after the controller: four steps of its own from call to return.\<close>

definition released_after ::
  "notifier \<Rightarrow> controller_op \<Rightarrow> (cancellation_state \<Rightarrow> bool) \<Rightarrow> bool" where
  "released_after notify op check \<longleftrightarrow>
     (\<exists>s. run (cancellation_step notify) initial_cancellation
          ([Controller op, NotifyWaiters] @ replicate 4 (Waiter 0)) s \<and>
        w_pc (cs_waiters s 0) = Returned \<and> check s)"

definition cancellation_waiters_observe_the_request_before_action_cleanup :: "notifier \<Rightarrow> bool" where
  "cancellation_waiters_observe_the_request_before_action_cleanup notify \<longleftrightarrow>
     released_after notify OpCancel
       (\<lambda>s. is_cancelled (cs_value s) \<and> \<not> is_ok (ensure_active (cs_value s)))"

definition finished_contexts_cannot_emit_more_work :: "notifier \<Rightarrow> bool" where
  "finished_contexts_cannot_emit_more_work notify \<longleftrightarrow>
     released_after notify OpFinish
       (\<lambda>s. \<not> is_cancelled (cs_value s) \<and> \<not> is_ok (ensure_active (cs_value s)))"

text \<open>Sixteen waiters park before the controller cancels; each of them gets through.\<close>

definition each_waiter :: "cancellation_label list" where
  "each_waiter = concat (map (\<lambda>i. replicate 4 (Waiter i)) [0..<16])"

definition every_cloned_waiter_is_released :: "notifier \<Rightarrow> bool" where
  "every_cloned_waiter_is_released notify \<longleftrightarrow>
     (\<exists>s. run (cancellation_step notify) initial_cancellation
          (each_waiter @ [Controller OpCancel, NotifyWaiters] @ each_waiter) s \<and>
        (\<forall>i \<in> {0..<16}. w_pc (cs_waiters s i) = Returned))"

section \<open>They pass\<close>

lemma waiter_steps_frame:
  assumes "run (cancellation_step notify) s ls t" and "\<forall>l \<in> set ls. \<exists>i \<in> is. l = Waiter i"
  shows "cs_value t = cs_value s \<and> cs_notify_pending t = cs_notify_pending s \<and>
    (\<forall>j. j \<notin> is \<longrightarrow> cs_waiters t j = cs_waiters s j)"
  using assms
proof (induction rule: run.induct)
  case (run_snoc ls t l u)
  then obtain i where "l = Waiter i" "i \<in> is" by auto
  with run_snoc(2) have "cs_value u = cs_value t \<and> cs_notify_pending u = cs_notify_pending t \<and>
      (\<forall>j. j \<noteq> i \<longrightarrow> cs_waiters u j = cs_waiters t j)"
    by (auto elim: cancellation_stepE)
  with run_snoc \<open>i \<in> is\<close> show ?case by auto
qed simp

lemma waiters_return:
  assumes "notify_waiters_contract notify" and "distinct is"
    and "cancellation_inv s" and "cs_value s \<noteq> ACTIVE" and "\<not> cs_notify_pending s"
    and "\<forall>i \<in> set is. steps_to_return (w_pc (cs_waiters s i)) = 4"
  shows "\<exists>t. run (cancellation_step notify) s (concat (map (\<lambda>i. replicate 4 (Waiter i)) is)) t \<and>
    cs_value t = cs_value s \<and> (\<forall>i \<in> set is. w_pc (cs_waiters t i) = Returned)"
  using assms(2-)
proof (induction "is" arbitrary: s)
  case Nil
  show ?case by (auto intro: run_nil)
next
  case (Cons i rest)
  from Cons.prems obtain t where t: "run (cancellation_step notify) s (replicate 4 (Waiter i)) t"
    "w_pc (cs_waiters t i) = Returned"
    using waiter_returns [OF assms(1) Cons.prems(2-4), of i] by auto
  have "run (cancellation_step documented_notify) s (replicate 4 (Waiter i)) t"
    by (rule run_weaken [OF t(1) cancellation_step_documented [OF assms(1)]])
  then have inv: "cancellation_inv t" using Cons.prems(2) by (rule cancellation.run_inv)
  have frame: "cs_value t = cs_value s" "cs_notify_pending t = cs_notify_pending s"
    "\<And>j. j \<noteq> i \<Longrightarrow> cs_waiters t j = cs_waiters s j"
    using waiter_steps_frame [OF t(1), of "{i}"] by simp_all
  have "\<forall>j \<in> set rest. steps_to_return (w_pc (cs_waiters t j)) = 4"
    using Cons.prems(1,5) frame(3) by (metis distinct.simps(2) list.set_intros(2))
  with Cons.IH [of t] inv frame Cons.prems obtain u where
    u: "run (cancellation_step notify) t (concat (map (\<lambda>i. replicate 4 (Waiter i)) rest)) u"
    "cs_value u = cs_value t" "\<forall>j \<in> set rest. w_pc (cs_waiters u j) = Returned" by auto
  have "cs_waiters u i = cs_waiters t i"
    using waiter_steps_frame [OF u(1), of "set rest"] Cons.prems(1) by auto
  with t(2) u frame(1) run_append [OF u(1) t(1)] show ?case
    by (intro exI [of _ u]) simp
qed

lemma waiter_parks:
  assumes "cs_value s = ACTIVE" and "w_pc (cs_waiters s i) = WaiterIdle"
  shows "\<exists>t. run (cancellation_step notify) s (replicate 4 (Waiter i)) t \<and>
    w_pc (cs_waiters t i) = Awaiting"
proof -
  let ?step = "cancellation_step notify"
  let ?at = "\<lambda>w. s\<lparr>cs_waiters := (cs_waiters s)(i := w)\<rparr>"
  let ?w = "\<lambda>pc registered. \<lparr>w_pc = pc, w_registered = registered, w_notified = False\<rparr>"
  have "?step s (Waiter i) (?at ((cs_waiters s i)\<lparr>w_pc := LoopTop\<rparr>))"
    using call_cancelled [OF assms(2)] .
  moreover have "?step (?at ((cs_waiters s i)\<lparr>w_pc := LoopTop\<rparr>)) (Waiter i) (?at (?w Created False))"
    using create_notified [of "?at ((cs_waiters s i)\<lparr>w_pc := LoopTop\<rparr>)" i notify] by simp
  moreover have "?step (?at (?w Created False)) (Waiter i) (?at (?w Enabled True))"
    using enable [of "?at (?w Created False)" i notify] by simp
  moreover have "?step (?at (?w Enabled True)) (Waiter i) (?at (?w Awaiting True))"
    using load_active [of "?at (?w Enabled True)" i notify] assms(1) by simp
  ultimately have "run ?step s [Waiter i, Waiter i, Waiter i, Waiter i] (?at (?w Awaiting True))"
    by (intro run_cons [where step = ?step] run_single [where step = ?step])
  then show ?thesis
    by (intro exI [of _ "?at (?w Awaiting True)"]) (simp add: eval_nat_numeral)
qed

lemma waiters_park:
  assumes "distinct is" and "cs_value s = ACTIVE"
    and "\<forall>i \<in> set is. w_pc (cs_waiters s i) = WaiterIdle"
  shows "\<exists>t. run (cancellation_step notify) s (concat (map (\<lambda>i. replicate 4 (Waiter i)) is)) t \<and>
    cs_value t = ACTIVE \<and> (\<forall>i \<in> set is. w_pc (cs_waiters t i) = Awaiting)"
  using assms
proof (induction "is" arbitrary: s)
  case Nil
  then show ?case by (auto intro: run_nil)
next
  case (Cons i rest)
  then obtain t where t: "run (cancellation_step notify) s (replicate 4 (Waiter i)) t"
    "w_pc (cs_waiters t i) = Awaiting" using waiter_parks [of s i notify] by auto
  have frame: "cs_value t = cs_value s" "\<And>j. j \<noteq> i \<Longrightarrow> cs_waiters t j = cs_waiters s j"
    using waiter_steps_frame [OF t(1), of "{i}"] by simp_all
  have "\<forall>j \<in> set rest. w_pc (cs_waiters t j) = WaiterIdle"
    using Cons.prems(1,3) frame(2) by (metis distinct.simps(2) list.set_intros(2))
  with Cons.IH [of t] frame Cons.prems obtain u where
    u: "run (cancellation_step notify) t (concat (map (\<lambda>i. replicate 4 (Waiter i)) rest)) u"
    "cs_value u = ACTIVE" "\<forall>j \<in> set rest. w_pc (cs_waiters u j) = Awaiting" by auto
  have "cs_waiters u i = cs_waiters t i"
    using waiter_steps_frame [OF u(1), of "set rest"] Cons.prems(1) by auto
  with t(2) u run_append [OF u(1) t(1)] show ?case
    by (intro exI [of _ u]) simp
qed

text \<open>A controller that wins and notifies leaves every waiter where it was, but woken.\<close>

lemma controller_notifies:
  assumes "notify_waiters_contract notify" and "cs_value s = ACTIVE"
  shows "\<exists>t. run (cancellation_step notify) s [Controller op, NotifyWaiters] t \<and>
    cs_value t = outcome_word op \<and> \<not> cs_notify_pending t \<and>
    (\<forall>i. w_pc (cs_waiters t i) = w_pc (cs_waiters s i))"
proof -
  let ?s1 = "s\<lparr>cs_value := outcome_word op, cs_notify_pending := True\<rparr>"
  from assms(1) obtain w where w: "notify (cs_waiters ?s1) w" "documented_notify (cs_waiters ?s1) w"
    unfolding notify_waiters_contract_def by blast
  let ?s2 = "?s1\<lparr>cs_notify_pending := False, cs_waiters := w\<rparr>"
  have one: "cancellation_step notify s (Controller op) ?s1" using assms(2) by (rule controller_wins)
  have two: "cancellation_step notify ?s1 NotifyWaiters ?s2"
    by (rule notify_waiters) (simp, rule w(1))
  from run_cons [where step = "cancellation_step notify", OF one
      run_single [where step = "cancellation_step notify", OF two]] notify_effect(1) [OF w(2)]
  show ?thesis by (intro exI [of _ ?s2]) simp
qed

lemma released_after_controller:
  assumes "notify_waiters_contract notify"
    and "\<And>s. cs_value s = outcome_word op \<Longrightarrow> check s"
  shows "released_after notify op check"
proof -
  obtain s where s: "run (cancellation_step notify) initial_cancellation [Controller op, NotifyWaiters] s"
    "cs_value s = outcome_word op" "\<not> cs_notify_pending s" "w_pc (cs_waiters s 0) = WaiterIdle"
    using controller_notifies [OF assms(1), of initial_cancellation op]
    by (auto simp: initial_cancellation_def)
  with waiters_return [OF assms(1) _ cancellation_reachable_inv [OF assms(1) s(1)], of "[0]"]
  obtain t where t: "run (cancellation_step notify) s (replicate 4 (Waiter 0)) t"
    "cs_value t = outcome_word op" "w_pc (cs_waiters t 0) = Returned"
    by (auto)
  with run_append [OF t(1) s(1)] assms(2) show ?thesis
    unfolding released_after_def by (intro exI [of _ t]) simp
qed

lemma cancellation_tests_pass:
  assumes "notify_waiters_contract notify"
  shows "cancellation_waiters_observe_the_request_before_action_cleanup notify"
    and "finished_contexts_cannot_emit_more_work notify"
    and "every_cloned_waiter_is_released notify"
proof -
  show "cancellation_waiters_observe_the_request_before_action_cleanup notify"
    unfolding cancellation_waiters_observe_the_request_before_action_cleanup_def
    by (rule released_after_controller [OF assms])
      (simp add: is_cancelled_def ensure_active_def state_words)
  show "finished_contexts_cannot_emit_more_work notify"
    unfolding finished_contexts_cannot_emit_more_work_def
    by (rule released_after_controller [OF assms])
      (simp add: is_cancelled_def ensure_active_def state_words)
  obtain s where s: "run (cancellation_step notify) initial_cancellation each_waiter s"
    "cs_value s = ACTIVE" "\<forall>i \<in> set [0..<16]. w_pc (cs_waiters s i) = Awaiting"
    using waiters_park [of "[0..<16]" initial_cancellation notify]
    by (auto simp: initial_cancellation_def each_waiter_def simp del: upt_rec_numeral)
  obtain t where t: "run (cancellation_step notify) s [Controller OpCancel, NotifyWaiters] t"
    "cs_value t = CANCELLED" "\<not> cs_notify_pending t"
    "\<forall>i. w_pc (cs_waiters t i) = w_pc (cs_waiters s i)"
    using controller_notifies [OF assms s(2), of OpCancel] by auto
  note until = run_append [OF t(1) s(1)]
  have "\<forall>i \<in> set [0..<16]. steps_to_return (w_pc (cs_waiters t i)) = 4" using s(3) t(4) by simp
  from waiters_return [OF assms _ cancellation_reachable_inv [OF assms until] _ t(3) this]
  obtain u where u: "run (cancellation_step notify) t each_waiter u"
    "\<forall>i \<in> set [0..<16]. w_pc (cs_waiters u i) = Returned"
    using t(2) unfolding each_waiter_def by (auto simp: state_words)
  have "run (cancellation_step notify) initial_cancellation
      ((each_waiter @ [Controller OpCancel, NotifyWaiters]) @ each_waiter) u"
    by (rule run_append [OF u(1) until])
  with u(2) show "every_cloned_waiter_is_released notify"
    unfolding every_cloned_waiter_is_released_def set_upt
    by (intro exI [of _ u]) (simp only: append_assoc simp_thms)
qed

end
