(* ===== verification/Tests_Client.thy ===== *)
theory Tests_Client
  imports Action_Context Outgoing
begin

text \<open>
  The unit tests of \<open>sender.rs\<close>, \<open>host.rs\<close>, \<open>host/client.rs\<close> and \<open>host/artifact.rs\<close>, under
  their names, as propositions about the model. A task that a test spawns is interleaved
  where the test synchronises with it.
\<close>

section \<open>The sender\<close>

definition sender_test_trace :: trace_context where
  "sender_test_trace = \<lparr>correlation_id = ''correlation'', parent_call_id = None, call_depth = 0,
     causal_depth = 0, task_id = None, task_group_id = None\<rparr>"

definition sender_test_payload :: "u64 \<Rightarrow> payload" where
  "sender_test_payload nonce = PHeartbeat \<lparr>hb_nonce = nonce\<rparr>"

definition test_identity :: session_identity where
  "test_identity = \<lparr>si_session_id = ''session'', si_instance_id = ''instance''\<rparr>"

text \<open>
  The first send fills a channel of one slot. The task of the second send, 1, has the lock
  and its ID but cannot push until the receiver has taken the first envelope.
\<close>

definition bounded_output_preserves_order_and_applies_backpressure :: bool where
  "bounded_output_preserves_order_and_applies_backpressure \<longleftrightarrow>
     (\<exists>one full one_taken two both_taken.
        run outgoing_step (new_outgoing 1 test_identity) [Call 0, Acquire 0, Push 0] one \<and>
        sent_ids (og_sender one) = [1] \<and>
        run outgoing_step one [Call 1, Acquire 1] full \<and>
        (\<nexists>early. outgoing_step full (Push 1) early) \<and>
        outgoing_step full Take one_taken \<and> outgoing_step one_taken (Push 1) two \<and>
        sent_ids (og_sender two) = [1, 2] \<and> outgoing_step two Take both_taken \<and>
        (let received = take (og_taken both_taken) (ss_wire (og_sender both_taken));
             envelopes = map (\<lambda>e. fst (consume e)) received
         in map env_payload envelopes =
              [Some (sender_test_payload 1), Some (sender_test_payload 2)] \<and>
            map env_trace envelopes = [Some sender_test_trace, Some sender_test_trace] \<and>
            map message_id envelopes = [1, 2] \<and>
            env_session_id (envelopes ! 1) = ''session'' \<and>
            env_plugin_instance_id (envelopes ! 1) = ''instance''))"

definition test_sent :: "u64 \<Rightarrow> outbound_envelope" where
  "test_sent n = \<lparr>oe_envelope = seal_envelope test_identity n None sender_test_trace (sender_test_payload n),
     oe_consumed = None\<rparr>"

definition test_message :: "u64 \<Rightarrow> outgoing_message" where
  "test_message n = \<lparr>om_reply = None, om_trace = sender_test_trace, om_payload = sender_test_payload n,
     om_response = None\<rparr>"

definition test_channel ::
  "u64 \<Rightarrow> outbound_envelope list \<Rightarrow> nat \<Rightarrow> nat option \<Rightarrow> (nat \<Rightarrow> enqueue_pc) \<Rightarrow> outgoing_state" where
  "test_channel next wire taken lock tasks =
     \<lparr>og_capacity = 1,
      og_sender = \<lparr>ss_identity = test_identity, ss_next_message_id = next, ss_wire = wire, ss_closed = False\<rparr>,
      og_taken = taken, og_lock = lock, og_tasks = tasks,
      og_pending = \<lparr>pt_requests = hm_empty, pt_poisoned = False\<rparr>\<rparr>"

lemma test_calls:
  "outgoing_step (test_channel n w t None (\<lambda>_. NotSending)) (Call i)
     (test_channel n w t None ((\<lambda>_. NotSending)(i := AwaitingLock (test_message n))))"
  using call_enqueue [of "test_channel n w t None (\<lambda>_. NotSending)" i "test_message n"]
  by (simp add: test_channel_def)

lemma test_acquires:
  assumes "unat n + 1 < 2 ^ 64"
  shows "outgoing_step (test_channel n w t None ((\<lambda>_. NotSending)(i := AwaitingLock (test_message n)))) (Acquire i)
    (test_channel (n + 1) w t (Some i) ((\<lambda>_. NotSending)(i := AwaitingRoom (test_message n) n None)))"
  using acquire [of "test_channel n w t None ((\<lambda>_. NotSending)(i := AwaitingLock (test_message n)))" i
      "test_message n" n None] assms
  by (simp add: test_channel_def reserve_def register_for_def test_message_def checked_add_def)

lemma test_pushes:
  assumes "length w = t"
  shows "outgoing_step (test_channel m w t (Some i) ((\<lambda>_. NotSending)(i := AwaitingRoom (test_message n) n None)))
    (Push i) (test_channel m (w @ [test_sent n]) t None (\<lambda>_. NotSending))"
  using push [of "test_channel m w t (Some i) ((\<lambda>_. NotSending)(i := AwaitingRoom (test_message n) n None))" i
      "test_message n" n None] assms
  by (simp add: test_channel_def backlog_def outbound_def test_message_def test_sent_def fun_upd_idem)

lemma test_blocked:
  assumes "t < length w"
  shows "\<not> outgoing_step (test_channel m w t lock tasks) (Push i) c"
  using assms by (auto simp: test_channel_def backlog_def elim: outgoing_stepE)

lemma test_takes:
  assumes "t < length w"
  shows "outgoing_step (test_channel m w t lock tasks) Take (test_channel m w (Suc t) lock tasks)"
  using take_out [of "test_channel m w t lock tasks"] assms by (simp add: test_channel_def)

lemma backpressure_test_passes: "bounded_output_preserves_order_and_applies_backpressure"
proof -
  let ?idle = "\<lambda>_. NotSending" and ?step = outgoing_step
  let ?held = "test_channel 3 [test_sent 1] 0 (Some 1) (?idle(1 := AwaitingRoom (test_message 2) 2 None))"
  have first: "?step (test_channel 1 [] 0 None (?idle(0 := AwaitingLock (test_message 1)))) (Acquire 0)
      (test_channel 2 [] 0 (Some 0) (?idle(0 := AwaitingRoom (test_message 1) 1 None)))"
    using test_acquires [of 1 "[]" 0 0] by simp
  have second: "?step (test_channel 2 [test_sent 1] 0 None (?idle(1 := AwaitingLock (test_message 2))))
      (Acquire 1) ?held"
    using test_acquires [of 2 "[test_sent 1]" 0 1] by simp
  have s1: "run ?step (test_channel 1 [] 0 None ?idle) [Call 0, Acquire 0, Push 0]
      (test_channel 2 [test_sent 1] 0 None ?idle)"
    using test_pushes [of "[]" 0 2 0 1]
    by (intro run_cons [where step = ?step, OF test_calls] run_cons [where step = ?step, OF first]
        run_single [where step = ?step]) simp_all
  have s2: "run ?step (test_channel 2 [test_sent 1] 0 None ?idle) [Call 1, Acquire 1] ?held"
    by (rule run_cons [where step = ?step, OF test_calls run_single [where step = ?step, OF second]])
  have s3: "\<nexists>early. ?step ?held (Push 1) early" using test_blocked [of 0 "[test_sent 1]"] by auto
  have s4: "?step ?held Take (test_channel 3 [test_sent 1] 1 (Some 1)
      (?idle(1 := AwaitingRoom (test_message 2) 2 None)))"
    using test_takes [of 0 "[test_sent 1]"] by simp
  have s5: "?step (test_channel 3 [test_sent 1] 1 (Some 1) (?idle(1 := AwaitingRoom (test_message 2) 2 None)))
      (Push 1) (test_channel 3 [test_sent 1, test_sent 2] 1 None ?idle)"
    using test_pushes [of "[test_sent 1]" 1 3 1 2] by simp
  have s6: "?step (test_channel 3 [test_sent 1, test_sent 2] 1 None ?idle) Take
      (test_channel 3 [test_sent 1, test_sent 2] 2 None ?idle)"
    using test_takes [of 1 "[test_sent 1, test_sent 2]"] by (simp add: numeral_2_eq_2)
  have s7: "new_outgoing 1 test_identity = test_channel 1 [] 0 None ?idle"
    by (simp add: new_outgoing_def test_channel_def new_sender_def)
  show ?thesis
    unfolding bounded_output_preserves_order_and_applies_backpressure_def s7
    by (rule exI [of _ "test_channel 2 [test_sent 1] 0 None ?idle"], rule exI [of _ ?held],
        rule exI [of _ "test_channel 3 [test_sent 1] 1 (Some 1) (?idle(1 := AwaitingRoom (test_message 2) 2 None))"],
        rule exI [of _ "test_channel 3 [test_sent 1, test_sent 2] 1 None ?idle"],
        rule exI [of _ "test_channel 3 [test_sent 1, test_sent 2] 2 None ?idle"], intro conjI)
      (rule s1 s2 s3 s4 s5 s6 | simp add: test_channel_def sent_ids_def wire_envelopes_def test_sent_def
        consume_def seal_envelope_def test_identity_def)+
qed

text \<open>
  \<open>delivery\<close> is not over when the envelope is queued: it awaits the one-shot 0, which is the
  one that consuming the queued envelope fires, and ends when that has happened.
\<close>

definition terminal_delivery_can_wait_until_the_request_stream_consumes_it :: bool where
  "terminal_delivery_can_wait_until_the_request_stream_consumes_it =
     (let sender = new_sender test_identity;
          (delivery, sender1) = send_and_wait_for_consumption 0 (Inr ()) None sender_test_trace
            (sender_test_payload 1) sender
      in case ss_wire sender1 of
           [queued] \<Rightarrow>
             (let (envelope, consumed) = consume queued
              in consumed = Some 0 \<and> message_id envelope = 1 \<and> delivery = Inr 1)
         | _ \<Rightarrow> False)"

lemma sender_test_passes: "terminal_delivery_can_wait_until_the_request_stream_consumes_it"
  by (simp add: terminal_delivery_can_wait_until_the_request_stream_consumes_it_def new_sender_def
      send_and_wait_for_consumption_def send_with_eq exhausted_def checked_add_def consume_def
      seal_envelope_def)

section \<open>The client\<close>

definition client_test_trace :: trace_context where
  "client_test_trace = \<lparr>correlation_id = ''correlation'', parent_call_id = Some 7, call_depth = 1,
     causal_depth = 0, task_id = Some ''task'', task_group_id = Some ''group''\<rparr>"

definition test_client :: host_client where
  "test_client = new_host_client (new_sender test_identity) ''session'' 64 10"

text \<open>The task is aborted while it waits for its response, then the response comes.\<close>

definition late_response_to_cancelled_waiter_is_discarded_without_failing_the_session :: bool where
  "late_response_to_cancelled_waiter_is_discarded_without_failing_the_session =
     (case begin_request client_test_trace (PHostCall \<lparr>hcr_call = None\<rparr>) 0 test_client of
        (Inl _, client) \<Rightarrow> False
      | (Inr (_, guard), client) \<Rightarrow>
          (case map oe_envelope (ss_wire (hc_sender client)) of
             [sent] \<Rightarrow>
               (let (result, client1) = route (message_id sent) client_test_trace
                      (PHostResult \<lparr>hcr_result = None\<rparr>) (abandon_sent_request guard client)
                in result = Inr () \<and> pt_requests (hc_pending client1) = hm_empty)
           | _ \<Rightarrow> False))"

text \<open>The refused response drops the waiter's one-shot, so the task's receiver fails.\<close>

definition response_routing_compares_the_complete_trace_context :: "error_source \<Rightarrow> bool" where
  "response_routing_compares_the_complete_trace_context dropped =
     (case begin_request client_test_trace (PHostCall \<lparr>hcr_call = None\<rparr>) 0 test_client of
        (Inl _, client) \<Rightarrow> False
      | (Inr _, client) \<Rightarrow>
          (case map oe_envelope (ss_wire (hc_sender client)) of
             [sent] \<Rightarrow>
               (let changed = client_test_trace\<lparr>task_id := Some ''another-task''\<rparr>;
                    (result, client1) = route (message_id sent) changed
                      (PHostResult \<lparr>hcr_result = None\<rparr>) client;
                    received = (case hc_settled client1 of
                        [(_, Some payload)] \<Rightarrow> Inr payload | _ \<Rightarrow> Inl dropped)
                in \<not> is_ok result \<and> \<not> is_ok (finish_request received))
           | _ \<Rightarrow> False))"

lemma test_request:
  "begin_request client_test_trace payload 0 test_client =
     (Inr (1, \<lparr>pg_message_id = 1, pg_sent = True\<rparr>), test_client
        \<lparr>hc_sender := \<lparr>ss_identity = test_identity, ss_next_message_id = 2,
           ss_wire = [\<lparr>oe_envelope = seal_envelope test_identity 1 None client_test_trace payload,
             oe_consumed = None\<rparr>], ss_closed = False\<rparr>,
         hc_pending := \<lparr>pt_requests = [(1, \<lparr>pr_expected_trace = client_test_trace, pr_response = 0\<rparr>)],
           pt_poisoned = False\<rparr>\<rparr>)"
  by (simp add: begin_request_def send_registered_def enqueue_def reserve_def register_request_def
      test_client_def new_host_client_def new_sender_def checked_add_def hm_contains_key_def hm_get_def
      hm_empty_def hm_insert_def hm_remove_def)

lemma client_tests_pass:
  "late_response_to_cancelled_waiter_is_discarded_without_failing_the_session"
  "response_routing_compares_the_complete_trace_context dropped"
  unfolding late_response_to_cancelled_waiter_is_discarded_without_failing_the_session_def
    response_routing_compares_the_complete_trace_context_def test_request
  by (simp_all add: route_def abandon_sent_request_def seal_envelope_def test_client_def
      new_host_client_def finish_request_def hm_get_def hm_remove_def hm_empty_def)
    (simp add: client_test_trace_def)

section \<open>Results and host calls\<close>

definition test_artifact :: "'h sha256 \<Rightarrow> string \<Rightarrow> stored_artifact" where
  "test_artifact sha jid =
     \<lparr>sa_job_id = jid,
      sa_descriptor = \<lparr>art_artifact_id = Some (PluginArtifactId ''00000000-0000-4000-8000-000000000001''),
        art_file_name = ''result.txt'', art_media_type = ''text/plain'', art_size_bytes = 0,
        art_sha256 = sha_finalize sha (sha_update sha (sha_new sha) [])\<rparr>\<rparr>"

text \<open>\<open>into_wire\<close> neither panics nor succeeds.\<close>

definition refused_on_the_wire :: "action_result \<Rightarrow> string \<Rightarrow> bool" where
  "refused_on_the_wire result jid =
     (case into_wire result jid of None \<Rightarrow> False | Some r \<Rightarrow> \<not> is_ok r)"

definition result_artifacts_remain_bound_to_their_owning_job :: "'h sha256 \<Rightarrow> bool" where
  "result_artifacts_remain_bound_to_their_owning_job sha =
     refused_on_the_wire (with_artifact (test_artifact sha ''first-job'') empty_result) ''second-job''"

definition result_artifact_references_are_unique :: "'h sha256 \<Rightarrow> bool" where
  "result_artifact_references_are_unique sha =
     (let artifact = test_artifact sha ''job''
      in refused_on_the_wire (with_artifact artifact (with_artifact artifact empty_result)) ''job'')"

definition raw_configuration_calls_cannot_bypass_session_validation :: bool where
  "raw_configuration_calls_cannot_bypass_session_validation =
     (let c = Call_InvokeConfigFunction
            \<lparr>icf_function = Some \<lparr>fn_session_id = ''another-session'', fn_function_id = ''function''\<rparr>,
             icf_arguments = []\<rparr>
      in \<not> is_ok (validate_call c ''session''))"

definition host_call_responses_must_match_the_request_kind_and_session :: bool where
  "host_call_responses_must_match_the_request_kind_and_session =
     (let wrong_kind = Some (Result_ListDirectory \<lparr>lds_directory = None, lds_entries = []\<rparr>);
          foreign_function = Some (Result_GetConfig \<lparr>gc_value = Some (ConfigValue (Some
            (FunctionValue \<lparr>fn_session_id = ''another-session'', fn_function_id = ''function''\<rparr>)))\<rparr>)
      in \<not> is_ok (validate_response Kind_ReadDocument wrong_kind ''session'') \<and>
         \<not> is_ok (validate_response Kind_GetConfig foreign_function ''session''))"

lemma host_tests_pass:
  "result_artifacts_remain_bound_to_their_owning_job sha"
  "result_artifact_references_are_unique sha"
  "raw_configuration_calls_cannot_bypass_session_validation"
  "host_call_responses_must_match_the_request_kind_and_session"
  by code_simp+

section \<open>Artifacts\<close>

text \<open>A cursor that records the largest buffer it was given to read into.\<close>

record recording_source =
  rs_inner :: cursor
  rs_maximum_read_buffer :: nat

definition recording_read ::
  "(cursor \<Rightarrow> nat \<Rightarrow> (error_source + bytes) \<times> cursor) \<Rightarrow> recording_source \<Rightarrow> nat \<Rightarrow>
   (error_source + bytes) \<times> recording_source" where
  "recording_read read s n =
     (let (result, inner) = read (rs_inner s) n
      in (result, s\<lparr>rs_inner := inner, rs_maximum_read_buffer := max (rs_maximum_read_buffer s) n\<rparr>))"

definition recording_async_source :: "recording_source async_source" where
  "recording_async_source =
     \<lparr>as_read = recording_read (as_read cursor_source),
      as_read_exact = recording_read (as_read_exact cursor_source),
      as_stream_position = (\<lambda>s. let (result, inner) = as_stream_position cursor_source (rs_inner s)
        in (result, s\<lparr>rs_inner := inner\<rparr>)),
      as_seek_start = (\<lambda>s q. let (result, inner) = as_seek_start cursor_source (rs_inner s) q
        in (result, s\<lparr>rs_inner := inner\<rparr>))\<rparr>"

definition empty_artifacts_use_the_canonical_zero_chunk_plan :: bool where
  "empty_artifacts_use_the_canonical_zero_chunk_plan =
     (artifact_plan 0 (64 * 1024) = Inr \<lparr>ap_chunk_bytes = 64 * 1024, ap_chunk_count = 0\<rparr>)"

definition artifact_test_descriptor :: "'h sha256 \<Rightarrow> string \<Rightarrow> bytes \<Rightarrow> artifact_descriptor" where
  "artifact_test_descriptor sha file_name data =
     \<lparr>art_artifact_id = Some (PluginArtifactId ''0f337c0c-51d6-44a9-a691-a31fce775ab1''),
      art_file_name = file_name, art_media_type = ''text/plain'',
      art_size_bytes = of_nat (length data),
      art_sha256 = sha_finalize sha (sha_update sha (sha_new sha) data)\<rparr>"

definition source_validation_is_bounded_and_rewinds :: "'h sha256 \<Rightarrow> bool" where
  "source_validation_is_bounded_and_rewinds sha =
     (let data = replicate (unat ARTIFACT_IO_BUFFER_BYTES * 3 + 17) 7;
          descriptor = artifact_test_descriptor sha ''result.txt'' data;
          source = \<lparr>rs_inner = \<lparr>cur_bytes = data, cur_position = 0\<rparr>, rs_maximum_read_buffer = 0\<rparr>
      in case validate_source recording_async_source sha (\<lambda>_. False) descriptor source of
           None \<Rightarrow> False
         | Some (result, validated) \<Rightarrow>
             result = Inr () \<and> rs_maximum_read_buffer validated = unat ARTIFACT_IO_BUFFER_BYTES \<and>
             fst (as_read_exact recording_async_source validated (length data)) = Inr data)"

definition empty_source_is_a_valid_zero_byte_artifact :: "uuid_parser \<Rightarrow> 'h sha256 \<Rightarrow> bool" where
  "empty_source_is_a_valid_zero_byte_artifact parse_uuid sha =
     (let descriptor = artifact_test_descriptor sha ''empty.txt'' []
      in is_ok (validate_descriptor parse_uuid descriptor) \<and>
         (case validate_source cursor_source sha (\<lambda>_. False) descriptor
                 \<lparr>cur_bytes = [], cur_position = 0\<rparr> of
            None \<Rightarrow> False
          | Some (result, _) \<Rightarrow> result = Inr ()))"

definition descriptors_reject_unsafe_file_names :: "uuid_parser \<Rightarrow> 'h sha256 \<Rightarrow> bool" where
  "descriptors_reject_unsafe_file_names parse_uuid sha =
     list_all
       (\<lambda>file_name. \<not> is_ok (validate_descriptor parse_uuid (artifact_test_descriptor sha file_name [])))
       [[], ''.'', ''..'', ''../secret'', ''/tmp/secret'', ''nul'' @ [CHR 0x00] @ ''name'']"

text \<open>
  An undisturbed source whose reads are as long as they can be is accepted with an honest
  descriptor, whatever its size; the buffer it reads into has the one size.
\<close>

lemma recording_simps:
  "as_read recording_async_source \<lparr>rs_inner = \<lparr>cur_bytes = data, cur_position = p\<rparr>, rs_maximum_read_buffer = m\<rparr> n =
     (Inr (take n (drop p data)),
      \<lparr>rs_inner = \<lparr>cur_bytes = data, cur_position = p + min n (length data - p)\<rparr>, rs_maximum_read_buffer = max m n\<rparr>)"
  "as_stream_position recording_async_source
     \<lparr>rs_inner = \<lparr>cur_bytes = data, cur_position = 0\<rparr>, rs_maximum_read_buffer = m\<rparr> =
     (Inr 0, \<lparr>rs_inner = \<lparr>cur_bytes = data, cur_position = 0\<rparr>, rs_maximum_read_buffer = m\<rparr>)"
  "as_seek_start recording_async_source
     \<lparr>rs_inner = \<lparr>cur_bytes = data, cur_position = p\<rparr>, rs_maximum_read_buffer = m\<rparr> 0 =
     (Inr 0, \<lparr>rs_inner = \<lparr>cur_bytes = data, cur_position = 0\<rparr>, rs_maximum_read_buffer = m\<rparr>)"
  "fst (as_read_exact recording_async_source
     \<lparr>rs_inner = \<lparr>cur_bytes = data, cur_position = 0\<rparr>, rs_maximum_read_buffer = m\<rparr> (length data)) = Inr data"
  by (simp_all add: recording_async_source_def recording_read_def cursor_source_def Let_def min.commute)

lemma buffer_size: "unat ARTIFACT_IO_BUFFER_BYTES = 65536"
  by (simp add: ARTIFACT_IO_BUFFER_BYTES_def)

lemma recording_hash:
  fixes b
  defines "b \<equiv> unat ARTIFACT_IO_BUFFER_BYTES"
  assumes "p \<le> length data" and "unat size0 + (length data - p) < 2 ^ 64"
  shows "\<exists>chunks. concat chunks = drop p data \<and>
    hash_source recording_async_source sha (\<lambda>_. False) k
      \<lparr>rs_inner = \<lparr>cur_bytes = data, cur_position = p\<rparr>, rs_maximum_read_buffer = m\<rparr> size0 h =
    Some (Inr (size0 + of_nat (length data - p), foldl (sha_update sha) h chunks),
      \<lparr>rs_inner = \<lparr>cur_bytes = data, cur_position = length data\<rparr>, rs_maximum_read_buffer = max m b\<rparr>)"
  using assms(2,3)
proof (induction "length data - p" arbitrary: k p size0 h m rule: less_induct)
  case less
  have b: "0 < b" by (simp add: b_def buffer_size)
  define n where "n = min b (length data - p)"
  let ?data = "take b (drop p data)" and ?m = "max m b"
  note step = hash_source.simps [of recording_async_source sha "\<lambda>_. False" k, folded b_def]
  show ?case
  proof (cases "p = length data")
    case True
    then show ?thesis
      by (subst step) (auto simp: recording_simps intro!: exI [of _ "[]"])
  next
    case False
    with less.prems b have n: "0 < n" "?data \<noteq> []" "n \<le> length data - p" by (auto simp: n_def)
    have count: "checked_add size0 (of_nat n) = Some (size0 + of_nat n)"
      "unat (size0 + of_nat n) = unat size0 + n"
      using less.prems(2) n(3)
      by (simp_all add: checked_add_def unat_word_ariths unat_of_nat take_bit_nat_def)
    have "length data - (p + n) < length data - p" "p + n \<le> length data"
      "unat (size0 + of_nat n) + (length data - (p + n)) < 2 ^ 64"
      using less.prems n count(2) by auto
    from less.hyps [OF this, of "Suc k" ?m "sha_update sha h ?data"]
    obtain chunks where rest: "concat chunks = drop (p + n) data"
      "hash_source recording_async_source sha (\<lambda>_. False) (Suc k)
        \<lparr>rs_inner = \<lparr>cur_bytes = data, cur_position = p + n\<rparr>, rs_maximum_read_buffer = ?m\<rparr>
        (size0 + of_nat n) (sha_update sha h ?data) =
       Some (Inr (size0 + of_nat n + of_nat (length data - (p + n)),
          foldl (sha_update sha) (sha_update sha h ?data) chunks),
        \<lparr>rs_inner = \<lparr>cur_bytes = data, cur_position = length data\<rparr>,
         rs_maximum_read_buffer = max ?m b\<rparr>)" by blast
    have "drop (p + n) data = drop b (drop p data)"
      by (cases "b \<le> length data - p") (simp_all add: n_def min_def add.commute)
    then have "concat (?data # chunks) = drop p data" using rest(1) by (simp only: concat.simps append_take_drop_id)
    moreover have "size0 + of_nat n + of_nat (length data - (p + n)) = size0 + (of_nat (length data - p) :: u64)"
    proof -
      have "n + (length data - (p + n)) = length data - p" using n(3) by simp
      then show ?thesis by (simp only: add.assoc flip: of_nat_add)
    qed
    moreover have "length ?data = n" by (simp add: n_def min.commute)
    ultimately show ?thesis
      using n(2) count(1) rest(2)
      by (subst step) (simp add: recording_simps flip: n_def; intro exI [of _ "?data # chunks"]; simp)
  qed
qed

lemma recording_validates:
  assumes "sha256_contract sha digest" and "length data < 2 ^ 64"
  shows "validate_source recording_async_source sha (\<lambda>_. False) (artifact_test_descriptor sha name data)
      \<lparr>rs_inner = \<lparr>cur_bytes = data, cur_position = 0\<rparr>, rs_maximum_read_buffer = 0\<rparr> =
    Some (Inr (), \<lparr>rs_inner = \<lparr>cur_bytes = data, cur_position = 0\<rparr>, rs_maximum_read_buffer = 65536\<rparr>)"
proof -
  have digest: "sha_finalize sha (foldl (sha_update sha) (sha_new sha) chunks) = digest (concat chunks)"
    for chunks using assms(1) by (simp add: sha256_contract_def)
  from digest [of "[data]"] have "art_sha256 (artifact_test_descriptor sha name data) = digest data"
    by (simp add: artifact_test_descriptor_def)
  moreover obtain chunks where "concat chunks = data"
    "hash_source recording_async_source sha (\<lambda>_. False) 2
      \<lparr>rs_inner = \<lparr>cur_bytes = data, cur_position = 0\<rparr>, rs_maximum_read_buffer = 0\<rparr> 0 (sha_new sha) =
     Some (Inr (of_nat (length data), foldl (sha_update sha) (sha_new sha) chunks),
      \<lparr>rs_inner = \<lparr>cur_bytes = data, cur_position = length data\<rparr>, rs_maximum_read_buffer = 65536\<rparr>)"
    using recording_hash [of 0 data 0 sha 2 0 "sha_new sha"] assms(2) by (auto simp: buffer_size)
  moreover have "art_size_bytes (artifact_test_descriptor sha name data) = of_nat (length data)"
    by (simp add: artifact_test_descriptor_def)
  ultimately show ?thesis
    by (simp add: validate_source_def source_position_def rewind_source_def recording_simps digest)
qed

lemma artifact_tests_pass:
  assumes "sha256_contract sha digest" and "length (digest []) = 32"
    and "canonical_uuid_v4 parse_uuid ''0f337c0c-51d6-44a9-a691-a31fce775ab1''"
  shows "empty_artifacts_use_the_canonical_zero_chunk_plan"
    and "source_validation_is_bounded_and_rewinds sha"
    and "empty_source_is_a_valid_zero_byte_artifact parse_uuid sha"
    and "descriptors_reject_unsafe_file_names parse_uuid sha"
proof -
  show "empty_artifacts_use_the_canonical_zero_chunk_plan"
    by (simp add: empty_artifacts_use_the_canonical_zero_chunk_plan_def artifact_plan_def
        ARTIFACT_IO_BUFFER_BYTES_def u32_try_from_def)
  show "source_validation_is_bounded_and_rewinds sha"
  proof -
    define data :: bytes where "data = replicate (unat ARTIFACT_IO_BUFFER_BYTES * 3 + 17) 7"
    have "length data < 2 ^ 64" by (simp add: data_def buffer_size)
    from recording_validates [OF assms(1) this, of "''result.txt''"] show ?thesis
      unfolding source_validation_is_bounded_and_rewinds_def data_def [symmetric] Let_def
      by (simp add: recording_simps buffer_size)
  qed
  show "descriptors_reject_unsafe_file_names parse_uuid sha"
    by (auto simp: descriptors_reject_unsafe_file_names_def validate_descriptor_def is_ok_def
        artifact_test_descriptor_def and_then_def split: sum.splits)
  have "sha_finalize sha (foldl (sha_update sha) (sha_new sha) [[]]) = digest (concat [[]])"
    using assms(1) by (simp only: sha256_contract_def)
  moreover have "sha_finalize sha (foldl (sha_update sha) (sha_new sha) []) = digest (concat [])"
    using assms(1) by (simp only: sha256_contract_def)
  moreover have "\<exists>aid. validate_descriptor parse_uuid (artifact_test_descriptor sha ''empty.txt'' []) = Inr aid"
    using calculation(1) assms(2,3)
    by (simp add: validate_descriptor_Inr_iff artifact_test_descriptor_def safe_basename_def)
  ultimately show "empty_source_is_a_valid_zero_byte_artifact parse_uuid sha"
    by (auto simp: empty_source_is_a_valid_zero_byte_artifact_def validate_source_def source_position_def
        rewind_source_def cursor_source_def hash_source.simps artifact_test_descriptor_def is_ok_def)
qed

end
