(* ===== verification/Tests_Session.thy ===== *)
theory Tests_Session
  imports Session Liveness Teardown
begin

text \<open>
  The unit tests of \<open>session.rs\<close>, \<open>session/jobs.rs\<close> and \<open>session/liveness.rs\<close>, under their
  names, as propositions about the model. Where a test awaits a task, the task's steps stand
  at that place; the actions are what the handlers in the tests do when they are polled.
\<close>

section \<open>The session\<close>

definition session_test_envelope :: "u64 \<Rightarrow> plugin_envelope" where
  "session_test_envelope mid =
     \<lparr>message_id = mid, reply_to = None, env_session_id = ''session'',
      env_plugin_instance_id = ''instance'',
      env_trace = Some \<lparr>correlation_id = ''correlation'', parent_call_id = None, call_depth = 0,
        causal_depth = 0, task_id = None, task_group_id = None\<rparr>,
      env_payload = Some (PHeartbeat \<lparr>hb_nonce = 1\<rparr>)\<rparr>"

definition established_envelopes_require_exact_identity_and_monotonic_ids :: bool where
  "established_envelopes_require_exact_identity_and_monotonic_ids =
     (let session = \<lparr>st_identity = \<lparr>si_session_id = ''session'', si_instance_id = ''instance''\<rparr>,
            st_last_host_message_id = 4, st_maximum_call_depth = 10, st_maximum_causal_depth = 10\<rparr>;
          (first, session1) = validate_envelope (session_test_envelope 5) session;
          (again, session2) = validate_envelope (session_test_envelope 5) session1;
          stale = (session_test_envelope 6)\<lparr>env_session_id := ''stale''\<rparr>;
          (foreign, session3) = validate_envelope stale session2
      in is_ok first \<and> st_last_host_message_id session1 = 5 \<and> \<not> is_ok again \<and>
         \<not> is_ok foreign \<and> st_last_host_message_id session3 = 5)"

lemma envelope_test_passes: "established_envelopes_require_exact_identity_and_monotonic_ids"
  by code_simp

text \<open>The stream is empty, or yields one more envelope, whatever the time that is left.\<close>

definition shutdown_wait_accepts_host_stream_close ::
  "(timestamp \<Rightarrow> error_source + int) \<Rightarrow> int \<Rightarrow> timestamp \<Rightarrow> bool" where
  "shutdown_wait_accepts_host_stream_close to_system_time now shutdown_deadline \<longleftrightarrow>
     is_ok (wait_for_host_close to_system_time now (\<lambda>_. Some None) shutdown_deadline)"

definition shutdown_wait_rejects_late_host_messages ::
  "(timestamp \<Rightarrow> error_source + int) \<Rightarrow> int \<Rightarrow> timestamp \<Rightarrow> bool" where
  "shutdown_wait_rejects_late_host_messages to_system_time now shutdown_deadline \<longleftrightarrow>
     \<not> is_ok (wait_for_host_close to_system_time now
       (\<lambda>_. Some (Some (Inr (session_test_envelope 6)))) shutdown_deadline)"

lemma shutdown_tests_pass:
  assumes "to_system_time shutdown_deadline = Inr (now + 1000000000)"
  shows "shutdown_wait_accepts_host_stream_close to_system_time now shutdown_deadline"
    and "shutdown_wait_rejects_late_host_messages to_system_time now shutdown_deadline"
  using assms
  by (simp_all add: shutdown_wait_accepts_host_stream_close_def
      shutdown_wait_rejects_late_host_messages_def wait_for_host_close_def)

section \<open>The watcher\<close>

text \<open>
  \<open>os\<close> is what the system answers for the reading end of the test's pipe, and what the loads
  of the flag see, in each pass of the loop.
\<close>

definition descriptor_watcher_returns_on_eof :: "(nat \<Rightarrow> watch_pass) \<Rightarrow> bool" where
  "descriptor_watcher_returns_on_eof os \<longleftrightarrow> watch_descriptor os 0 = Some (Inr ())"

definition descriptor_watcher_can_be_stopped_without_eof :: "(nat \<Rightarrow> watch_pass) \<Rightarrow> bool" where
  "descriptor_watcher_can_be_stopped_without_eof os \<longleftrightarrow> watch_descriptor os 0 = Some (Inr ())"

definition descriptor_watcher_reports_io_failures :: "(nat \<Rightarrow> watch_pass) \<Rightarrow> bool" where
  "descriptor_watcher_reports_io_failures os \<longleftrightarrow>
     (case watch_descriptor os 0 of None \<Rightarrow> False | Some result \<Rightarrow> \<not> is_ok result)"

text \<open>
  The documented behaviour of \<open>poll\<close> and \<open>read\<close> that the tests rely on: nothing to read while
  a writer is there, a hang-up and the end of file when it is gone, an error once the reading
  end itself is closed.
\<close>

definition writer_drops_before :: "nat \<Rightarrow> (nat \<Rightarrow> watch_pass) \<Rightarrow> bool" where
  "writer_drops_before n os \<longleftrightarrow>
     (\<forall>k. \<not> wp_stop (os k) \<and> \<not> wp_stop_after_poll (os k) \<and>
        (if k < n then wp_ready (os k) = 0 else 0 < wp_ready (os k) \<and> wp_read (os k) = 0))"

definition flag_set_before :: "nat \<Rightarrow> (nat \<Rightarrow> watch_pass) \<Rightarrow> bool" where
  "flag_set_before n os \<longleftrightarrow> (\<forall>k. wp_stop (os k) = (n \<le> k) \<and> wp_ready (os k) = 0)"

definition reader_closed :: "(nat \<Rightarrow> watch_pass) \<Rightarrow> bool" where
  "reader_closed os \<longleftrightarrow>
     (\<forall>k. \<not> wp_stop (os k) \<and> \<not> wp_stop_after_poll (os k) \<and> 0 < wp_ready (os k) \<and>
        wp_read (os k) < 0 \<and> io_kind (wp_read_error (os k)) = OtherKind)"

lemma watcher_tests_pass:
  "writer_drops_before n os \<Longrightarrow> descriptor_watcher_returns_on_eof os"
  "flag_set_before n os \<Longrightarrow> descriptor_watcher_can_be_stopped_without_eof os"
  "reader_closed os \<Longrightarrow> descriptor_watcher_reports_io_failures os"
proof -
  have ends: "watch_descriptor os 0 = Some (Inr ())"
    if "descriptor_pass os n = Some (Inr ())" "\<And>i. i < n \<Longrightarrow> descriptor_pass os i = None"
    using descriptor.loop_first [of os 0 n "Inr ()"] that by simp
  show "descriptor_watcher_returns_on_eof os" if os: "writer_drops_before n os"
    unfolding descriptor_watcher_returns_on_eof_def
  proof (rule ends)
    from os have "0 < wp_ready (os n)" "wp_read (os n) = 0" unfolding writer_drops_before_def
      by (metis less_irrefl)+
    with os show "descriptor_pass os n = Some (Inr ())"
      by (auto simp: writer_drops_before_def descriptor_pass_decides)
    show "descriptor_pass os i = None" if "i < n" for i
      using os that by (auto simp: writer_drops_before_def descriptor_pass_def Let_def)
  qed
  show "descriptor_watcher_can_be_stopped_without_eof os" if "flag_set_before n os"
    unfolding descriptor_watcher_can_be_stopped_without_eof_def
    by (rule ends) (use that in \<open>auto simp: flag_set_before_def descriptor_pass_def Let_def\<close>)
  show "descriptor_watcher_reports_io_failures os" if "reader_closed os"
  proof -
    from that have "descriptor_pass os 0 = Some (Inl (wp_read_error (os 0)))"
      by (auto simp: reader_closed_def descriptor_pass_decides)
    then show ?thesis
      using descriptor.loop_decided by (simp add: descriptor_watcher_reports_io_failures_def)
  qed
qed

definition test_pass :: "bool \<Rightarrow> int \<Rightarrow> int \<Rightarrow> watch_pass" where
  "test_pass stopped ready bytes_read =
     \<lparr>wp_stop = stopped, wp_ready = ready, wp_poll_error = \<lparr>io_kind = OtherKind, io_text = []\<rparr>,
      wp_stop_after_poll = stopped, wp_read = bytes_read,
      wp_read_error = \<lparr>io_kind = OtherKind, io_text = ''bad file descriptor''\<rparr>\<rparr>"

lemma watcher_tests_apply:
  "writer_drops_before n (\<lambda>k. test_pass False (if k < n then 0 else 1) 0)"
  "flag_set_before n (\<lambda>k. test_pass (n \<le> k) 0 0)"
  "reader_closed (\<lambda>k. test_pass False 1 (- 1))"
  by (simp_all add: writer_drops_before_def flag_set_before_def reader_closed_def test_pass_def)

section \<open>The job manager\<close>

definition FIRST_JOB :: string where
  "FIRST_JOB = ''00000000-0000-4000-8000-000000000001''"

definition SECOND_JOB :: string where
  "SECOND_JOB = ''00000000-0000-4000-8000-000000000002''"

definition jobs_test_trace :: "string \<Rightarrow> trace_context" where
  "jobs_test_trace correlation =
     \<lparr>correlation_id = correlation, parent_call_id = None, call_depth = 0, causal_depth = 0,
      task_id = Some ''task'', task_group_id = Some ''group''\<rparr>"

definition jobs_test_start :: "string \<Rightarrow> string \<Rightarrow> start_job_request" where
  "jobs_test_start jid name =
     \<lparr>sj_job_id = Some (PluginJobId jid), sj_deadline = None,
      sj_invocation = Some (ActionInvocation \<lparr>inv_action = name, inv_arguments = []\<rparr>)\<rparr>"

definition jobs_test_cancellation :: "string \<Rightarrow> cancel_job_request" where
  "jobs_test_cancellation jid =
     \<lparr>cj_job_id = Some (PluginJobId jid), cj_reason = job_cancellation_reason_i32 ReasonUserRequest\<rparr>"

definition harness :: "unit plugin \<Rightarrow> u64 \<Rightarrow> unit job_manager" where
  "harness plugin maximum =
     new_job_manager (pl_actions plugin) maximum
       (new_host_client (new_sender \<lparr>si_session_id = ''session'', si_instance_id = ''instance''\<rparr>)
          ''session'' (64 * 1024) 10)"

text \<open>A plugin with one action, unwrapped, and the steps that the tests unwrap.\<close>

definition with_action :: "string \<Rightarrow> (unit plugin \<Rightarrow> bool) \<Rightarrow> bool" where
  "with_action name test =
     (case and_then (action name name () (builder ''org.example.test'' ''0.1.0'')) build of
        Inl _ \<Rightarrow> False
      | Inr plugin \<Rightarrow> test plugin)"

definition unwrapped ::
  "unit sdk_result \<times> unit job_manager \<Rightarrow> (unit job_manager \<Rightarrow> bool) \<Rightarrow> bool" where
  "unwrapped step test = (is_ok (fst step) \<and> test (snd step))"

definition finishes ::
  "action_future caught \<Rightarrow> unit job_manager \<Rightarrow>
   (finished_action \<Rightarrow> unit job_manager \<Rightarrow> bool) \<Rightarrow> bool" where
  "finishes called jm test =
     (case task_ends 0 called jm of
        None \<Rightarrow> False
      | Some ended \<Rightarrow>
          (case jobs_join_next 0 ended of
             Joins (Inr finished, jm1) \<Rightarrow> test finished jm1
           | _ \<Rightarrow> False))"

definition settles ::
  "finished_action \<Rightarrow> unit job_manager \<Rightarrow> (unit job_manager \<Rightarrow> bool) \<Rightarrow> bool" where
  "settles finished jm test =
     (case jobs_settle (\<lambda>_ h. h) finished jm of None \<Rightarrow> False | Some step \<Rightarrow> unwrapped step test)"

text \<open>Everything the receiving half has got so far, oldest first.\<close>

definition heard :: "unit job_manager \<Rightarrow> plugin_envelope list" where
  "heard jm = map (\<lambda>e. fst (consume e)) (ss_wire (hc_sender (jm_host jm)))"

definition is_accepted :: "plugin_envelope \<Rightarrow> bool" where
  "is_accepted e = (case env_payload e of Some (PJobAccepted _) \<Rightarrow> True | _ \<Rightarrow> False)"

definition is_acknowledged :: "plugin_envelope \<Rightarrow> bool" where
  "is_acknowledged e = (case env_payload e of Some (PCancelJobAcknowledged _) \<Rightarrow> True | _ \<Rightarrow> False)"

definition is_update :: "plugin_envelope \<Rightarrow> bool" where
  "is_update e = (case env_payload e of Some (PJobUpdate _) \<Rightarrow> True | _ \<Rightarrow> False)"

text \<open>The actions: one that is done at once, and one that waits, cleans up and returns.\<close>

definition done_action :: "action_future caught" where
  "done_action = NoPanic (\<lambda>_. NoPanic (Some (Inr empty_result)))"

text \<open>
  \<open>n\<close> polls see no cancellation; then the action is done, or yields once more, cleans up and
  is done.
\<close>

definition waiting_action :: "nat \<Rightarrow> action_future caught" where
  "waiting_action n = NoPanic (\<lambda>k. NoPanic (if k < n then None else Some (Inr empty_result)))"

definition cleanup_action :: "nat \<Rightarrow> action_future caught" where
  "cleanup_action n = waiting_action (n + 1)"

definition assert_panicking_action_fails :: "uuid_parser \<Rightarrow> action_future caught \<Rightarrow> bool" where
  "assert_panicking_action_fails parse_uuid called =
     with_action ''panic'' (\<lambda>plugin.
     unwrapped (jobs_start parse_uuid 1 (jobs_test_trace ''start'')
       (jobs_test_start FIRST_JOB ''panic'') (harness plugin 1)) (\<lambda>jm.
     finishes called jm (\<lambda>finished jm.
     settles finished jm (\<lambda>jm.
       case heard jm of
         [_, update] \<Rightarrow>
           (case env_payload update of
              Some (PJobUpdate u) \<Rightarrow>
                ju_state u = job_state_i32 StateFailed \<and>
                map_option pe_code (ju_error u) = Some (error_code_i32 CodeInternal)
            | _ \<Rightarrow> False)
       | _ \<Rightarrow> False))))"

definition cancellation_waits_for_cooperative_action_cleanup :: "uuid_parser \<Rightarrow> nat \<Rightarrow> bool" where
  "cancellation_waits_for_cooperative_action_cleanup parse_uuid n =
     with_action ''wait'' (\<lambda>plugin.
     unwrapped (jobs_start parse_uuid 1 (jobs_test_trace ''start'')
       (jobs_test_start FIRST_JOB ''wait'') (harness plugin 1)) (\<lambda>jm.
     map is_accepted (heard jm) = [True] \<and>
     unwrapped (jobs_cancel parse_uuid 2 (jobs_test_trace ''cancel'')
       (jobs_test_cancellation FIRST_JOB) jm) (\<lambda>jm.
     length (heard jm) = 1 \<and>
     finishes (cleanup_action n) jm (\<lambda>finished jm.
     is_ok (fa_output finished) \<and>
     settles finished jm (\<lambda>jm.
       case heard jm of
         [_, acknowledgement] \<Rightarrow>
           reply_to acknowledgement = Some 2 \<and>
           env_trace acknowledgement = Some (jobs_test_trace ''cancel'') \<and>
           is_acknowledged acknowledgement
       | _ \<Rightarrow> False)))))"

definition inactive_job_cancellation_is_idempotently_acknowledged :: "uuid_parser \<Rightarrow> bool" where
  "inactive_job_cancellation_is_idempotently_acknowledged parse_uuid =
     (case build (builder ''org.example.test'' ''0.1.0'') of
        Inl _ \<Rightarrow> False
      | Inr plugin \<Rightarrow>
          unwrapped (jobs_cancel parse_uuid 7 (jobs_test_trace ''cancel'')
            (jobs_test_cancellation FIRST_JOB) (harness plugin 1)) (\<lambda>jm.
          map reply_to (heard jm) = [Some 7] \<and> list_all is_acknowledged (heard jm) \<and>
          unwrapped (jobs_cancel parse_uuid 8 (jobs_test_trace ''cancel'')
            (jobs_test_cancellation FIRST_JOB) jm) (\<lambda>jm.
          map reply_to (heard jm) = [Some 7, Some 8] \<and> list_all is_acknowledged (heard jm))))"

definition cancellation_wins_if_completion_has_not_been_queued :: "uuid_parser \<Rightarrow> bool" where
  "cancellation_wins_if_completion_has_not_been_queued parse_uuid =
     with_action ''done'' (\<lambda>plugin.
     unwrapped (jobs_start parse_uuid 1 (jobs_test_trace ''start'')
       (jobs_test_start FIRST_JOB ''done'') (harness plugin 1)) (\<lambda>jm.
     finishes done_action jm (\<lambda>finished jm.
     unwrapped (jobs_cancel parse_uuid 2 (jobs_test_trace ''cancel'')
       (jobs_test_cancellation FIRST_JOB) jm) (\<lambda>jm.
     settles finished jm (\<lambda>jm.
       case heard jm of [_, last_heard] \<Rightarrow> is_acknowledged last_heard | _ \<Rightarrow> False)))))"

definition late_cancellation_does_not_replace_a_queued_terminal_update :: "uuid_parser \<Rightarrow> bool" where
  "late_cancellation_does_not_replace_a_queued_terminal_update parse_uuid =
     with_action ''done'' (\<lambda>plugin.
     unwrapped (jobs_start parse_uuid 1 (jobs_test_trace ''start'')
       (jobs_test_start FIRST_JOB ''done'') (harness plugin 1)) (\<lambda>jm.
     finishes done_action jm (\<lambda>finished jm.
     settles finished jm (\<lambda>jm.
     map is_update (heard jm) = [False, True] \<and>
     unwrapped (jobs_cancel parse_uuid 2 (jobs_test_trace ''cancel'')
       (jobs_test_cancellation FIRST_JOB) jm) (\<lambda>jm.
     map is_acknowledged (heard jm) = [False, False, True])))))"

definition action_future_panics_become_failed_terminal_updates :: "uuid_parser \<Rightarrow> bool" where
  "action_future_panics_become_failed_terminal_updates parse_uuid =
     assert_panicking_action_fails parse_uuid (NoPanic (\<lambda>_. Panic (PanicStr ''action failure'')))"

definition action_handler_panics_become_failed_terminal_updates :: "uuid_parser \<Rightarrow> bool" where
  "action_handler_panics_become_failed_terminal_updates parse_uuid =
     assert_panicking_action_fails parse_uuid (Panic (PanicStr ''handler failure''))"

definition malformed_action_errors_are_not_emitted_on_the_wire :: bool where
  "malformed_action_errors_are_not_emitted_on_the_wire =
     (case outbound_error (Host \<lparr>pe_code = 0, pe_message = [], pe_retryable = False,
             pe_metadata = Map.empty, pe_details = []\<rparr>) of
        None \<Rightarrow> False
      | Some error \<Rightarrow> pe_code error = error_code_i32 CodeInternal \<and> pe_message error \<noteq> [])"

definition configured_capacity_rejects_only_excess_admission :: "uuid_parser \<Rightarrow> nat \<Rightarrow> bool" where
  "configured_capacity_rejects_only_excess_admission parse_uuid n =
     with_action ''wait'' (\<lambda>plugin.
     unwrapped (jobs_start parse_uuid 1 (jobs_test_trace ''first'')
       (jobs_test_start FIRST_JOB ''wait'') (harness plugin 1)) (\<lambda>jm.
     unwrapped (jobs_start parse_uuid 2 (jobs_test_trace ''second'')
       (jobs_test_start SECOND_JOB ''wait'') jm) (\<lambda>jm.
     (case heard jm of
        [_, rejected] \<Rightarrow>
          reply_to rejected = Some 2 \<and>
          (case env_payload rejected of
             Some (PProtocolError error) \<Rightarrow>
               pe_code error = error_code_i32 CodeUnavailable \<and> pe_retryable error
           | _ \<Rightarrow> False)
      | _ \<Rightarrow> False) \<and>
     unwrapped (jobs_cancel parse_uuid 3 (jobs_test_trace ''cancel'')
       (jobs_test_cancellation FIRST_JOB) jm) (\<lambda>jm.
     finishes (waiting_action n) jm (\<lambda>finished jm.
     settles finished jm (\<lambda>jm. length (heard jm) = 3))))))"

text \<open>
  The task has begun and is pending for ever; the action's future is dropped with its task.
\<close>

definition dropping_the_manager_aborts_owned_action_tasks :: "uuid_parser \<Rightarrow> bool" where
  "dropping_the_manager_aborts_owned_action_tasks parse_uuid =
     with_action ''wait'' (\<lambda>plugin.
     unwrapped (jobs_start parse_uuid 1 (jobs_test_trace ''start'')
       (jobs_test_start FIRST_JOB ''wait'') (harness plugin 1)) (\<lambda>jm.
     map jt_job_id (jm_tasks jm) = [FIRST_JOB] \<and> jm_tasks (jobs_drop (\<lambda>_. True) jm) = []))"

definition shutdown_aborts_actions_and_settles_pending_job_cancellation :: "uuid_parser \<Rightarrow> bool" where
  "shutdown_aborts_actions_and_settles_pending_job_cancellation parse_uuid =
     with_action ''wait'' (\<lambda>plugin.
     unwrapped (jobs_start parse_uuid 1 (jobs_test_trace ''start'')
       (jobs_test_start FIRST_JOB ''wait'') (harness plugin 1)) (\<lambda>jm.
     unwrapped (jobs_cancel parse_uuid 2 (jobs_test_trace ''cancel'')
       (jobs_test_cancellation FIRST_JOB) jm) (\<lambda>jm.
     unwrapped (jobs_shutdown (\<lambda>m. m) (\<lambda>_ h. h) jm) (\<lambda>jm.
     \<not> has_active_jobs jm \<and>
     (case heard jm of
        [_, last_heard] \<Rightarrow> reply_to last_heard = Some 2 \<and> is_acknowledged last_heard
      | _ \<Rightarrow> False)))))"

text \<open>The states the tests go through, for a parser that knows the job ID.\<close>

lemma test_jobs: "FIRST_JOB \<noteq> SECOND_JOB" "SECOND_JOB \<noteq> FIRST_JOB"
  by (simp_all add: FIRST_JOB_def SECOND_JOB_def)

lemma done_runs: "run_action done_action = Some (Inr empty_result)"
  using executor.loop_first [of "\<lambda>_. NoPanic (Some (Inr empty_result))" 0 0]
  by (simp add: done_action_def run_action_def action_pass_def)

lemma waiting_runs: "run_action (waiting_action n) = Some (Inr empty_result)"
  using executor.loop_first [of "\<lambda>k. NoPanic (if k < n then None else Some (Inr empty_result))" 0 n]
  by (simp add: waiting_action_def run_action_def action_pass_def)

lemma cleanup_runs: "run_action (cleanup_action n) = Some (Inr empty_result)"
  by (simp add: cleanup_action_def waiting_runs)

lemma panicking_future_runs: "run_action (NoPanic (\<lambda>_. Panic payload)) = Some (Inl (action_panic payload))"
  using executor.loop_first [of "\<lambda>_. Panic payload" 0 0]
  by (simp add: run_action_def action_pass_def)

lemma panicking_handler_runs: "run_action (Panic payload) = Some (Inl (action_panic payload))"
  by (simp add: run_action_def)

lemmas test_runs = done_runs waiting_runs cleanup_runs panicking_future_runs panicking_handler_runs

lemma test_plugin_id: "validate_plugin_id ''org.example.test'' = Inr ()"
proof -
  have "is_ok (validate_plugin_id ''org.example.test'')" by code_simp
  then show ?thesis by (simp add: is_ok_unit_iff)
qed

lemma with_action_iff:
  assumes "name \<noteq> []"
  shows "with_action name test \<longleftrightarrow> test \<lparr>pl_plugin_id = ''org.example.test'', pl_version = ''0.1.0'',
    pl_actions = [(name, \<lparr>ra_description = name, ra_handler = ()\<rparr>)], pl_maximum_concurrent_jobs = 256\<rparr>"
  using assms
  by (simp add: with_action_def action_def build_def builder_def test_plugin_id hm_contains_key_def
      hm_get_def hm_insert_def hm_empty_def hm_remove_def DEFAULT_MAXIMUM_CONCURRENT_JOBS_def)

lemmas job_test_operations = harness_def new_job_manager_def new_host_client_def new_sender_def
  jobs_test_start_def jobs_test_cancellation_def jobs_start_def jobs_cancel_def jobs_join_next_def
  jobs_settle_def jobs_shutdown_def task_ends_def send_cancellation_acknowledgement_def send_from_def
  send_eq exhausted_def checked_add_def optional_timestamp_def cancellation_reason_def
  fire_token_def cancel_def finish_def compare_exchange_def remove_nth_def state_words
  hm_empty_def hm_get_def hm_contains_key_def hm_insert_def hm_remove_def hm_len_def

lemmas job_test_defs = job_test_operations unwrapped_def finishes_def settles_def heard_def consume_def
  seal_envelope_def is_accepted_def is_acknowledged_def is_update_def test_runs

lemma job_tests_pass:
  assumes "validate_job_id parse_uuid (Some (PluginJobId FIRST_JOB)) = Inr FIRST_JOB"
    and "validate_job_id parse_uuid (Some (PluginJobId SECOND_JOB)) = Inr SECOND_JOB"
  shows "cancellation_waits_for_cooperative_action_cleanup parse_uuid n"
    and "inactive_job_cancellation_is_idempotently_acknowledged parse_uuid"
    and "cancellation_wins_if_completion_has_not_been_queued parse_uuid"
    and "late_cancellation_does_not_replace_a_queued_terminal_update parse_uuid"
    and "action_future_panics_become_failed_terminal_updates parse_uuid"
    and "action_handler_panics_become_failed_terminal_updates parse_uuid"
    and "malformed_action_errors_are_not_emitted_on_the_wire"
    and "configured_capacity_rejects_only_excess_admission parse_uuid n"
    and "dropping_the_manager_aborts_owned_action_tasks parse_uuid"
    and "shutdown_aborts_actions_and_settles_pending_job_cancellation parse_uuid"
proof -
  show "cancellation_waits_for_cooperative_action_cleanup parse_uuid n"
    by (simp add: cancellation_waits_for_cooperative_action_cleanup_def with_action_iff
        job_test_defs assms Let_def)
  show "inactive_job_cancellation_is_idempotently_acknowledged parse_uuid"
    by (simp add: inactive_job_cancellation_is_idempotently_acknowledged_def build_def builder_def
        test_plugin_id job_test_defs assms Let_def)
  show "cancellation_wins_if_completion_has_not_been_queued parse_uuid"
    by (simp add: cancellation_wins_if_completion_has_not_been_queued_def with_action_iff
        job_test_defs assms Let_def)
  show "late_cancellation_does_not_replace_a_queued_terminal_update parse_uuid"
    by (simp add: late_cancellation_does_not_replace_a_queued_terminal_update_def with_action_iff
        job_test_defs assms Let_def terminal_update_def into_wire_def empty_result_def)
  have panics: "assert_panicking_action_fails parse_uuid called"
    if "run_action called = Some (Inl (action_panic payload))" for called payload
    by (simp add: assert_panicking_action_fails_def with_action_iff job_test_defs that assms Let_def
        terminal_update_def outbound_error_def action_panic_def to_protocol_error_def
        validate_protocol_error_def)
  show "action_future_panics_become_failed_terminal_updates parse_uuid"
    unfolding action_future_panics_become_failed_terminal_updates_def
    by (rule panics [OF panicking_future_runs])
  show "action_handler_panics_become_failed_terminal_updates parse_uuid"
    unfolding action_handler_panics_become_failed_terminal_updates_def
    by (rule panics [OF panicking_handler_runs])
  show "malformed_action_errors_are_not_emitted_on_the_wire"
    by (simp add: malformed_action_errors_are_not_emitted_on_the_wire_def outbound_error_def
        validate_protocol_error_def)
  show "configured_capacity_rejects_only_excess_admission parse_uuid n"
    by (simp add: configured_capacity_rejects_only_excess_admission_def with_action_iff
        job_test_defs assms Let_def capacity_error_def test_jobs)
  show "dropping_the_manager_aborts_owned_action_tasks parse_uuid"
    by (simp add: dropping_the_manager_aborts_owned_action_tasks_def with_action_iff
        job_test_defs assms Let_def jobs_drop_def)
  show "shutdown_aborts_actions_and_settles_pending_job_cancellation parse_uuid"
    by (simp add: shutdown_aborts_actions_and_settles_pending_job_cancellation_def with_action_iff
        job_test_defs assms Let_def has_active_jobs_def)
qed

text \<open>Such a parser exists.\<close>

lemma job_tests_apply:
  "\<exists>parse_uuid. validate_job_id parse_uuid (Some (PluginJobId FIRST_JOB)) = Inr FIRST_JOB \<and>
     validate_job_id parse_uuid (Some (PluginJobId SECOND_JOB)) = Inr SECOND_JOB"
  by (rule exI [of _ "\<lambda>s. Some \<lparr>uuid_get_version = Some UuidRandom, uuid_hyphenated = s\<rparr>"])
    (simp add: validate_job_id_Inr_iff canonical_uuid_v4_def)

end
