(* ===== verification/Spec2Isabelle.thy ===== *)
theory Spec2Isabelle
  imports Claims_Values Claims_Client Claims_Actions Claims_Jobs Claims_Session Claims_Parent Claims_Plugin
    Tests_Values Tests_Cancellation Tests_Client Tests_Session
begin

text \<open>
  The runtime of the onelastleaf plugin SDK. A plugin is a gRPC client: it dials the endpoint
  its host gives it, shakes hands, and then serves one stream of envelopes, on which the host
  starts and cancels jobs and the jobs' actions call back into the host. One task runs the
  loop of the session, every job is a task of its own, and all of them share one ordered
  sender, one table of pending requests and, per job, one cancellation token.

  \<^bold>\<open>Parts and theories\<close>, in the order of their imports (files under \<open>src/src/runtime/\<close>):

  \<^item> Prelude: results, checked words, runs of labelled steps and the locale
    \<open>invariant_system\<close>; Polling: the locale of a loop that tries again until it is decided;
    Hash_Map: \<open>std::collections::HashMap\<close> behind the locale \<open>keyed_map\<close>.
  \<^item> Wire_Protocol and Document_Protocol: all protobuf messages of \<open>src/proto/oll\<close> as records
    and datatypes.
  \<^item> Errors (\<open>error.rs\<close>), Values (\<open>value.rs\<close>), Validation (\<open>validation.rs\<close>) with Std_Net for the
    standard library's IP address parser: pure validators, each with a lemma that says what it
    accepts.
  \<^item> Cancel_Token (\<open>cancellation.rs\<close>): the state word as a latch, and the loop of \<open>cancelled()\<close>
    as a step relation in which waiters and controllers interleave at every atomic access.
  \<^item> Sender (\<open>sender.rs\<close>): message IDs, registration and the bounded channel, first as
    sequential functions, with a function for a send that is dropped half way. Outgoing has
    the lock and the channel as a step relation of many tasks and refines it to the former.
  \<^item> Host_Client and Host_Calls (\<open>host/client.rs\<close>, \<open>host/call.rs\<close>): requests, routing entries,
    guards, responses. Artifacts (\<open>host/artifact.rs\<close>): descriptors, chunk plans, the check of
    a source. Action_Context (\<open>host.rs\<close>): what an action can do, at every point at which its
    \<open>select!\<close> may drop it. Task_Conduct has the locale \<open>action_conduct\<close>: a relation that silent
    steps and an action's messages keep is kept by all of a context's operations.
  \<^item> Plugin (\<open>plugin.rs\<close>): the builder. Jobs (\<open>session/jobs.rs\<close>): the job manager. Job_Contract
    is its specification, a ledger of active jobs and of the cancellation requests they owe
    an answer; Jobs_Correct describes each operation on every branch, Jobs_Refinement has
    the invariant \<open>jobs_inv\<close> and the simulation of the ledger. Job_Lifecycle is one job from
    request to settlement, Teardown the drop of the manager, with which a failed session ends.
  \<^item> Session and Session_Correct (\<open>session.rs\<close>): handshake, loop, shutdown. Liveness
    (\<open>session/liveness.rs\<close>): the loops of the watcher of stdin. Watcher: its thread and its
    owner, with \<open>start\<close>, \<open>wait\<close> and \<open>drop\<close>, as a step relation; the locale \<open>watcher_code\<close> is
    what both loops keep. Runtime puts the parts together. Wire_Typing says which envelopes
    are well typed and follows them from the job manager's sends to a whole session; it is
    the second interpretation of \<open>action_conduct\<close>.
  \<^item> Conformance_Plugin (\<open>tests/fixtures/conformance-plugin\<close>): the plugin of the host's
    conformance suite, a client of the public interface: its declaration, its four actions,
    and the script the host action says.
  \<^item> Samples, Sample_Runs and Sample_Session: concrete inputs, a job's run and a whole
    session, at which the properties are applied. Claims_Values, Claims_Client,
    Claims_Actions, Claims_Jobs, Claims_Session, Claims_Parent and Claims_Plugin hold the
    properties of the parts, and this theory those of a whole session.
  \<^item> Tests_Values, Tests_Cancellation, Tests_Client and Tests_Session: the unit tests of the
    modules, each a proposition under the test's name, with a lemma that the model passes it.

  \<^bold>\<open>State.\<close> A \<open>session_sender\<close> is the sender with its channel: \<open>ss_wire\<close> is everything that has
  entered it. A \<open>host_client\<close> adds the pending table and what was delivered to each waiter. A
  \<open>job_manager\<close> has the client, the active jobs, the tasks of the \<open>JoinSet\<close> and the state
  words, which the manager, the contexts and the tasks share. Operations take the state and
  return it; \<open>Err\<close> is \<open>Inl\<close>, and a panic of an \<open>expect\<close> is \<open>None\<close>.

  \<^bold>\<open>Awaiting.\<close> What happens at an \<open>await\<close> is decided by the environment and is a parameter:
  the word an atomic load sees, how far a future gets before \<open>select!\<close> drops it, what other
  tasks do meanwhile (\<open>ae_world\<close>, \<open>ce_world\<close>, \<open>sn_world\<close>, and the \<open>tasks\<close> of a turn), the
  order in which a map is walked, which ended task is joined. The properties hold for all
  of them; \<open>tame\<close>, \<open>quiet\<close>, \<open>peaceful\<close>, \<open>orderly\<close> and \<open>lawful\<close> say that other tasks keep the
  client's invariant and send nothing in the name of an artifact, or of the job manager.
  That the actions of the SDK do keep to the last is a property too.

  \<^bold>\<open>Bounds.\<close> Machine integers are words, IDs of 64 bits with a checked increment. Loops over
  data are structural. The loops that may wait for ever (an action's future, a source that
  is read to its end, the watchers) are partial functions into \<open>option\<close>, and it is proved
  exactly when they return. A drop of the watcher is over after four steps at most, and the
  thread reports pass \<open>n\<close> of its loop within \<open>4 * n + 6\<close> steps. The serving loop is a function of a finite list of turns, so a
  session is any finite prefix of its behaviour, \<open>Serving\<close> while it goes on.

  \<^bold>\<open>Parameters\<close> for what is not in the repository: the parsers of \<open>http::Uri\<close> and \<open>uuid\<close>,
  SHA-256 (\<open>sha256_contract\<close>: the digest depends on the concatenation only), the
  seekable source of an artifact (locale \<open>seekable_source\<close>, interpreted on
  \<open>std::io::Cursor\<close>), tokio's \<open>Notify\<close> (\<open>notify_waiters_contract\<close>), tonic's channel and stream, the
  clock, the system calls \<open>poll\<close> and \<open>read\<close>.

  \<^bold>\<open>Not modelled:\<close> \<open>lib.rs\<close>, \<open>build.rs\<close> and the generated protobuf code (no behaviour of its
  own, or generated); time, other than as what a timeout yields; how long an aborted task
  takes to stop; fairness of the executor. The generated Rust of the messages is modelled by
  what \<open>prost\<close> documents: an optional field of message type is an \<open>option\<close>, an open enum an
  \<open>i32\<close>.
\<close>

section \<open>From the first message to the last\<close>

text \<open>C1. A session that ends well has said exactly this: the plugin's hello, the ready
  message, whatever it sent while it served, and last of all the acknowledgement of the
  host's shutdown request. By then every cancellation request the host had sent has been
  acknowledged, each exactly once.\<close>

theorem sessions_end_balanced:
  assumes "run_session parse_uuid w plugin = (Ended (Inr ()), wire)"
    and "lawful parse_uuid (sw_turns w)"
  shows "\<exists>hello trace session name es ack pre tasks env e rest.
    check_hello parse_uuid plugin (sw_first w) = Inr (hello, trace, session) \<and>
    hh_plugin_name hello = Some (PluginName name) \<and>
    wire = [seal_envelope (st_identity session) 1 None trace
              (PPluginHello (plugin_hello_for (sw_action_order w) plugin name)),
            seal_envelope (st_identity session) 2 None trace PReady] @ es @ [ack] \<and>
    sw_turns w = pre @ (tasks, env, MessageBranch (Inr (Some e))) # rest \<and>
    acknowledged (outputs es) = requested pre \<and>
    reply_to ack = Some (message_id e) \<and> env_trace ack = env_trace e \<and>
    env_payload ack = Some PShutdownAcknowledged"
proof -
  obtain session host sender deadline s' where
    shaken: "handshake parse_uuid (sw_action_order w) (sw_closed w) plugin (sw_first w) (sw_second w) =
       Some (Inr (session, host), sender)"
    and served: "serve parse_uuid (sw_turns w) (initial_serve_state plugin session host) =
       (Stopped deadline, s')"
    and wire: "wire = client_wire (jm_host (sv_jobs s'))"
    by (rule run_session_ok [OF assms]) (rule that)
  obtain hello trace name where hello:
    "check_hello parse_uuid plugin (sw_first w) = Inr (hello, trace, session\<lparr>st_last_host_message_id :=
       message_id (the (projr (sw_first w)))\<rparr>)"
    "hh_plugin_name hello = Some (PluginName name)"
    "client_wire host = [seal_envelope (st_identity session) 1 None trace
        (PPluginHello (plugin_hello_for (sw_action_order w) plugin name)),
      seal_envelope (st_identity session) 2 None trace PReady]"
    and client: "client_inv host"
    using handshake_ok [OF shaken] by metis
  note start = initial_serve_state_inv [OF client, of plugin session]
  obtain pre tasks env e rest trace' es ack where
    "sw_turns w = pre @ (tasks, env, MessageBranch (Inr (Some e))) # rest" "env_trace e = Some trace'"
    "client_wire (jm_host (sv_jobs s')) = client_wire host @ es @ [ack]"
    "acknowledged (outputs es) = requested pre" "reply_to ack = Some (message_id e)"
    "env_trace ack = Some trace'" "env_payload ack = Some PShutdownAcknowledged"
    using serve_stopped_balances [OF served assms(2) start(1,2)] start(3) by metis
  with hello wire show ?thesis
    by (intro exI [of _ hello] exI [of _ trace] exI [of _ name] exI [of _ es] exI [of _ ack]
        exI [of _ pre] exI [of _ tasks] exI [of _ env] exI [of _ e] exI [of _ rest]
        exI [of _ "session\<lparr>st_last_host_message_id := message_id (the (projr (sw_first w)))\<rparr>"]) simp
qed

theorem sessions_end_balanced_witness:
  "\<exists>e1 e2 es ack. sample_wire = [e1, e2] @ es @ [ack] \<and> env_payload ack = Some PShutdownAcknowledged"
  using sessions_end_balanced [OF sample_run_session sample_world_lawful] by metis

text \<open>C5. No \<open>expect\<close> on the way of a session panics, whatever the host sends, in whatever
  order tasks end, and wherever it breaks off.\<close>

theorem sessions_never_crash:
  assumes "lawful parse_uuid (sw_turns w)"
  shows "fst (run_session parse_uuid w plugin) \<noteq> Crashed"
  using run_session_never_crashes [OF assms] .

theorem sessions_never_crash_witness:
  "fst (run_session sample_uuid_parser (sample_world\<lparr>sw_first := Inr None\<rparr>) sample_plugin) \<noteq> Crashed"
  by (rule sessions_never_crash) (simp add: sample_world_lawful)

end
